(* ===== verification/Prelude.thy ===== *)
theory Prelude
  imports Main "HOL-Library.Word"
begin

text \<open>
  Shared vocabulary of the development: what a Go call can do besides returning (panic, block
  forever), the fixed-width integers of the source, and the generic lemmas on lists that the
  component theories share.

  A Go function that may panic returns a value of type \<open>'a go\<close>; several Go results become a
  tuple inside \<open>Return\<close>. No code of the repository recovers from a panic, so a panic carries
  no state: it ends the process. \<open>Blocked\<close> is a channel operation that cannot proceed.
\<close>

unbundle bit_operations_syntax

named_theorems go_simps \<open>unfolding rules of the sequencing operators\<close>
named_theorems string_simps \<open>evaluation rules for the string functions\<close>

type_synonym byte = "8 word"

datatype 'a go = Return 'a | Panic string | Blocked

fun go_bind :: "'a go \<Rightarrow> ('a \<Rightarrow> 'b go) \<Rightarrow> 'b go" where
  "go_bind (Return x) f = f x"
| "go_bind (Panic m) f = Panic m"
| "go_bind Blocked f = Blocked"

declare go_bind.simps [go_simps]

lemma go_bind_Return [simp]: "go_bind m Return = m"
  by (cases m) simp_all

lemma go_bind_assoc: "go_bind (go_bind m f) g = go_bind m (\<lambda>x. go_bind (f x) g)"
  by (cases m) simp_all

lemma go_bind_eq_Return: "go_bind m f = Return y \<longleftrightarrow> (\<exists>x. m = Return x \<and> f x = Return y)"
  by (cases m) simp_all

lemma go_bind_ReturnE [elim]:
  assumes "go_bind m f = Return y"
  obtains x where "m = Return x" and "f x = Return y"
  using assms by (auto simp: go_bind_eq_Return)

fun go_ok :: "'a go \<Rightarrow> bool" where
  "go_ok (Return x) = True"
| "go_ok (Panic m) = False"
| "go_ok Blocked = False"

lemma go_ok_iff: "go_ok m \<longleftrightarrow> (\<exists>x. m = Return x)"
  by (cases m) simp_all

subsection \<open>Go error values\<close>

text \<open>
  The error values the source creates or compares: the sentinels of \<open>errors.go\<close>
  (\<open>ErrNoPermission\<close> is \<open>os.ErrPermission\<close>), those of package \<open>io\<close>, \<open>syscall.Errno\<close>
  numbers, texts made with \<open>errors.New\<close> and \<open>fmt.Errorf\<close>, and the values of other
  packages (goadb, the operating system), which stay an opaque type \<open>'x\<close>. A Go result of
  type \<open>error\<close> is an option, \<^term>\<open>None\<close> for nil.
\<close>

datatype 'x err =
    ErrLinkTooDeep
  | ErrNotALink
  | ErrNoPermission
  | ErrNotPermitted
  | EOF
  | ErrShortWrite
  | Errno "64 word"
  | ErrText string
  | Foreign 'x

subsection \<open>Fixed-width signed integers\<close>

text \<open>
  Go's \<open>int\<close> and \<open>int64\<close> are 64-bit two's complement on the platforms adbfs runs on, and
  \<open>int32\<close> is 32-bit: arithmetic wraps around. Values are kept as \<^typ>\<open>int\<close> and every
  operation that can overflow goes through the wrapping functions.
\<close>

definition wrap64 :: "int \<Rightarrow> int" where
  "wrap64 x = (x + 2 ^ 63) mod 2 ^ 64 - 2 ^ 63"

definition wrap32 :: "int \<Rightarrow> int" where
  "wrap32 x = (x + 2 ^ 31) mod 2 ^ 32 - 2 ^ 31"

lemma wrap64_sint: "wrap64 x = sint (word_of_int x :: 64 word)"
  by (simp add: wrap64_def sint_sbintrunc' signed_take_bit_eq_take_bit_shift take_bit_eq_mod)

lemma wrap32_sint: "wrap32 x = sint (word_of_int x :: 32 word)"
  by (simp add: wrap32_def sint_sbintrunc' signed_take_bit_eq_take_bit_shift take_bit_eq_mod)

lemma wrap64_id [simp]: "- (2 ^ 63) \<le> x \<Longrightarrow> x < 2 ^ 63 \<Longrightarrow> wrap64 x = x"
  by (simp add: wrap64_def)

lemma wrap32_id [simp]: "- (2 ^ 31) \<le> x \<Longrightarrow> x < 2 ^ 31 \<Longrightarrow> wrap32 x = x"
  by (simp add: wrap32_def)

lemma wrap64_range: "- (2 ^ 63) \<le> wrap64 x \<and> wrap64 x < 2 ^ 63"
  by (simp add: wrap64_def)

lemma wrap64_upper_half: "2 ^ 63 \<le> x \<Longrightarrow> x < 2 ^ 64 \<Longrightarrow> wrap64 x = x - 2 ^ 64"
proof -
  assume a: "2 ^ 63 \<le> x" "x < 2 ^ 64"
  have "(x + 2 ^ 63) mod 2 ^ 64 = (x + 2 ^ 63 - 2 ^ 64) mod 2 ^ 64"
    by (metis minus_mod_self2)
  also have "\<dots> = x + 2 ^ 63 - 2 ^ 64"
    using a by (intro mod_pos_pos_trivial) auto
  finally show ?thesis by (simp add: wrap64_def)
qed

subsection \<open>Lists\<close>

lemma take_all_drop [simp]: "n = length xs \<Longrightarrow> take n xs = xs"
  by simp

lemma nth_replicate_append:
  "i < n + length ys \<Longrightarrow> (replicate n x @ ys) ! i = (if i < n then x else ys ! (i - n))"
  by (simp add: nth_append)

text \<open>A loop that stores one value at the first \<open>n\<close> indices.\<close>

lemma fold_update_prefix:
  "n \<le> length xs \<Longrightarrow> fold (\<lambda>i ys. ys[i := v]) [0..<n] xs = replicate n v @ drop n xs"
proof (induction n)
  case 0
  then show ?case by simp
next
  case (Suc n)
  then have "fold (\<lambda>i ys. ys[i := v]) [0..<Suc n] xs = (replicate n v @ drop n xs)[n := v]"
    by simp
  also have "\<dots> = replicate n v @ v # drop (Suc n) xs"
    using Suc.prems by (simp add: list_update_append Cons_nth_drop_Suc [symmetric])
  also have "\<dots> = replicate (Suc n) v @ drop (Suc n) xs"
    by (simp add: replicate_app_Cons_same)
  finally show ?case .
qed

end
