(* ===== verification/Fuse_Attr.thy ===== *)
theory Fuse_Attr
  imports Prelude
begin

text \<open>
  The conversions of \<open>util.go\<close> from goadb directory entries to go-fuse attributes. File
  modes are Go's \<open>os.FileMode\<close> bits on one side and the POSIX \<open>S_IF\<close> bits on the other.
\<close>

type_synonym mode = "32 word"

text \<open>\<open>adb.DirEntry\<close>: the modification time is only ever read as \<open>ModifiedAt.Unix()\<close>.\<close>

record dir_entry =
  de_name :: string
  de_mode :: mode
  de_size :: int
  de_mtime :: int

definition ModeDir :: mode where "ModeDir = 0x80000000"
definition ModeSymlink :: mode where "ModeSymlink = 0x08000000"
definition ModeDevice :: mode where "ModeDevice = 0x04000000"
definition ModeNamedPipe :: mode where "ModeNamedPipe = 0x02000000"
definition ModeSocket :: mode where "ModeSocket = 0x01000000"
definition ModePerm :: mode where "ModePerm = 0x1FF"

definition ModeType :: mode where
  "ModeType = ModeDir OR ModeSymlink OR ModeNamedPipe OR ModeSocket OR ModeDevice"

lemmas mode_defs = ModeDir_def ModeSymlink_def ModeDevice_def ModeNamedPipe_def ModeSocket_def
  ModePerm_def ModeType_def

definition IsRegular :: "mode \<Rightarrow> bool" where
  "IsRegular m \<longleftrightarrow> m AND ModeType = 0"

definition IsDir :: "mode \<Rightarrow> bool" where
  "IsDir m \<longleftrightarrow> m AND ModeDir \<noteq> 0"

definition Perm :: "mode \<Rightarrow> mode" where
  "Perm m = m AND ModePerm"

definition S_IFREG :: "32 word" where "S_IFREG = 0x8000"
definition S_IFDIR :: "32 word" where "S_IFDIR = 0x4000"
definition S_IFLNK :: "32 word" where "S_IFLNK = 0xA000"
definition S_IFIFO :: "32 word" where "S_IFIFO = 0x1000"
definition S_IFMT :: "32 word" where "S_IFMT = 0xF000"

lemmas s_if_defs = S_IFREG_def S_IFDIR_def S_IFLNK_def S_IFIFO_def S_IFMT_def

definition is_symlink :: "mode \<Rightarrow> bool" where
  "is_symlink m \<longleftrightarrow> m AND ModeSymlink = ModeSymlink"

definition osFileModeToFuseFileMode :: "mode \<Rightarrow> 32 word" where
  "osFileModeToFuseFileMode inMode =
     (let out = 0;
          out = (if IsRegular inMode then out OR S_IFREG else out);
          out = (if IsDir inMode then out OR S_IFDIR else out);
          out = (if is_symlink inMode then out OR S_IFLNK else out);
          out = (if inMode AND ModeNamedPipe = ModeNamedPipe then out OR S_IFIFO else out)
      in out OR Perm inMode)"

record fuse_attr =
  fa_Mode :: "32 word"
  fa_Size :: "64 word"
  fa_Mtime :: "64 word"

definition asFuseAttr :: "dir_entry \<Rightarrow> fuse_attr" where
  "asFuseAttr entry =
     \<lparr>fa_Mode = osFileModeToFuseFileMode (de_mode entry),
      fa_Size = word_of_int (de_size entry), fa_Mtime = word_of_int (de_mtime entry)\<rparr>"

text \<open>\<open>fuse.StatfsOut\<close>, the fields the source sets.\<close>

record statfs_out =
  sf_Blocks :: "64 word"
  sf_Bfree :: "64 word"
  sf_Bavail :: "64 word"
  sf_Files :: "64 word"
  sf_Ffree :: "64 word"
  sf_Bsize :: "32 word"
  sf_NameLen :: "32 word"

record fuse_dir_entry =
  fd_Name :: string
  fd_Mode :: "32 word"

definition asFuseDirEntries :: "dir_entry list \<Rightarrow> fuse_dir_entry list" where
  "asFuseDirEntries entries =
     map (\<lambda>e. \<lparr>fd_Name = de_name e, fd_Mode = osFileModeToFuseFileMode (de_mode e)\<rparr>) entries"

subsection \<open>The converted bits\<close>

lemma asFuseDirEntries_length [simp]: "length (asFuseDirEntries es) = length es"
  by (simp add: asFuseDirEntries_def)

lemma asFuseDirEntries_names: "map fd_Name (asFuseDirEntries es) = map de_name es"
  by (simp add: asFuseDirEntries_def)

text \<open>The type bits and the permission bits of the result, read separately.\<close>

definition fuse_type_bits :: "mode \<Rightarrow> 32 word" where
  "fuse_type_bits m =
     (if IsRegular m then S_IFREG else 0) OR (if IsDir m then S_IFDIR else 0) OR
     (if is_symlink m then S_IFLNK else 0) OR
     (if m AND ModeNamedPipe = ModeNamedPipe then S_IFIFO else 0)"

lemma osFileModeToFuseFileMode_split:
  "osFileModeToFuseFileMode m = fuse_type_bits m OR Perm m"
  by (simp add: osFileModeToFuseFileMode_def fuse_type_bits_def Let_def or.assoc)

lemma Perm_masks: "Perm m AND S_IFMT = 0" "Perm m AND ModePerm = Perm m"
  by (simp_all add: Perm_def and.assoc s_if_defs mode_defs)

lemma fuse_type_bits_masks:
  "fuse_type_bits m AND S_IFMT = fuse_type_bits m" "fuse_type_bits m AND ModePerm = 0"
  by (simp_all add: fuse_type_bits_def s_if_defs mode_defs)

lemma fuse_mode_type: "osFileModeToFuseFileMode m AND S_IFMT = fuse_type_bits m"
  by (simp add: osFileModeToFuseFileMode_split bit.conj_disj_distrib2 Perm_masks fuse_type_bits_masks)

lemma fuse_mode_perm: "osFileModeToFuseFileMode m AND ModePerm = Perm m"
  by (simp add: osFileModeToFuseFileMode_split bit.conj_disj_distrib2 Perm_masks fuse_type_bits_masks)

text \<open>The type bits for modes of one kind.\<close>

lemma and_ModeType_split:
  "m AND ModeType = k \<Longrightarrow> b AND ModeType = b \<Longrightarrow> m AND b = k AND b"
  by (metis and.assoc and.commute)

lemma fuse_type_bits_kinds:
  "m AND ModeType = 0 \<Longrightarrow> fuse_type_bits m = S_IFREG"
  "m AND ModeType = ModeDir \<Longrightarrow> fuse_type_bits m = S_IFDIR"
  "m AND ModeType = ModeSymlink \<Longrightarrow> fuse_type_bits m = S_IFLNK"
  "m AND ModeType = ModeNamedPipe \<Longrightarrow> fuse_type_bits m = S_IFIFO"
  "m AND ModeType = ModeSocket \<Longrightarrow> fuse_type_bits m = 0"
  "m AND ModeType = ModeDevice \<Longrightarrow> fuse_type_bits m = 0"
  using and_ModeType_split [of m _ ModeDir] and_ModeType_split [of m _ ModeSymlink]
    and_ModeType_split [of m _ ModeNamedPipe]
  by (simp_all add: fuse_type_bits_def IsRegular_def IsDir_def is_symlink_def mode_defs)

end
