(* ===== verification/Errors.thy ===== *)
theory Errors
  imports Fuse_Attr
begin

text \<open>
  Error numbers and their mapping (\<open>errors.go\<close>, \<open>error_read_result.go\<close>). Package
  \<open>goadb/util\<close> is not part of the repository: the functions the source calls are the fields
  of a record, an argument of every definition that uses them. What the code relies on of
  them is the locale \<open>goadb_util\<close>. The last fields are the texts that values of goadb's and
  go-fuse's types print as, which only reach the log.
\<close>

datatype err_code = FileNoExistError | DeviceNotFound

record 'x goadb =
  HasErrCode :: "'x err \<Rightarrow> err_code \<Rightarrow> bool"
  WrapErrf :: "'x err \<Rightarrow> string \<Rightarrow> 'x err go"
  Errorf :: "err_code \<Rightarrow> string \<Rightarrow> 'x err"
  ErrorWithCauseChain :: "'x err \<Rightarrow> string"
  FormatEntry :: "dir_entry \<Rightarrow> string"
  FormatAttr :: "fuse_attr \<Rightarrow> string"
  FormatStatfs :: "statfs_out \<Rightarrow> string"
  DefaultFileString :: string

text \<open>\<open>util.HasErrCode\<close> of a possibly nil error.\<close>

definition has_code :: "'x goadb \<Rightarrow> 'x err option \<Rightarrow> err_code \<Rightarrow> bool" where
  "has_code u err code = (case err of None \<Rightarrow> False | Some e \<Rightarrow> HasErrCode u e code)"

type_synonym errno = "64 word"
type_synonym status = "32 word"

definition OK :: errno where "OK = 0"
definition EPERM :: errno where "EPERM = 1"
definition ENOENT :: errno where "ENOENT = 2"
definition EIO :: errno where "EIO = 5"
definition EACCES :: errno where "EACCES = 13"
definition EINVAL :: errno where "EINVAL = 22"
definition ENOSYS :: errno where "ENOSYS = 38"
definition ELOOP :: errno where "ELOOP = 40"

lemmas errno_defs = OK_def EPERM_def ENOENT_def EIO_def EACCES_def EINVAL_def ENOSYS_def ELOOP_def

text \<open>\<open>toErrno\<close>, its cases in the code's order.\<close>

definition toErrno :: "'x goadb \<Rightarrow> 'x err option \<Rightarrow> errno" where
  "toErrno u err =
     (case err of
        None \<Rightarrow> OK
      | Some e \<Rightarrow>
          if e = Errno OK then OK
          else if e = ErrLinkTooDeep then ELOOP
          else if e = ErrNotALink then EINVAL
          else if e = ErrNoPermission then EACCES
          else if e = ErrNotPermitted then EPERM
          else if HasErrCode u e FileNoExistError then ENOENT
          else (case e of Errno n \<Rightarrow> n | _ \<Rightarrow> EIO))"

definition fuseStatus :: "errno \<Rightarrow> status" where
  "fuseStatus n = ucast n"

definition fuseStatusToErrno :: "status \<Rightarrow> errno" where
  "fuseStatusToErrno s = scast s"

lemma toErrno_None [simp]: "toErrno u None = OK"
  by (simp add: toErrno_def)

lemma toErrno_sentinels [simp]:
  "toErrno u (Some ErrLinkTooDeep) = ELOOP"
  "toErrno u (Some ErrNotALink) = EINVAL"
  "toErrno u (Some ErrNoPermission) = EACCES"
  "toErrno u (Some ErrNotPermitted) = EPERM"
  by (simp_all add: toErrno_def)

lemma toErrno_Errno: "\<not> HasErrCode u (Errno n) FileNoExistError \<Longrightarrow> toErrno u (Some (Errno n)) = n"
  by (simp add: toErrno_def)

text \<open>What the code relies on of \<open>goadb/util\<close>.\<close>

locale goadb_util =
  fixes u :: "'x goadb"
  assumes errorf_code: "HasErrCode u (Errorf u c m) c' \<longleftrightarrow> c' = c"
    and errorf_foreign: "\<exists>x. Errorf u c m = Foreign x"
    and code_foreign: "HasErrCode u e c \<Longrightarrow> \<exists>x. e = Foreign x"
    and wrap_code: "WrapErrf u e m = Return e' \<Longrightarrow> HasErrCode u e' c = HasErrCode u e c"
    and wrap_foreign: "WrapErrf u e m = Return e' \<Longrightarrow> \<exists>x. e' = Foreign x"
begin

lemma toErrno_code: "HasErrCode u e FileNoExistError \<Longrightarrow> toErrno u (Some e) = ENOENT"
  using code_foreign [of e FileNoExistError] by (auto simp: toErrno_def)

lemma toErrno_plain_Errno [simp]: "toErrno u (Some (Errno n)) = n"
  using code_foreign [of "Errno n"] by (auto intro: toErrno_Errno)

text \<open>Only the nil error and the number 0 mean success.\<close>

lemma toErrno_OK_iff: "toErrno u err = OK \<longleftrightarrow> err = None \<or> err = Some (Errno OK)"
proof (cases err)
  case (Some e)
  then show ?thesis
    using code_foreign [of e FileNoExistError]
    by (cases e) (auto simp: toErrno_def errno_defs)
qed simp

text \<open>A wrapped file-not-found error keeps its number; every other wrapped error is EIO.\<close>

lemma toErrno_wrap:
  assumes "WrapErrf u e m = Return e'"
  shows "toErrno u (Some e') = (if HasErrCode u e FileNoExistError then ENOENT else EIO)"
  using wrap_foreign [OF assms] wrap_code [OF assms, of FileNoExistError]
  by (auto simp: toErrno_def)

end

text \<open>\<open>readError\<close> and the result it returns, which reports no bytes and the status.\<close>

datatype read_result = ReadResultData "byte list" | ErrorReadResult status

fun read_bytes :: "read_result \<Rightarrow> byte list \<times> status" where
  "read_bytes (ReadResultData b) = (b, fuseStatus OK)"
| "read_bytes (ErrorReadResult e) = ([], e)"

fun read_size :: "read_result \<Rightarrow> nat" where
  "read_size (ReadResultData b) = length b"
| "read_size (ErrorReadResult e) = 0"

end
