(* ===== verification/Log_Entry.thy ===== *)
theory Log_Entry
  imports Errors
begin

text \<open>
  \<open>LogEntry\<close> of \<open>log_entry.go\<close>: the record an operation fills in, whose setters panic when
  they are called twice, and what finishing it logs. A handler's model returns the entry it
  has filled in; its deferred \<open>FinishOperation\<close> writes \<open>finishOperation\<close> of that entry. The
  status text is the empty string exactly when no status was set: it is kept as the error
  number. The start time is an argument of the functions that use it.
\<close>

record 'x log_entry =
  le_name :: string
  le_path :: string
  le_args :: string
  le_err :: "'x err option"
  le_result :: string
  le_status :: "errno option"
  le_cacheUsed :: bool
  le_cacheHit :: bool

definition StartOperation :: "string \<Rightarrow> string \<Rightarrow> 'x log_entry" where
  "StartOperation name path =
     \<lparr>le_name = name, le_path = path, le_args = [], le_err = None, le_result = [],
      le_status = None, le_cacheUsed = False, le_cacheHit = False\<rparr>"

definition StartFileOperation :: "string \<Rightarrow> string \<Rightarrow> string \<Rightarrow> 'x log_entry" where
  "StartFileOperation name path args =
     (StartOperation (''File '' @ name) path)\<lparr>le_args := args\<rparr>"

definition log_Error :: "'x err option \<Rightarrow> 'x log_entry \<Rightarrow> 'x log_entry go" where
  "log_Error err r =
     (if le_err r \<noteq> None then Panic ''err already set'' else Return (r\<lparr>le_err := err\<rparr>))"

text \<open>\<open>ErrorMsg\<close> builds a new error from the rendered message and the cause chain.\<close>

definition log_ErrorMsg :: "'x goadb \<Rightarrow> 'x err \<Rightarrow> string \<Rightarrow> 'x log_entry \<Rightarrow> 'x log_entry go" where
  "log_ErrorMsg u err msg r =
     log_Error (Some (ErrText (msg @ '': '' @ ErrorWithCauseChain u err))) r"

definition log_Result :: "string \<Rightarrow> 'x log_entry \<Rightarrow> 'x log_entry go" where
  "log_Result result r =
     (if le_result r \<noteq> [] then Panic ''result already set'' else Return (r\<lparr>le_result := result\<rparr>))"

definition log_Status :: "errno \<Rightarrow> 'x log_entry \<Rightarrow> (errno \<times> 'x log_entry) go" where
  "log_Status s r =
     (if le_status r \<noteq> None then Panic ''status already set''
      else Return (s, r\<lparr>le_status := Some s\<rparr>))"

definition log_CacheUsed :: "bool \<Rightarrow> 'x log_entry \<Rightarrow> 'x log_entry" where
  "log_CacheUsed hit r = r\<lparr>le_cacheUsed := True, le_cacheHit := le_cacheHit r \<or> hit\<rparr>"

subsection \<open>Finishing\<close>

record log_fields =
  lf_duration_ms :: int
  lf_status :: "errno option"
  lf_path :: "string option"
  lf_args :: "string option"
  lf_result :: "string option"
  lf_cache_hit :: "bool option"

datatype 'x log_output =
    Debug string log_fields
  | Errorln "'x err"
  | TraceEntry log_fields
  | TraceSetError
  | TraceError "'x err"
  | TraceFinish

text \<open>Go's integer division truncates toward zero.\<close>

definition calculateDurationMillis :: "int \<Rightarrow> int \<Rightarrow> int" where
  "calculateDurationMillis startTime now =
     (let ns = now - startTime
      in if ns < 0 then - ((- ns) div 1000000) else ns div 1000000)"

definition nonempty :: "string \<Rightarrow> string option" where
  "nonempty s = (if s = [] then None else Some s)"

definition logTrace :: "'x log_entry \<Rightarrow> log_fields \<Rightarrow> 'x log_output list" where
  "logTrace r entry =
     TraceEntry entry #
     (case le_err r of None \<Rightarrow> [] | Some e \<Rightarrow> [TraceSetError, TraceError e]) @ [TraceFinish]"

definition finishOperation :: "bool \<Rightarrow> int \<Rightarrow> int \<Rightarrow> 'x log_entry \<Rightarrow> 'x log_output list" where
  "finishOperation suppress startTime now r =
     (let entry =
        \<lparr>lf_duration_ms = calculateDurationMillis startTime now, lf_status = le_status r,
         lf_path = nonempty (le_path r), lf_args = nonempty (le_args r),
         lf_result = nonempty (le_result r),
         lf_cache_hit = (if le_cacheUsed r then Some (le_cacheHit r) else None)\<rparr>
      in (if suppress then [] else [Debug (le_name r) entry]) @
         (case le_err r of None \<Rightarrow> [] | Some e \<Rightarrow> [Errorln e]) @
         logTrace r entry)"

subsection \<open>Reporting a status\<close>

text \<open>\<open>toErrnoLog\<close>, \<open>toFuseStatusLog\<close> and \<open>readError\<close> of \<open>errors.go\<close> and \<open>error_read_result.go\<close>.\<close>

definition toErrnoLog :: "'x goadb \<Rightarrow> 'x err option \<Rightarrow> 'x log_entry \<Rightarrow> (errno \<times> 'x log_entry) go" where
  "toErrnoLog u err r =
     (let s = toErrno u err
      in go_bind (if s = EIO then log_Error err r else Return r) (log_Status s))"

definition toFuseStatusLog :: "'x goadb \<Rightarrow> 'x err option \<Rightarrow> 'x log_entry \<Rightarrow> (status \<times> 'x log_entry) go" where
  "toFuseStatusLog u err r =
     go_bind (toErrnoLog u err r) (\<lambda>(s, r'). Return (fuseStatus s, r'))"

definition readError ::
  "'x goadb \<Rightarrow> 'x err \<Rightarrow> 'x log_entry \<Rightarrow> (read_result \<times> status \<times> 'x log_entry) go" where
  "readError u err r =
     (let s = toErrno u (Some err)
      in go_bind (toFuseStatusLog u (Some err) r) (\<lambda>(st, r').
           Return (ErrorReadResult (fuseStatus s), st, r')))"

subsection \<open>Fresh entries do not panic\<close>

text \<open>An entry whose status and error are still unset takes one status report.\<close>

definition unreported :: "'x log_entry \<Rightarrow> bool" where
  "unreported r \<longleftrightarrow> le_err r = None \<and> le_status r = None"

definition reported :: "'x goadb \<Rightarrow> 'x err option \<Rightarrow> 'x log_entry \<Rightarrow> 'x log_entry" where
  "reported u err r =
     r\<lparr>le_err := (if toErrno u err = EIO then err else None), le_status := Some (toErrno u err)\<rparr>"

lemma unreported_simps [simp]:
  "unreported (StartOperation n p)" "unreported (StartFileOperation n p a)"
  "unreported (log_CacheUsed h r) = unreported r"
  "le_result (log_CacheUsed h r) = le_result r"
  "le_result (StartOperation n p) = []"
  "le_result (StartFileOperation n p a) = []"
  "unreported (r\<lparr>le_result := x\<rparr>) = unreported r"
  by (simp_all add: unreported_def StartOperation_def StartFileOperation_def log_CacheUsed_def)

lemma log_Result_Return [simp]: "le_result r = [] \<Longrightarrow> log_Result m r = Return (r\<lparr>le_result := m\<rparr>)"
  by (simp add: log_Result_def)

lemma toErrnoLog_unreported:
  "unreported r \<Longrightarrow> toErrnoLog u err r = Return (toErrno u err, reported u err r)"
  by (cases r) (simp add: toErrnoLog_def log_Error_def log_Status_def unreported_def reported_def Let_def)

lemma toFuseStatusLog_unreported [simp]:
  "unreported r \<Longrightarrow>
   toFuseStatusLog u err r = Return (fuseStatus (toErrno u err), reported u err r)"
  by (simp add: toFuseStatusLog_def toErrnoLog_unreported)

lemma readError_unreported [simp]:
  "unreported r \<Longrightarrow> readError u err r =
     Return (ErrorReadResult (fuseStatus (toErrno u (Some err))),
       fuseStatus (toErrno u (Some err)), reported u (Some err) r)"
  by (simp add: readError_def Let_def)

text \<open>A second report panics, whatever it reports.\<close>

lemma toFuseStatusLog_twice: "toFuseStatusLog u err' (reported u err r) = Panic ''status already set''
    \<or> toFuseStatusLog u err' (reported u err r) = Panic ''err already set''"
  by (simp add: toFuseStatusLog_def toErrnoLog_def reported_def log_Error_def log_Status_def Let_def)

text \<open>The error line is written exactly for the errors nobody recognised.\<close>

lemma finish_error_lines:
  assumes "unreported r"
  shows "Errorln e \<in> set (finishOperation b t0 t1 (reported u err r)) \<longleftrightarrow>
    err = Some e \<and> toErrno u err = EIO"
proof (cases "toErrno u err = EIO")
  case True
  then have "err \<noteq> None" by (cases err) (simp_all add: errno_defs)
  with True show ?thesis
    by (auto simp: finishOperation_def reported_def logTrace_def Let_def)
next
  case False
  then show ?thesis by (auto simp: finishOperation_def reported_def logTrace_def Let_def)
qed

end
