(* ===== verification/Device_Client.thy ===== *)
theory Device_Client
  imports Log_Entry Fuse_Attr
begin

text \<open>
  The interface \<open>DeviceClient\<close> of \<open>device_client.go\<close>, a record of its methods over the state
  \<open>'d\<close> of the device, and \<open>goadbDeviceClient\<close>, the implementation over goadb's client. A
  method that returns a value or an error returns a sum, \<^term>\<open>Inl\<close> the error.

  The readers of the interface are only ever read to the end and closed, so \<open>OpenRead\<close> returns
  what that yields: the bytes, the error that ended the stream if there was one, and the
  spare bytes of the array they end up in. A writer is used in steps and keeps its methods.
\<close>

record 'x stream =
  st_data :: "byte list"
  st_slack :: "byte list"
  st_err :: "'x err option"

record ('d, 'x) writer =
  w_Write :: "byte list \<Rightarrow> 'd \<Rightarrow> (int \<times> 'x err option) \<times> 'd"
  w_Close :: "'d \<Rightarrow> 'x err option \<times> 'd"

datatype mtime = MtimeOfClose | MtimeAt int

record ('d, 'x) device_client =
  OpenRead :: "string \<Rightarrow> 'd \<Rightarrow> ('x err + 'x stream) \<times> 'd"
  OpenWrite :: "string \<Rightarrow> mode \<Rightarrow> mtime \<Rightarrow> 'd \<Rightarrow> ('x err + ('d, 'x) writer) \<times> 'd"
  Stat :: "string \<Rightarrow> 'x log_entry \<Rightarrow> 'd \<Rightarrow> ('x err + dir_entry) \<times> 'x log_entry \<times> 'd"
  ListDirEntries :: "string \<Rightarrow> 'x log_entry \<Rightarrow> 'd \<Rightarrow> ('x err + dir_entry list) \<times> 'x log_entry \<times> 'd"
  RunCommand :: "string \<Rightarrow> string list \<Rightarrow> 'd \<Rightarrow> ('x err + string) \<times> 'd"

definition ReadlinkInvalidArgument :: string where
  "ReadlinkInvalidArgument = ''readlink: Invalid argument''"

definition ReadlinkPermissionDenied :: string where
  "ReadlinkPermissionDenied = ''readlink: Permission denied''"

subsection \<open>goadbDeviceClient\<close>

text \<open>
  goadb's own client (not part of the repository) is a record of functions; listing returns
  an iterator that \<open>ReadAll\<close> then runs.
\<close>

record ('d, 'x) adb_device =
  adb_OpenRead :: "string \<Rightarrow> 'd \<Rightarrow> ('x err + 'x stream) \<times> 'd"
  adb_OpenWrite :: "string \<Rightarrow> mode \<Rightarrow> mtime \<Rightarrow> 'd \<Rightarrow> ('x err + ('d, 'x) writer) \<times> 'd"
  adb_Stat :: "string \<Rightarrow> 'd \<Rightarrow> ('x err + dir_entry) \<times> 'd"
  adb_ListDirEntries ::
    "string \<Rightarrow> 'd \<Rightarrow> ('x err + ('d \<Rightarrow> ('x err + dir_entry list) \<times> 'd)) \<times> 'd"
  adb_RunCommand :: "string \<Rightarrow> string list \<Rightarrow> 'd \<Rightarrow> ('x err + string) \<times> 'd"

text \<open>\<open>handleDeviceNotFound\<close>: the handler runs if there is one; the error is passed on.\<close>

definition handleDeviceNotFound :: "('d \<Rightarrow> 'd) option \<Rightarrow> 'x err \<Rightarrow> 'd \<Rightarrow> 'x err \<times> 'd" where
  "handleDeviceNotFound handler err d =
     (err, (case handler of None \<Rightarrow> d | Some h \<Rightarrow> h d))"

definition notify :: "'x goadb \<Rightarrow> ('d \<Rightarrow> 'd) option \<Rightarrow> 'x err + 'a \<Rightarrow> 'd \<Rightarrow> ('x err + 'a) \<times> 'd" where
  "notify u handler res d =
     (case res of
        Inr a \<Rightarrow> (Inr a, d)
      | Inl e \<Rightarrow>
          if HasErrCode u e DeviceNotFound
          then (case handleDeviceNotFound handler e d of (e', d') \<Rightarrow> (Inl e', d'))
          else (Inl e, d))"

definition goadb_OpenRead where
  "goadb_OpenRead u adb handler path d =
     (case adb_OpenRead adb path d of (r, d') \<Rightarrow> notify u handler r d')"

definition goadb_OpenWrite where
  "goadb_OpenWrite adb path mode mtime d = adb_OpenWrite adb path mode mtime d"

definition goadb_Stat where
  "goadb_Stat u adb handler path log d =
     (case adb_Stat adb path d of (e, d') \<Rightarrow>
        (case notify u handler e d' of (e', d'') \<Rightarrow> (e', log, d'')))"

text \<open>The error of \<open>ReadAll\<close> is returned without asking whether the device is gone.\<close>

definition goadb_ListDirEntries where
  "goadb_ListDirEntries u adb handler path log d =
     (case adb_ListDirEntries adb path d of
        (Inl err, d') \<Rightarrow>
          (if HasErrCode u err DeviceNotFound
           then (case handleDeviceNotFound handler err d' of (_, d'') \<Rightarrow> (Inl err, log, d''))
           else (Inl err, log, d'))
      | (Inr entries, d') \<Rightarrow> (case entries d' of (r, d'') \<Rightarrow> (r, log, d'')))"

definition goadb_client ::
  "'x goadb \<Rightarrow> ('d, 'x) adb_device \<Rightarrow> ('d \<Rightarrow> 'd) option \<Rightarrow> ('d, 'x) device_client" where
  "goadb_client u adb handler =
     \<lparr>OpenRead = goadb_OpenRead u adb handler,
      OpenWrite = goadb_OpenWrite adb,
      Stat = goadb_Stat u adb handler,
      ListDirEntries = goadb_ListDirEntries u adb handler,
      RunCommand = adb_RunCommand adb\<rparr>"

subsection \<open>What the clients of the interface rely on\<close>

text \<open>A client reports nothing in the log entry but cache use.\<close>

definition same_report :: "'x log_entry \<Rightarrow> 'x log_entry \<Rightarrow> bool" where
  "same_report r r' \<longleftrightarrow>
     (\<exists>used hit. r' = r\<lparr>le_cacheUsed := used, le_cacheHit := hit\<rparr>)"

lemma same_report_refl [simp]: "same_report r r"
  by (cases r) (auto simp: same_report_def intro: exI)

lemma same_report_CacheUsed [simp]: "same_report r (log_CacheUsed h r)"
  by (auto simp: same_report_def log_CacheUsed_def)

lemma same_report_trans [trans]: "same_report a b \<Longrightarrow> same_report b c \<Longrightarrow> same_report a c"
  unfolding same_report_def by (elim exE) (simp, intro exI, rule refl)

lemma same_report_fields:
  assumes "same_report r r'"
  shows "unreported r' = unreported r" and "le_result r' = le_result r"
    and "le_err r' = le_err r" and "le_status r' = le_status r"
  using assms by (auto simp: same_report_def unreported_def)

locale log_discipline =
  fixes c :: "('d, 'x) device_client"
  assumes stat_log: "Stat c p r d = (res, r', d') \<Longrightarrow> same_report r r'"
    and list_log: "ListDirEntries c p r d = (ents, r', d') \<Longrightarrow> same_report r r'"

text \<open>
  The device as a store of files: \<open>files d p\<close> is the content of the file at \<open>p\<close>, and
  \<open>receiving w p b d\<close> says that in state \<open>d\<close> the writer \<open>w\<close> is open on \<open>p\<close> and has been
  sent \<open>b\<close>. What is sent becomes the content of the file when the writer is closed; closing
  it again changes no file. The law of reading also says that the spare bytes of the array
  \<open>ioutil.ReadAll\<close> returns are zero: \<open>ReadAll\<close> allocates zeroed arrays, and goadb's reader
  stores nothing beyond the bytes it reports, which \<open>io.Reader\<close> would permit it to do.
\<close>

locale file_device =
  fixes c :: "('d, 'x) device_client"
    and valid :: "'d \<Rightarrow> bool"
    and files :: "'d \<Rightarrow> string \<Rightarrow> byte list option"
    and writable :: "'d \<Rightarrow> string \<Rightarrow> bool"
    and receiving :: "('d, 'x) writer \<Rightarrow> string \<Rightarrow> byte list \<Rightarrow> 'd \<Rightarrow> bool"
    and closed :: "('d, 'x) writer \<Rightarrow> 'd \<Rightarrow> bool"
  assumes open_read_law:
      "valid d \<Longrightarrow> files d p = Some b \<Longrightarrow>
       \<exists>k d'. OpenRead c p d = (Inr \<lparr>st_data = b, st_slack = replicate k 0, st_err = None\<rparr>, d') \<and>
         valid d' \<and> files d' = files d \<and> writable d' = writable d"
    and open_write_law:
      "valid d \<Longrightarrow> writable d p \<Longrightarrow>
       \<exists>w d'. OpenWrite c p m t d = (Inr w, d') \<and> receiving w p [] d' \<and>
         (\<forall>q. q \<noteq> p \<longrightarrow> files d' q = files d q) \<and> writable d' = writable d"
    and write_law:
      "receiving w p b d \<Longrightarrow>
       \<exists>d'. w_Write w b' d = ((int (length b'), None), d') \<and> receiving w p (b @ b') d' \<and>
         (\<forall>q. q \<noteq> p \<longrightarrow> files d' q = files d q) \<and> writable d' = writable d"
    and close_law:
      "receiving w p b d \<Longrightarrow>
       \<exists>d'. w_Close w d = (None, d') \<and> closed w d' \<and> valid d' \<and>
         files d' = (files d)(p \<mapsto> b) \<and> writable d' = writable d"
    and close_again_law:
      "closed w d \<Longrightarrow> valid d \<Longrightarrow>
       \<exists>e d'. w_Close w d = (e, d') \<and> valid d' \<and> files d' = files d \<and> writable d' = writable d"

text \<open>
  A device that also keeps the permissions of files. goadb's \<open>OpenWrite\<close> opens a file, creating it
  with the given permissions if necessary: \<open>opened_as w p m d\<close> says that the writer creates \<open>p\<close> with
  permissions \<open>m\<close>, which the file has once the writer is closed. Nothing is said of files that exist.
\<close>

locale perm_device =
  file_device c valid files writable receiving closed
  for c :: "('d, 'x) device_client" and valid files writable receiving closed +
  fixes file_perms :: "'d \<Rightarrow> string \<Rightarrow> mode option"
    and opened_as :: "('d, 'x) writer \<Rightarrow> string \<Rightarrow> mode \<Rightarrow> 'd \<Rightarrow> bool"
  assumes open_perms: "files d p = None \<Longrightarrow> OpenWrite c p m t d = (Inr w, d') \<Longrightarrow> opened_as w p m d'"
    and write_perms: "opened_as w p m d \<Longrightarrow> w_Write w b d = (r, d') \<Longrightarrow> opened_as w p m d'"
    and close_perms: "opened_as w p m d \<Longrightarrow> w_Close w d = (None, d') \<Longrightarrow> file_perms d' p = Some m"
    and close_again_perms: "closed w d \<Longrightarrow> w_Close w d = (e, d') \<Longrightarrow> file_perms d' = file_perms d"

text \<open>What happens to one path leaves the files of the others, and what can be written, alone.\<close>

definition keeps_others :: "('d \<Rightarrow> string \<Rightarrow> 'b) \<Rightarrow> ('d \<Rightarrow> string \<Rightarrow> bool) \<Rightarrow> string \<Rightarrow> 'd \<Rightarrow> 'd \<Rightarrow> bool" where
  "keeps_others files writable p d d' \<longleftrightarrow>
     (\<forall>q. q \<noteq> p \<longrightarrow> files d' q = files d q) \<and> writable d' = writable d"

lemma keeps_others_refl [simp]: "keeps_others files writable p d d"
  by (simp add: keeps_others_def)

lemma keeps_others_trans [trans]:
  "keeps_others files writable p d d1 \<Longrightarrow> keeps_others files writable p d1 d2 \<Longrightarrow>
   keeps_others files writable p d d2"
  by (auto simp: keeps_others_def)

subsection \<open>The goadb client keeps both disciplines\<close>

text \<open>It writes no log entry, whatever goadb does.\<close>

lemma goadb_log: "log_discipline (goadb_client u adb handler)"
  by unfold_locales
    (auto simp: goadb_client_def goadb_Stat_def goadb_ListDirEntries_def
       split: prod.splits sum.splits if_splits)

interpretation goadb_log: log_discipline "goadb_client u adb handler" for u adb handler
  by (rule goadb_log)

text \<open>The handler runs exactly when goadb reports the device gone; the result is goadb's.\<close>

lemma notify_result: "fst (notify u handler res d) = res"
  by (auto simp: notify_def handleDeviceNotFound_def split: sum.splits)

lemma notify_state:
  "snd (notify u handler res d) =
     (case (res, handler) of
        (Inl e, Some h) \<Rightarrow> if HasErrCode u e DeviceNotFound then h d else d
      | _ \<Rightarrow> d)"
  by (auto simp: notify_def handleDeviceNotFound_def split: sum.splits option.splits)

end
