(* ===== verification/Byte_Buffer.thy ===== *)
theory Byte_Buffer
  imports Prelude
begin

text \<open>
  The contract between \<open>FileBuffer\<close> and its in-memory buffer: reads and writes at an offset
  of a byte sequence that grows with zero bytes. \<open>overwrite\<close> is the abstract write. The
  locale states what the buffer promises; the lemmas in it are what the client uses.
\<close>

definition overwrite :: "byte list \<Rightarrow> nat \<Rightarrow> byte list \<Rightarrow> byte list" where
  "overwrite c off d =
     take off c @ replicate (off - length c) 0 @ d @ drop (off + length d) c"

lemma length_overwrite [simp]: "length (overwrite c off d) = max (length c) (off + length d)"
  by (simp add: overwrite_def)

lemma nth_overwrite:
  assumes "i < max (length c) (off + length d)"
  shows "overwrite c off d ! i =
    (if off \<le> i \<and> i < off + length d then d ! (i - off)
     else if i < length c then c ! i else 0)"
proof -
  have pad: "min (length c) off + (off - length c) = off" by auto
  consider "i < off" "i < length c" | "i < off" "length c \<le> i"
    | "off \<le> i" "i < off + length d" | "off + length d \<le> i" by linarith
  then show ?thesis
    using assms by cases (auto simp: overwrite_def nth_append pad)
qed

lemma overwrite_window [simp]: "take (length d) (drop off (overwrite c off d)) = d"
  by (simp add: overwrite_def)

lemma overwrite_append_end: "overwrite c (length c) d = c @ d"
  by (simp add: overwrite_def)

lemma overwrite_all: "length c \<le> length d \<Longrightarrow> overwrite c 0 d = d"
  by (simp add: overwrite_def)

text \<open>Writes to windows that do not overlap commute.\<close>

lemma overwrite_commute:
  assumes "off1 + length d1 \<le> off2"
  shows "overwrite (overwrite c off1 d1) off2 d2 = overwrite (overwrite c off2 d2) off1 d1"
proof (rule nth_equalityI)
  show "length (overwrite (overwrite c off1 d1) off2 d2) = length (overwrite (overwrite c off2 d2) off1 d1)"
    by simp
next
  fix i
  assume "i < length (overwrite (overwrite c off1 d1) off2 d2)"
  then have i: "i < max (max (length c) (off1 + length d1)) (off2 + length d2)"
    "i < max (max (length c) (off2 + length d2)) (off1 + length d1)" by auto
  show "overwrite (overwrite c off1 d1) off2 d2 ! i = overwrite (overwrite c off2 d2) off1 d1 ! i"
    using assms i by (subst (1 2) nth_overwrite) (auto simp: nth_overwrite)
qed

text \<open>
  A write may leave a gap between the end of the contents and its offset. A buffer pads the gap
  with zeros only when it is \<open>padded\<close>: when the bytes it will grow into are zero. The runs of
  writes without gaps are those where every write starts within the contents left by the
  earlier ones.
\<close>

fun gapless :: "nat \<Rightarrow> (byte list \<times> int) list \<Rightarrow> bool" where
  "gapless n [] \<longleftrightarrow> True"
| "gapless n ((d, off) # ws) \<longleftrightarrow> off \<le> int n \<and> gapless (max n (nat off + length d)) ws"

locale byte_buffer =
  fixes contents :: "'s \<Rightarrow> byte list"
    and inv :: "'s \<Rightarrow> bool"
    and padded :: "'s \<Rightarrow> bool"
    and limit :: int
    and write_at :: "byte list \<Rightarrow> int \<Rightarrow> 's \<Rightarrow> (int \<times> 's) go"
    and read_at :: "'s \<Rightarrow> byte list \<Rightarrow> int \<Rightarrow> (int \<times> 'x err option \<times> byte list) go"
  assumes write_at_law:
      "inv s \<Longrightarrow> 0 \<le> off \<Longrightarrow> off + int (length d) \<le> limit \<Longrightarrow>
       int (length (contents s)) \<le> limit \<Longrightarrow> padded s \<or> off \<le> int (length (contents s)) \<Longrightarrow>
       \<exists>s'. write_at d off s = Return (int (length d), s') \<and> inv s' \<and> (padded s \<longrightarrow> padded s') \<and>
         contents s' = overwrite (contents s) (nat off) d"
    and read_at_law:
      "inv s \<Longrightarrow> 0 \<le> off \<Longrightarrow>
       read_at s buf off =
         (let src = drop (nat off) (contents s); n = min (length buf) (length src)
          in Return (int n,
               if int (length (contents s)) \<le> off + int n then Some EOF else None,
               take n src @ drop n buf))"
begin

lemma write_contents:
  assumes "inv s" and "0 \<le> off" and "off + int (length d) \<le> limit"
    and "int (length (contents s)) \<le> limit" and "padded s \<or> off \<le> int (length (contents s))"
  obtains s' where "write_at d off s = Return (int (length d), s')" and "inv s'"
    and "padded s \<longrightarrow> padded s'" and "contents s' = overwrite (contents s) (nat off) d"
  using write_at_law [OF assms] by blast

text \<open>Reading the window just written returns the data written.\<close>

lemma read_back:
  assumes "inv s" and "0 \<le> off" and "off + int (length d) \<le> limit"
    and "int (length (contents s)) \<le> limit" and "padded s \<or> off \<le> int (length (contents s))"
    and "length buf = length d"
  shows "\<exists>s' e. write_at d off s = Return (int (length d), s') \<and>
    read_at s' buf off = Return (int (length d), e, d)"
proof -
  obtain s' where s': "write_at d off s = Return (int (length d), s')" "inv s'"
    "contents s' = overwrite (contents s) (nat off) d"
    using assms(1-5) by (rule write_contents)
  have "min (length buf) (length (drop (nat off) (contents s'))) = length d"
    using s'(3) assms(2,6) by auto
  then have "\<exists>e. read_at s' buf off = Return (int (length d), e, d)"
    using read_at_law [OF s'(2) assms(2), of buf] s'(3) assms(6) by (simp add: Let_def)
  with s'(1) show ?thesis by blast
qed

text \<open>A run of writes, and the abstract contents it produces.\<close>

fun write_all :: "(byte list \<times> int) list \<Rightarrow> 's \<Rightarrow> 's go" where
  "write_all [] s = Return s"
| "write_all ((d, off) # ws) s = go_bind (write_at d off s) (\<lambda>r. write_all ws (snd r))"

lemma write_all_contents:
  assumes "inv s" and "int (length (contents s)) \<le> limit"
    and "list_all (\<lambda>w. 0 \<le> snd w \<and> snd w + int (length (fst w)) \<le> limit) ws"
    and "padded s \<or> gapless (length (contents s)) ws"
  shows "\<exists>s'. write_all ws s = Return s' \<and> inv s' \<and> (padded s \<longrightarrow> padded s') \<and>
    contents s' = foldl (\<lambda>c w. overwrite c (nat (snd w)) (fst w)) (contents s) ws"
  using assms
proof (induction ws arbitrary: s)
  case Nil
  then show ?case by simp
next
  case (Cons w ws)
  obtain d off where w: "w = (d, off)" by (cases w)
  with Cons.prems have off: "0 \<le> off" "off + int (length d) \<le> limit" by simp_all
  have gap: "padded s \<or> off \<le> int (length (contents s))" using Cons.prems(4) w by auto
  obtain s' where s': "write_at d off s = Return (int (length d), s')" "inv s'" "padded s \<longrightarrow> padded s'"
    "contents s' = overwrite (contents s) (nat off) d"
    using Cons.prems(1) off Cons.prems(2) gap by (rule write_contents)
  have "int (length (contents s')) \<le> limit"
    using s'(4) off Cons.prems(2) by simp
  moreover have "padded s' \<or> gapless (length (contents s')) ws"
    using Cons.prems(4) w s'(3,4) by auto
  ultimately obtain s'' where "write_all ws s' = Return s''" "inv s''" "padded s' \<longrightarrow> padded s''"
    "contents s'' = foldl (\<lambda>c w. overwrite c (nat (snd w)) (fst w)) (contents s') ws"
    using Cons.IH [OF s'(2)] Cons.prems(3) w by auto
  then show ?case using s' w by simp
qed

end

end
