(* ===== verification/Growable_Slice.thy ===== *)
theory Growable_Slice
  imports Byte_Buffer
begin

text \<open>
  \<open>GrowableByteSlice\<close> of \<open>internal/util/growable_byte_slice.go\<close>. A Go slice is a length
  and a window on a backing array; the bytes between length and capacity survive and come
  back when the slice is re-sliced longer, so the model keeps the whole backing array.
  The functions are total on every argument: each run-time check of the language that can
  fail is a \<^term>\<open>Panic\<close>.
\<close>

subsection \<open>The slice and its operations\<close>

record gbs =
  backing :: "byte list"
  used :: nat

definition empty_slice :: gbs where
  "empty_slice = \<lparr>backing = [], used = 0\<rparr>"

definition gbs_data :: "gbs \<Rightarrow> byte list" where
  "gbs_data s = take (used s) (backing s)"

definition gbs_cap :: "gbs \<Rightarrow> nat" where
  "gbs_cap s = length (backing s)"

definition wf_slice :: "gbs \<Rightarrow> bool" where
  "wf_slice s \<longleftrightarrow> used s \<le> length (backing s)"

text \<open>The largest allocation the Go run time grants on a 64-bit platform.\<close>

definition max_alloc :: int where
  "max_alloc = 2 ^ 48"

text \<open>\<open>make([]byte, len, cap)\<close>: a zeroed array, or the run time's panic.\<close>

definition make_bytes :: "int \<Rightarrow> int \<Rightarrow> gbs go" where
  "make_bytes len cap =
     (if len < 0 \<or> cap < len \<or> max_alloc < cap then Panic ''makeslice: len or cap out of range''
      else Return \<lparr>backing = replicate (nat cap) 0, used = nat len\<rparr>)"

definition initial_capacity :: int where
  "initial_capacity = 1024"

definition gbs_reallocate :: "int \<Rightarrow> gbs \<Rightarrow> gbs go" where
  "gbs_reallocate newLen s =
     (let newCapacity = wrap64 (2 * newLen);
          newCapacity = (if newCapacity < initial_capacity then initial_capacity else newCapacity)
      in go_bind (make_bytes newLen newCapacity) (\<lambda>new.
           let n = min (used new) (used s)
           in Return (new\<lparr>backing := take n (gbs_data s) @ drop n (backing new)\<rparr>)))"

text \<open>
  \<open>shrink\<close>. The loop \<open>for i := range s.data[newLen:]\<close> runs \<open>i\<close> from 0 to
  \<open>len - newLen - 1\<close> and stores 0 at \<open>s.data[i]\<close>.
\<close>

definition gbs_shrink :: "int \<Rightarrow> gbs \<Rightarrow> gbs go" where
  "gbs_shrink newLen s =
     (if int (used s) \<le> newLen then Panic ''cannot shrink larger''
      else if used s < gbs_cap s div 3 then gbs_reallocate newLen s
      else if newLen < 0 then Panic ''slice bounds out of range''
      else Return
        (s\<lparr>backing := fold (\<lambda>i a. a[i := 0]) [0..<used s - nat newLen] (backing s),
           used := nat newLen\<rparr>))"

definition gbs_resize :: "int \<Rightarrow> gbs \<Rightarrow> gbs go" where
  "gbs_resize newLen s =
     (if newLen < 0 then Panic ''newLen must be >= 0''
      else if newLen < int (used s) then gbs_shrink newLen s
      else if newLen = int (used s) then Return s
      else if newLen \<le> int (gbs_cap s) then Return (s\<lparr>used := nat newLen\<rparr>)
      else gbs_reallocate newLen s)"

text \<open>\<open>ReadAt(buf, off)\<close>: the count, the error, and \<open>buf\<close> after the copy.\<close>

definition gbs_read_at :: "gbs \<Rightarrow> byte list \<Rightarrow> int \<Rightarrow> (int \<times> 'x err option \<times> byte list) go" where
  "gbs_read_at s buf off =
     (if int (used s) \<le> off then Return (0, Some EOF, buf)
      else if off < 0 then Panic ''slice bounds out of range''
      else
        let src = drop (nat off) (gbs_data s);
            n = min (length buf) (length src)
        in Return (int n,
             if int n + off = int (used s) then Some EOF else None,
             take n src @ drop n buf))"

text \<open>\<open>slice(start, end)\<close> grows the slice; the copy into the window follows in \<open>WriteAt\<close>.\<close>

definition gbs_slice :: "int \<Rightarrow> int \<Rightarrow> gbs \<Rightarrow> gbs go" where
  "gbs_slice start end' s =
     (if end' < start then Panic ''start > end''
      else
        go_bind (if int (used s) < end' then gbs_resize end' s else Return s) (\<lambda>s'.
          if start < 0 then Panic ''slice bounds out of range'' else Return s'))"

definition gbs_write_at :: "byte list \<Rightarrow> int \<Rightarrow> gbs \<Rightarrow> (int \<times> gbs) go" where
  "gbs_write_at data off s =
     (let end' = wrap64 (off + int (length data))
      in go_bind (gbs_slice off end' s) (\<lambda>s'.
           let lo = nat off; n = min (length data) (nat (end' - off))
           in Return (int (length data),
                s'\<lparr>backing := take lo (backing s') @ take n data @ drop (lo + n) (backing s')\<rparr>)))"

text \<open>
  \<open>WriteTo(w)\<close> is \<open>io.Copy\<close> from a \<open>bytes.Reader\<close>: one \<open>Write\<close> of all the data, none
  when there is no data.
\<close>

definition gbs_write_to ::
  "gbs \<Rightarrow> (byte list \<Rightarrow> 'd \<Rightarrow> (int \<times> 'x err option) \<times> 'd) \<Rightarrow> 'd \<Rightarrow> ((int \<times> 'x err option) \<times> 'd) go" where
  "gbs_write_to s write d =
     (let b = gbs_data s in
      if b = [] then Return ((0, None), d)
      else
        case write b d of ((m, err), d') \<Rightarrow>
          if int (length b) < m then Panic ''bytes.Reader.WriteTo: invalid Write count''
          else Return ((m, if m \<noteq> int (length b) \<and> err = None then Some ErrShortWrite else err), d'))"

text \<open>
  \<open>ReadFrom(r)\<close>: \<open>ioutil.ReadAll\<close> returns what the stream delivered before its end or
  its error, in an array whose spare bytes (\<open>slack\<close>) the library chooses.
\<close>

definition gbs_read_from :: "byte list \<Rightarrow> byte list \<Rightarrow> 'x err option \<Rightarrow> gbs \<Rightarrow> (int \<times> 'x err option) \<times> gbs" where
  "gbs_read_from data slack err s =
     ((int (length data), err), \<lparr>backing = data @ slack, used = length data\<rparr>)"

definition gbs_len :: "gbs \<Rightarrow> int" where
  "gbs_len s = int (used s)"

subsection \<open>Well-formedness and the spare bytes\<close>

text \<open>The bytes beyond the length are zero: what growing in place relies on.\<close>

definition slack_zero :: "gbs \<Rightarrow> bool" where
  "slack_zero s \<longleftrightarrow> drop (used s) (backing s) = replicate (gbs_cap s - used s) 0"

definition good_slice :: "gbs \<Rightarrow> bool" where
  "good_slice s \<longleftrightarrow> wf_slice s \<and> slack_zero s"

lemma length_gbs_data [simp]: "wf_slice s \<Longrightarrow> length (gbs_data s) = used s"
  by (simp add: wf_slice_def gbs_data_def)

lemma good_slice_wf [simp, intro]: "good_slice s \<Longrightarrow> wf_slice s"
  by (simp add: good_slice_def)

lemma good_empty_slice [simp]: "good_slice empty_slice"
  by (simp add: good_slice_def wf_slice_def slack_zero_def gbs_cap_def empty_slice_def)

lemma good_slice_backing:
  "good_slice s \<Longrightarrow> backing s = gbs_data s @ replicate (gbs_cap s - used s) 0"
  by (metis append_take_drop_id gbs_data_def good_slice_def slack_zero_def)

lemma good_sliceI:
  "backing s = xs @ replicate k 0 \<Longrightarrow> used s = length xs \<Longrightarrow> good_slice s \<and> gbs_data s = xs"
  by (simp add: good_slice_def wf_slice_def slack_zero_def gbs_cap_def gbs_data_def)

subsection \<open>Growing and shrinking\<close>

lemma reallocate_Return:
  assumes "wf_slice s" and "0 \<le> n" and "2 * n \<le> max_alloc"
  obtains s' k where "gbs_reallocate n s = Return s'"
    and "backing s' = (take (nat n) (gbs_data s) @ replicate (nat n - used s) 0) @ replicate k 0"
    and "used s' = nat n" and "initial_capacity \<le> int (gbs_cap s')"
proof -
  define c where "c = (if 2 * n < initial_capacity then initial_capacity else 2 * n)"
  have c: "n \<le> c" "c \<le> max_alloc" "initial_capacity \<le> c"
    using assms by (auto simp: c_def initial_capacity_def max_alloc_def)
  have w: "wrap64 (2 * n) = 2 * n"
    using assms by (simp add: max_alloc_def)
  define s' where "s' = \<lparr>backing = take (min (nat n) (used s)) (gbs_data s)
      @ drop (min (nat n) (used s)) (replicate (nat c) 0), used = nat n\<rparr>"
  have "gbs_reallocate n s = Return s'"
    using assms c w
    by (simp add: gbs_reallocate_def make_bytes_def Let_def s'_def flip: c_def)
  moreover have "backing s' =
      (take (nat n) (gbs_data s) @ replicate (nat n - used s) 0) @ replicate (nat c - nat n) 0"
  proof -
    have "nat c - min (nat n) (used s) = (nat n - used s) + (nat c - nat n)"
      using c by (auto simp: min_def)
    then show ?thesis
      using assms(1) by (simp add: s'_def min_def replicate_add)
  qed
  moreover have "gbs_cap s' = nat c"
    using c assms(1) by (auto simp: s'_def gbs_cap_def)
  ultimately show thesis
    using that [of s' "nat c - nat n"] c by (simp add: s'_def)
qed

lemma reallocate_good:
  assumes "wf_slice s" and "0 \<le> n" and "2 * n \<le> max_alloc"
  shows "\<exists>s'. gbs_reallocate n s = Return s' \<and> good_slice s' \<and>
    gbs_data s' = take (nat n) (gbs_data s) @ replicate (nat n - used s) 0"
proof -
  obtain s' k where s': "gbs_reallocate n s = Return s'"
    "backing s' = (take (nat n) (gbs_data s) @ replicate (nat n - used s) 0) @ replicate k 0"
    "used s' = nat n"
    using assms by (rule reallocate_Return)
  have "used s' = length (take (nat n) (gbs_data s) @ replicate (nat n - used s) (0::byte))"
    using s'(3) assms(1) by auto
  from good_sliceI [OF s'(2) this] s'(1) show ?thesis by auto
qed

text \<open>Growing a good slice pads it with zero bytes, in place or not.\<close>

lemma resize_grow:
  assumes "good_slice s" and "int (used s) \<le> n" and "2 * n \<le> max_alloc"
  shows "\<exists>s'. gbs_resize n s = Return s' \<and> good_slice s' \<and>
    gbs_data s' = gbs_data s @ replicate (nat n - used s) 0"
proof -
  consider (same) "n = int (used s)" | (inplace) "int (used s) < n" "n \<le> int (gbs_cap s)"
    | (realloc) "int (used s) < n" "int (gbs_cap s) < n"
    using assms(2) by linarith
  then show ?thesis
  proof cases
    case same
    then show ?thesis using assms(1) by (simp add: gbs_resize_def)
  next
    case inplace
    define s' where "s' = s\<lparr>used := nat n\<rparr>"
    have "gbs_cap s - used s = (nat n - used s) + (gbs_cap s - nat n)"
      using inplace by linarith
    then have "backing s' = (gbs_data s @ replicate (nat n - used s) 0) @ replicate (gbs_cap s - nat n) 0"
      using good_slice_backing [OF assms(1)] by (simp add: s'_def replicate_add)
    moreover have "used s' = length (gbs_data s @ replicate (nat n - used s) (0::byte))"
      using inplace assms(1) by (simp add: s'_def)
    ultimately have "good_slice s' \<and> gbs_data s' = gbs_data s @ replicate (nat n - used s) 0"
      by (rule good_sliceI)
    then show ?thesis using inplace by (simp add: gbs_resize_def s'_def)
  next
    case realloc
    then show ?thesis
      using reallocate_good [of s n] assms by (auto simp: gbs_resize_def)
  qed
qed

text \<open>
  Growing any slice: in place it takes the spare bytes of the array as they are, a new array has
  zeros.
\<close>

definition grown :: "gbs \<Rightarrow> int \<Rightarrow> byte list" where
  "grown s n =
     (if n \<le> int (gbs_cap s) then take (nat n - used s) (drop (used s) (backing s))
      else replicate (nat n - used s) 0)"

lemma length_grown:
  assumes "wf_slice s" and "int (used s) \<le> n"
  shows "length (grown s n) = nat n - used s"
  using assms by (auto simp: grown_def wf_slice_def gbs_cap_def)

lemma grown_zero:
  assumes "wf_slice s" and "slack_zero s"
  shows "grown s n = replicate (nat n - used s) 0"
  using assms by (auto simp: grown_def slack_zero_def gbs_cap_def min_def)

lemma resize_grow_exact:
  assumes "wf_slice s" and "int (used s) \<le> n" and "2 * n \<le> max_alloc"
  shows "\<exists>s'. gbs_resize n s = Return s' \<and> wf_slice s' \<and> gbs_data s' = gbs_data s @ grown s n \<and>
    (slack_zero s \<longrightarrow> slack_zero s')"
proof -
  consider (same) "n = int (used s)" | (inplace) "int (used s) < n" "n \<le> int (gbs_cap s)"
    | (realloc) "int (used s) < n" "int (gbs_cap s) < n"
    using assms(2) by linarith
  then show ?thesis
  proof cases
    case same
    then show ?thesis using assms(1) by (auto simp: gbs_resize_def grown_def wf_slice_def gbs_cap_def)
  next
    case inplace
    have "take (nat n) (backing s) = gbs_data s @ take (nat n - used s) (drop (used s) (backing s))"
      using inplace take_add [of "used s" "nat n - used s" "backing s"] by (simp add: gbs_data_def)
    moreover have "slack_zero s \<longrightarrow> slack_zero (s\<lparr>used := nat n\<rparr>)"
    proof
      assume "slack_zero s"
      then have "drop (used s) (backing s) = replicate (gbs_cap s - used s) 0" by (simp add: slack_zero_def)
      then have "drop (nat n - used s) (drop (used s) (backing s)) = replicate (gbs_cap s - nat n) 0"
        using inplace by simp
      then show "slack_zero (s\<lparr>used := nat n\<rparr>)" using inplace by (simp add: slack_zero_def gbs_cap_def)
    qed
    ultimately show ?thesis
      using inplace by (auto simp: gbs_resize_def grown_def gbs_data_def wf_slice_def gbs_cap_def)
  next
    case realloc
    then show ?thesis
      using reallocate_good [of s n] assms by (auto simp: gbs_resize_def grown_def good_slice_def)
  qed
qed

text \<open>Shrinking keeps the prefix when the slice is reallocated, less than a third full.\<close>

lemma resize_shrink_realloc:
  assumes "wf_slice s" and "0 \<le> n" and "n < int (used s)" and "used s < gbs_cap s div 3"
    and "2 * n \<le> max_alloc"
  shows "\<exists>s'. gbs_resize n s = Return s' \<and> good_slice s' \<and> gbs_data s' = take (nat n) (gbs_data s)"
proof -
  have "gbs_resize n s = gbs_reallocate n s"
    using assms by (simp add: gbs_resize_def gbs_shrink_def)
  then show ?thesis using reallocate_good [of s n] assms by auto
qed

text \<open>
  Shrinking in place stores the zeros from index 0 on: the kept prefix loses its first
  \<open>used - n\<close> bytes, and the bytes cut off stay in the array.
\<close>

lemma resize_shrink_in_place:
  assumes "wf_slice s" and "0 \<le> n" and "n < int (used s)" and "gbs_cap s div 3 \<le> used s"
  shows "gbs_resize n s = Return
    \<lparr>backing = replicate (used s - nat n) 0 @ drop (used s - nat n) (backing s), used = nat n\<rparr>"
proof -
  have "used s - nat n \<le> length (backing s)"
    using assms(1) by (simp add: wf_slice_def)
  then show ?thesis
    using assms by (simp add: gbs_resize_def gbs_shrink_def fold_update_prefix)
qed

text \<open>So growing back to the old length brings the bytes that were cut off back.\<close>

lemma resize_shrink_grow:
  assumes "wf_slice s" and "0 \<le> n" and "n < int (used s)" and "gbs_cap s div 3 \<le> used s"
  shows "\<exists>s'. go_bind (gbs_resize n s) (gbs_resize (int (used s))) = Return s' \<and>
    gbs_data s' = replicate (used s - nat n) 0 @ drop (used s - nat n) (gbs_data s)"
proof -
  let ?k = "used s - nat n"
  let ?s1 = "\<lparr>backing = replicate ?k 0 @ drop ?k (backing s), used = nat n\<rparr>"
  have u: "?k \<le> used s" "used s \<le> length (backing s)" using assms(1) by (simp_all add: wf_slice_def)
  have "gbs_resize (int (used s)) ?s1 = Return (?s1\<lparr>used := used s\<rparr>)"
    using assms(2,3) u by (simp add: gbs_resize_def gbs_cap_def)
  moreover have "gbs_data (?s1\<lparr>used := used s\<rparr>) = replicate ?k 0 @ drop ?k (gbs_data s)"
    using u by (simp add: gbs_data_def drop_take)
  ultimately show ?thesis using resize_shrink_in_place [OF assms] by simp
qed

lemma resize_to_zero:
  assumes "good_slice s"
  shows "\<exists>s'. gbs_resize 0 s = Return s' \<and> good_slice s' \<and> gbs_data s' = []"
proof -
  consider "used s = 0" | "0 < used s" "used s < gbs_cap s div 3"
    | "0 < used s" "gbs_cap s div 3 \<le> used s" by linarith
  then show ?thesis
  proof cases
    case 1
    then show ?thesis using assms by (auto simp: gbs_resize_def gbs_data_def)
  next
    case 2
    then show ?thesis
      using resize_shrink_realloc [of s 0] assms by (simp add: max_alloc_def)
  next
    case 3
    let ?s' = "\<lparr>backing = replicate (used s) 0 @ drop (used s) (backing s), used = 0\<rparr>"
    have "gbs_resize 0 s = Return ?s'"
      using resize_shrink_in_place [of s 0] 3 assms by simp
    moreover have "backing ?s' = [] @ replicate (gbs_cap s) 0"
      using assms
      by (simp add: good_slice_def slack_zero_def wf_slice_def gbs_cap_def flip: replicate_add)
    then have "good_slice ?s' \<and> gbs_data ?s' = []"
      by (rule good_sliceI) simp
    ultimately show ?thesis by blast
  qed
qed

subsection \<open>Reading and writing at an offset\<close>

text \<open>The offsets for which no size computation can overflow or exceed an allocation.\<close>

definition buffer_limit :: int where
  "buffer_limit = 2 ^ 47"

lemma gbs_read_at_spec:
  assumes "wf_slice s" and "0 \<le> off"
  shows "gbs_read_at s buf off =
    (let src = drop (nat off) (gbs_data s); n = min (length buf) (length src)
     in Return (int n,
          if int (length (gbs_data s)) \<le> off + int n then Some EOF else None,
          take n src @ drop n buf))"
  using assms by (auto simp: gbs_read_at_def Let_def min_def)

lemma gbs_slice_grow:
  assumes "wf_slice s" and "0 \<le> off" and "off \<le> end'" and "end' \<le> buffer_limit"
  shows "\<exists>s' t. gbs_slice off end' s = Return s' \<and> wf_slice s' \<and> gbs_data s' = gbs_data s @ t \<and>
    length t = nat end' - used s \<and> (slack_zero s \<longrightarrow> slack_zero s' \<and> t = replicate (nat end' - used s) 0)"
proof (cases "int (used s) < end'")
  case True
  have l: "2 * end' \<le> max_alloc" using assms(4) by (simp add: buffer_limit_def max_alloc_def)
  obtain s' where s': "gbs_resize end' s = Return s'" "wf_slice s'" "gbs_data s' = gbs_data s @ grown s end'"
    "slack_zero s \<longrightarrow> slack_zero s'"
    using resize_grow_exact [OF assms(1) _ l] True by auto
  moreover have "length (grown s end') = nat end' - used s"
    using True assms(1) by (simp add: length_grown)
  moreover have "slack_zero s \<longrightarrow> grown s end' = replicate (nat end' - used s) 0"
    using grown_zero [OF assms(1)] by blast
  ultimately show ?thesis using True assms(2,3) by (auto simp: gbs_slice_def)
next
  case False
  then show ?thesis using assms by (auto simp: gbs_slice_def)
qed

text \<open>A write is exact when it leaves no gap, or when the spare bytes are zero.\<close>

lemma gbs_write_at_spec:
  assumes "wf_slice s" and "0 \<le> off" and "off + int (length d) \<le> buffer_limit"
    and "slack_zero s \<or> off \<le> int (used s)"
  shows "\<exists>s'. gbs_write_at d off s = Return (int (length d), s') \<and> wf_slice s' \<and>
    (slack_zero s \<longrightarrow> slack_zero s') \<and> gbs_data s' = overwrite (gbs_data s) (nat off) d"
proof -
  define end' where "end' = off + int (length d)"
  define lo where "lo = nat off"
  have w: "wrap64 end' = end'"
    using assms by (simp add: end'_def buffer_limit_def)
  obtain g t where g: "gbs_slice off end' s = Return g" "wf_slice g" "gbs_data g = gbs_data s @ t"
    "length t = nat end' - used s" "slack_zero s \<longrightarrow> slack_zero g \<and> t = replicate (nat end' - used s) 0"
    using gbs_slice_grow [OF assms(1,2), of end'] assms(3) by (auto simp: end'_def)
  have ends: "nat end' = lo + length d" "nat (end' - off) = length d"
    using assms(2) by (auto simp: end'_def lo_def)
  define s' where "s' = g\<lparr>backing := take lo (backing g) @ d @ drop (lo + length d) (backing g)\<rparr>"
  have ret: "gbs_write_at d off s = Return (int (length d), s')"
    using g(1) w ends by (simp add: gbs_write_at_def Let_def s'_def flip: end'_def lo_def)
  have u: "used g = used s + (lo + length d - used s)"
    using length_gbs_data [OF g(2)] g(3,4) assms(1) ends(1) by simp
  then have fit: "lo + length d \<le> used g" "used g \<le> length (backing g)"
    using g(2) by (auto simp: wf_slice_def)
  have "length (backing s') = length (backing g)" using fit by (simp add: s'_def)
  then have "wf_slice s'" using g(2) by (simp add: wf_slice_def s'_def)
  moreover have "slack_zero s \<longrightarrow> slack_zero s'"
    using g(5) fit by (auto simp: slack_zero_def gbs_cap_def s'_def)
  moreover have "gbs_data s' = take lo (gbs_data g) @ d @ drop (lo + length d) (gbs_data g)"
  proof -
    have "used g = lo + (length d + (used g - (lo + length d)))" using fit(1) by simp
    then show ?thesis
      using fit take_add [of lo "length d + (used g - (lo + length d))" "backing g"]
      by (simp add: gbs_data_def s'_def drop_take min_absorb1 min_absorb2 add.commute)
  qed
  moreover have "\<dots> = overwrite (gbs_data s) lo d"
  proof (cases "lo \<le> used s")
    case True
    then show ?thesis using g(3,4) assms(1) ends(1) by (simp add: overwrite_def)
  next
    case False
    then have "t = replicate (nat end' - used s) 0" using assms(2,4) g(5) by (auto simp: lo_def)
    then show ?thesis using False g(3) assms(1) ends(1) by (simp add: overwrite_def)
  qed
  ultimately show ?thesis using ret by (simp add: lo_def)
qed

interpretation slice: byte_buffer gbs_data wf_slice slack_zero buffer_limit gbs_write_at gbs_read_at
proof
  fix s :: gbs and off :: int and d :: "byte list"
  assume "wf_slice s" "0 \<le> off" "off + int (length d) \<le> buffer_limit"
    and "slack_zero s \<or> off \<le> int (length (gbs_data s))"
  then show "\<exists>s'. gbs_write_at d off s = Return (int (length d), s') \<and> wf_slice s' \<and>
      (slack_zero s \<longrightarrow> slack_zero s') \<and> gbs_data s' = overwrite (gbs_data s) (nat off) d"
    using gbs_write_at_spec [of s off d] by simp
next
  fix s :: gbs and off :: int and buf :: "byte list"
  assume "wf_slice s" "0 \<le> off"
  then show "gbs_read_at s buf off =
      (let src = drop (nat off) (gbs_data s); n = min (length buf) (length src)
       in Return (int n,
            if int (length (gbs_data s)) \<le> off + int n then Some EOF else None,
            take n src @ drop n buf))"
    by (rule gbs_read_at_spec)
qed

text \<open>A negative offset inside the data, and a write that ends before it starts, panic.\<close>

lemma gbs_read_at_negative: "off < 0 \<Longrightarrow> gbs_read_at s buf off = Panic ''slice bounds out of range''"
  by (simp add: gbs_read_at_def)

lemma gbs_write_to_all:
  assumes "write (gbs_data s) d = ((int (length (gbs_data s)), None), d')" and "gbs_data s \<noteq> []"
  shows "gbs_write_to s write d = Return ((int (length (gbs_data s)), None), d')"
  using assms by (simp add: gbs_write_to_def)

lemma gbs_read_from_data [simp]:
  "gbs_data (snd (gbs_read_from data slack err s)) = data"
  "wf_slice (snd (gbs_read_from data slack err s))"
  by (simp_all add: gbs_read_from_def gbs_data_def wf_slice_def)

lemma gbs_read_from_good:
  "good_slice (snd (gbs_read_from data (replicate k 0) err s))"
  using good_sliceI [of "snd (gbs_read_from data (replicate k 0) err s)" data k]
  by (simp add: gbs_read_from_def)

end
