(* ===== verification/Dirty_Clock.thy ===== *)
theory Dirty_Clock
  imports Prelude
begin

text \<open>
  The clocks, the dirty flag and the atomic boolean of \<open>internal/util\<close>. A \<open>time.Time\<close> is
  the number of nanoseconds since Go's zero time, so \<open>IsZero\<close> is being 0; a
  \<open>time.Duration\<close> is a number of nanoseconds.
\<close>

subsection \<open>Clocks\<close>

text \<open>
  A clock is anything with a \<open>Now\<close>: the reading and the clock after it. The law is what
  \<open>DirtyTimestamp\<close> relies on: a reading is never the zero time (which means unset) and
  readings never go back.
\<close>

locale clock_source =
  fixes now :: "'c \<Rightarrow> int \<times> 'c"
    and valid :: "'c \<Rightarrow> bool"
  assumes now_valid: "valid c \<Longrightarrow> valid (snd (now c))"
    and now_nonzero: "valid c \<Longrightarrow> fst (now c) \<noteq> 0"
    and now_mono: "valid c \<Longrightarrow> fst (now c) \<le> fst (now (snd (now c)))"

text \<open>The system clock: its successive readings, and how many have been taken.\<close>

record clock =
  readings :: "nat \<Rightarrow> int"
  ticks :: nat

definition clock_now :: "clock \<Rightarrow> int \<times> clock" where
  "clock_now c = (readings c (ticks c), c\<lparr>ticks := Suc (ticks c)\<rparr>)"

definition good_clock :: "clock \<Rightarrow> bool" where
  "good_clock c \<longleftrightarrow> mono (readings c) \<and> (\<forall>n. readings c n \<noteq> 0)"

text \<open>\<open>MockClock\<close>: its time; every reading advances it by one nanosecond.\<close>

definition unix_epoch :: int where
  "unix_epoch = 62135596800 * 10 ^ 9"

definition mock_reset :: int where
  "mock_reset = unix_epoch + 1 * 10 ^ 9"

definition mock_advance :: "int \<Rightarrow> int \<Rightarrow> int" where
  "mock_advance d c = c + d"

definition mock_now :: "int \<Rightarrow> int \<times> int" where
  "mock_now c = (c, mock_advance 1 c)"

definition good_mock :: "int \<Rightarrow> bool" where
  "good_mock c \<longleftrightarrow> 0 < c"

interpretation system_clock: clock_source clock_now good_clock
  by unfold_locales (auto simp: clock_now_def good_clock_def intro: monoD)

interpretation mock_clock: clock_source mock_now good_mock
  by unfold_locales (auto simp: mock_now_def mock_advance_def good_mock_def)

lemma good_mock_reset: "good_mock mock_reset"
  by (simp add: good_mock_def mock_reset_def unix_epoch_def)

subsection \<open>DirtyTimestamp\<close>

text \<open>The flag is its time stamp; the clock it holds is passed along.\<close>

definition dirty_new :: int where
  "dirty_new = 0"

definition dirty_is_set :: "int \<Rightarrow> bool" where
  "dirty_is_set t \<longleftrightarrow> t \<noteq> 0"

definition dirty_set :: "('c \<Rightarrow> int \<times> 'c) \<Rightarrow> int \<Rightarrow> 'c \<Rightarrow> int \<times> 'c" where
  "dirty_set now t c = (if t = 0 then now c else (t, c))"

definition dirty_clear :: "int \<Rightarrow> int" where
  "dirty_clear t = 0"

definition dirty_for :: "('c \<Rightarrow> int \<times> 'c) \<Rightarrow> int \<Rightarrow> int \<Rightarrow> 'c \<Rightarrow> bool \<times> 'c" where
  "dirty_for now d t c =
     (if dirty_is_set t then (case now c of (n, c') \<Rightarrow> (t + d < n, c')) else (False, c))"

lemma dirty_clear_unset [simp]: "\<not> dirty_is_set (dirty_clear t)" "\<not> dirty_is_set dirty_new"
  by (simp_all add: dirty_clear_def dirty_is_set_def dirty_new_def)

lemma dirty_for_unset: "\<not> dirty_is_set t \<Longrightarrow> dirty_for now d t c = (False, c)"
  by (simp add: dirty_for_def)

context clock_source begin

lemma set_is_set: "valid c \<Longrightarrow> dirty_is_set (fst (dirty_set now t c))"
  using now_nonzero by (simp add: dirty_set_def dirty_is_set_def)

lemma set_valid: "valid c \<Longrightarrow> valid (snd (dirty_set now t c))"
  using now_valid by (simp add: dirty_set_def)

text \<open>Setting a set flag keeps the time it was first set, and reads no clock.\<close>

lemma set_again:
  "valid c \<Longrightarrow> dirty_set now t c = (t', c') \<Longrightarrow> dirty_set now t' c'' = (t', c'')"
  using set_is_set [of c t] by (simp add: dirty_set_def dirty_is_set_def)

text \<open>A flag that has just been set has not been dirty for a longer time than has passed.\<close>

lemma for_iff:
  "valid c \<Longrightarrow> dirty_set now 0 c = (t, c') \<Longrightarrow>
   fst (dirty_for now d t c') \<longleftrightarrow> fst (now c) + d < fst (now c')"
  using now_nonzero [of c] by (auto simp: dirty_set_def dirty_for_def dirty_is_set_def split: prod.splits)

text \<open>Once dirty for longer than \<open>d\<close>, the flag stays so at every later reading.\<close>

lemma for_stays:
  assumes "valid c" and "dirty_for now d t c = (True, c')"
  shows "fst (dirty_for now d t c')"
proof -
  have "dirty_is_set t" "t + d < fst (now c)" "c' = snd (now c)"
    using assms(2) by (auto simp: dirty_for_def split: if_splits prod.splits)
  moreover have "fst (now c) \<le> fst (now (snd (now c)))"
    using assms(1) by (rule now_mono)
  ultimately show ?thesis by (simp add: dirty_for_def split_beta)
qed

end

subsection \<open>AtomicBool\<close>

definition atomic_value :: "int \<Rightarrow> bool" where
  "atomic_value b \<longleftrightarrow> b \<noteq> 0"

definition bool_int :: "bool \<Rightarrow> int" where
  "bool_int v = (if v then 1 else 0)"

definition atomic_cas :: "bool \<Rightarrow> bool \<Rightarrow> int \<Rightarrow> bool \<times> int" where
  "atomic_cas oldVal newVal b =
     (if b = bool_int oldVal then (True, bool_int newVal) else (False, b))"

lemma atomic_cas_true_once:
  "atomic_cas False True b = (True, b') \<Longrightarrow> \<not> fst (atomic_cas False True b')"
  by (auto simp: atomic_cas_def bool_int_def split: if_splits)

end
