(* ===== verification/Open_Flags.thy ===== *)
theory Open_Flags
  imports Prelude
begin

text \<open>
  \<open>FileOpenFlags\<close> of \<open>file_open_flags.go\<close>: a 32-bit set of flags. The values are those of
  Go's \<open>os\<close> package on Linux.
\<close>

type_synonym flags = "32 word"

definition O_RDONLY :: flags where "O_RDONLY = 0"
definition O_WRONLY :: flags where "O_WRONLY = 1"
definition O_RDWR :: flags where "O_RDWR = 2"
definition O_APPEND :: flags where "O_APPEND = 0x400"
definition O_CREATE :: flags where "O_CREATE = 0x40"
definition O_EXCL :: flags where "O_EXCL = 0x80"
definition O_SYNC :: flags where "O_SYNC = 0x101000"
definition O_TRUNC :: flags where "O_TRUNC = 0x200"

lemmas flag_defs = O_RDONLY_def O_WRONLY_def O_RDWR_def O_APPEND_def O_CREATE_def O_EXCL_def
  O_SYNC_def O_TRUNC_def

definition Contains :: "flags \<Rightarrow> flags \<Rightarrow> bool" where
  "Contains f bits \<longleftrightarrow> f AND bits \<noteq> 0"

definition CanRead :: "flags \<Rightarrow> bool" where
  "CanRead f \<longleftrightarrow> \<not> Contains f O_WRONLY"

definition CanWrite :: "flags \<Rightarrow> bool" where
  "CanWrite f \<longleftrightarrow> Contains f (O_WRONLY OR O_RDWR)"

lemma Contains_OR [simp]: "Contains f (a OR b) \<longleftrightarrow> Contains f a \<or> Contains f b"
proof -
  have "f AND (a OR b) = (f AND a) OR (f AND b)" by (rule bit.conj_disj_distrib)
  then show ?thesis by (auto simp: Contains_def or_eq_0_iff)
qed

lemma Contains_OR_left: "Contains (f OR g) a \<longleftrightarrow> Contains f a \<or> Contains g a"
  using Contains_OR [of a f g] by (simp add: Contains_def and.commute)

lemma CanWrite_iff: "CanWrite f \<longleftrightarrow> Contains f O_WRONLY \<or> Contains f O_RDWR"
  by (simp add: CanWrite_def)

text \<open>Every open can read or write; a plain \<open>O_RDONLY\<close> open cannot write.\<close>

lemma CanRead_or_CanWrite: "CanRead f \<or> CanWrite f"
  by (simp add: CanRead_def CanWrite_iff)

lemma not_CanWrite_CanRead: "\<not> CanWrite f \<Longrightarrow> CanRead f"
  using CanRead_or_CanWrite by blast

lemma access_modes [simp]:
  "CanRead O_RDONLY" "\<not> CanWrite O_RDONLY"
  "\<not> CanRead O_WRONLY" "CanWrite O_WRONLY"
  "CanRead O_RDWR" "CanWrite O_RDWR"
  by (simp_all add: CanRead_def CanWrite_def Contains_def flag_defs)

end
