(* ===== verification/File_Buffer.thy ===== *)
theory File_Buffer
  imports Device_Client Growable_Slice Dirty_Clock Open_Flags Go_Strconv
begin

text \<open>
  \<open>FileBuffer\<close> of \<open>file_buffer.go\<close>: the whole content of one file in memory, loaded from the
  device and saved to it. The world is the device state and the system clock. Every method
  that takes the buffer's mutex holds it until it returns, so each is one step of the model;
  the reference count is changed by atomic instructions. \<open>logEntry\<close> is passed where the code
  can record something in it.
\<close>

record 'd world =
  w_dev :: 'd
  w_clock :: clock

record ('d, 'x) file_buffer =
  fb_Path :: string
  fb_Client :: "('d, 'x) device_client"
  fb_DirtyTimeout :: int
  fb_Perms :: mode
  fb_has_handler :: bool
  fb_refCount :: int
  fb_buffer :: gbs
  fb_dirty :: int

definition DontSetPerms :: mode where
  "DontSetPerms = 0"

text \<open>\<open>os.FileMode(0664)\<close>.\<close>

definition DefaultFilePermissions :: mode where
  "DefaultFilePermissions = 0x1B4"

subsection \<open>Loading and saving\<close>

definition loadFromDevice ::
  "'x goadb \<Rightarrow> ('d, 'x) file_buffer \<Rightarrow> 'd world \<Rightarrow>
   ('x err option \<times> ('d, 'x) file_buffer \<times> 'd world) go" where
  "loadFromDevice u f w =
     (case OpenRead (fb_Client f) (fb_Path f) (w_dev w) of
        (Inl err, d) \<Rightarrow>
          go_bind (WrapErrf u err ''error opening file stream on device'') (\<lambda>e.
            Return (Some e, f, w\<lparr>w_dev := d\<rparr>))
      | (Inr stream, d) \<Rightarrow>
          (case gbs_read_from (st_data stream) (st_slack stream) (st_err stream) (fb_buffer f) of
             ((n, err), buf) \<Rightarrow>
               let f' = f\<lparr>fb_buffer := buf\<rparr>; w' = w\<lparr>w_dev := d\<rparr> in
               (case err of
                  Some e \<Rightarrow>
                    go_bind (WrapErrf u e
                      (''error reading data from file (after reading '' @ itoa n @ '' bytes)''))
                      (\<lambda>e'. Return (Some e', f', w'))
                | None \<Rightarrow> Return (None, f', w'))))"

text \<open>
  \<open>saveToDevice\<close>. The deferred second \<open>writer.Close()\<close> runs on every path after the open, also
  after the explicit one.
\<close>

definition saveToDevice ::
  "'x goadb \<Rightarrow> ('d, 'x) file_buffer \<Rightarrow> 'd world \<Rightarrow>
   ('x err option \<times> ('d, 'x) file_buffer \<times> 'd world) go" where
  "saveToDevice u f w =
     (case OpenWrite (fb_Client f) (fb_Path f) (fb_Perms f) MtimeOfClose (w_dev w) of
        (Inl err, d) \<Rightarrow>
          go_bind (WrapErrf u err ''error opening file stream on device'') (\<lambda>e.
            Return (Some e, f, w\<lparr>w_dev := d\<rparr>))
      | (Inr writer, d) \<Rightarrow>
          go_bind (gbs_write_to (fb_buffer f) (w_Write writer) d) (\<lambda>((n, err), d1).
            case err of
              Some e \<Rightarrow>
                go_bind (WrapErrf u e
                  (''writing data to file: len(buffer)='' @ itoa (gbs_len (fb_buffer f)) @
                   '', n='' @ itoa n)) (\<lambda>e'.
                  Return (Some e', f, w\<lparr>w_dev := snd (w_Close writer d1)\<rparr>))
            | None \<Rightarrow>
                (case w_Close writer d1 of
                   (Some e, d2) \<Rightarrow>
                     go_bind (WrapErrf u e ''closing file stream'') (\<lambda>e'.
                       Return (Some e', f, w\<lparr>w_dev := snd (w_Close writer d2)\<rparr>))
                 | (None, d2) \<Rightarrow>
                     Return (None, f\<lparr>fb_dirty := dirty_clear (fb_dirty f)\<rparr>,
                       w\<lparr>w_dev := snd (w_Close writer d2)\<rparr>))))"

subsection \<open>The methods\<close>

definition fb_IsDirty :: "('d, 'x) file_buffer \<Rightarrow> bool" where
  "fb_IsDirty f = dirty_is_set (fb_dirty f)"

definition fb_Sync where
  "fb_Sync u f w =
     (if dirty_is_set (fb_dirty f) then saveToDevice u f w else loadFromDevice u f w)"

definition fb_Flush where
  "fb_Flush u f w =
     (if dirty_is_set (fb_dirty f) then saveToDevice u f w else Return (None, f, w))"

definition fb_SyncIfTooDirty where
  "fb_SyncIfTooDirty u f w =
     (case dirty_for clock_now (fb_DirtyTimeout f) (fb_dirty f) (w_clock w) of
        (tooDirty, c) \<Rightarrow>
          if tooDirty then saveToDevice u f (w\<lparr>w_clock := c\<rparr>)
          else Return (None, f, w\<lparr>w_clock := c\<rparr>))"

text \<open>\<open>f.dirty.Set()\<close>, which reads the clock when the flag is not set.\<close>

definition fb_set_dirty ::
  "('d, 'x) file_buffer \<Rightarrow> 'd world \<Rightarrow> ('d, 'x) file_buffer \<times> 'd world" where
  "fb_set_dirty f w =
     (case dirty_set clock_now (fb_dirty f) (w_clock w) of
        (t, c) \<Rightarrow> (f\<lparr>fb_dirty := t\<rparr>, w\<lparr>w_clock := c\<rparr>))"

definition fb_ReadAt ::
  "('d, 'x) file_buffer \<Rightarrow> byte list \<Rightarrow> int \<Rightarrow> (int \<times> 'x err option \<times> byte list) go" where
  "fb_ReadAt f buf off = gbs_read_at (fb_buffer f) buf off"

definition fb_WriteAt ::
  "byte list \<Rightarrow> int \<Rightarrow> ('d, 'x) file_buffer \<Rightarrow> 'd world \<Rightarrow>
   (int \<times> ('d, 'x) file_buffer \<times> 'd world) go" where
  "fb_WriteAt data off f w =
     (case fb_set_dirty f w of (f', w') \<Rightarrow>
        go_bind (gbs_write_at data off (fb_buffer f')) (\<lambda>(n, buf).
          Return (n, f'\<lparr>fb_buffer := buf\<rparr>, w')))"

definition fb_SetSize ::
  "int \<Rightarrow> ('d, 'x) file_buffer \<Rightarrow> 'd world \<Rightarrow> (('d, 'x) file_buffer \<times> 'd world) go" where
  "fb_SetSize newSize f w =
     (case fb_set_dirty f w of (f', w') \<Rightarrow>
        go_bind (gbs_resize newSize (fb_buffer f')) (\<lambda>buf. Return (f'\<lparr>fb_buffer := buf\<rparr>, w')))"

definition fb_Size :: "('d, 'x) file_buffer \<Rightarrow> int" where
  "fb_Size f = gbs_len (fb_buffer f)"

definition fb_Contents :: "('d, 'x) file_buffer \<Rightarrow> byte list" where
  "fb_Contents f = gbs_data (fb_buffer f)"

definition fb_IncRefCount :: "('d, 'x) file_buffer \<Rightarrow> int \<times> ('d, 'x) file_buffer" where
  "fb_IncRefCount f = (let n = wrap32 (fb_refCount f + 1) in (n, f\<lparr>fb_refCount := n\<rparr>))"

text \<open>
  \<open>DecRefCount\<close> up to the call of the handler: the new count and whether
  \<open>ZeroRefCountHandler\<close> is called next.
\<close>

definition fb_DecRefCount :: "('d, 'x) file_buffer \<Rightarrow> (int \<times> bool \<times> ('d, 'x) file_buffer) go" where
  "fb_DecRefCount f =
     (let newCount = wrap32 (fb_refCount f - 1) in
      if newCount < 0 then Panic ''refcount decremented past 0''
      else Return (newCount, newCount = 0 \<and> fb_has_handler f, f\<lparr>fb_refCount := newCount\<rparr>))"

definition fb_RefCount :: "('d, 'x) file_buffer \<Rightarrow> int" where
  "fb_RefCount f = fb_refCount f"

subsection \<open>Creation\<close>

definition getFilePermissions where
  "getFilePermissions u f log w =
     (case Stat (fb_Client f) (fb_Path f) log (w_dev w) of
        (Inl err, log', d) \<Rightarrow>
          go_bind (WrapErrf u err ''error reading file permissions'') (\<lambda>e.
            Return (Inl e, log', w\<lparr>w_dev := d\<rparr>))
      | (Inr entry, log', d) \<Rightarrow> Return (Inr (Perm (de_mode entry)), log', w\<lparr>w_dev := d\<rparr>))"

text \<open>The part of \<open>initialize\<close> after the permissions are known; the error of \<open>Sync\<close> is dropped.\<close>

definition initialize_with ::
  "'x goadb \<Rightarrow> flags \<Rightarrow> bool \<Rightarrow> mode \<Rightarrow> ('d, 'x) file_buffer \<Rightarrow> 'x log_entry \<Rightarrow> 'd world \<Rightarrow>
   ('x err option \<times> ('d, 'x) file_buffer \<times> 'x log_entry \<times> 'd world) go" where
  "initialize_with u flags createNewFile currentPerms f log w =
     (let f1 = (if fb_Perms f = DontSetPerms then f\<lparr>fb_Perms := currentPerms\<rparr> else f);
          (f2, w2) = (if createNewFile \<or> Contains flags O_TRUNC then fb_set_dirty f1 w else (f1, w))
      in go_bind (fb_Sync u f2 w2) (\<lambda>(_, f3, w3). Return (None, f3, log, w3)))"

definition fb_initialize where
  "fb_initialize u flags f log w =
     (if Contains flags (O_CREATE OR O_TRUNC OR O_APPEND) \<and> \<not> CanWrite flags
      then Return (Some ErrNotPermitted, f, log, w)
      else
        go_bind (getFilePermissions u f log w) (\<lambda>(res, log', w').
          case res of
            Inl err \<Rightarrow>
              if HasErrCode u err FileNoExistError then
                if \<not> Contains flags O_CREATE then Return (Some err, f, log', w')
                else initialize_with u flags True DefaultFilePermissions f log' w'
              else Return (Some err, f, log', w')
          | Inr perms \<Rightarrow> initialize_with u flags False perms f log' w'))"

text \<open>The fields of \<open>FileBufferOptions\<close> are arguments; the rest starts as Go's zero values.\<close>

definition NewFileBuffer where
  "NewFileBuffer u initialFlags path client dirtyTimeout perms handler log w =
     (let file = \<lparr>fb_Path = path, fb_Client = client, fb_DirtyTimeout = dirtyTimeout,
          fb_Perms = perms, fb_has_handler = handler, fb_refCount = 0,
          fb_buffer = empty_slice, fb_dirty = dirty_new\<rparr>
      in go_bind (fb_initialize u initialFlags file log w) (\<lambda>(err, f, log', w').
           case err of
             Some e \<Rightarrow> Return (Inl e, log', w')
           | None \<Rightarrow> Return (Inr f, log', w')))"

subsection \<open>Saving and loading, whatever the device does\<close>

text \<open>A save either succeeds and clears the flag or leaves the buffer as it was.\<close>

lemma saveToDevice_buffer:
  assumes "saveToDevice u f w = Return (err, f', w')"
  shows "f' = (if err = None then f\<lparr>fb_dirty := dirty_new\<rparr> else f)" and "w_clock w' = w_clock w"
  using assms
  by (auto simp: saveToDevice_def dirty_clear_def dirty_new_def
      split: sum.splits prod.splits option.splits elim!: go_bind_ReturnE)

text \<open>A load changes the buffer's bytes at most.\<close>

lemma loadFromDevice_frame:
  assumes "loadFromDevice u f w = Return (err, f', w')"
  shows "f' = f\<lparr>fb_buffer := fb_buffer f'\<rparr>" and "w_clock w' = w_clock w"
  using assms
  by (auto simp: loadFromDevice_def Let_def
      split: sum.splits prod.splits option.splits elim!: go_bind_ReturnE)

lemma loadFromDevice_open_error:
  assumes "OpenRead (fb_Client f) (fb_Path f) (w_dev w) = (Inl e, d)"
    and "loadFromDevice u f w = Return (err, f', w')"
  shows "f' = f \<and> err \<noteq> None"
  using assms by (auto simp: loadFromDevice_def elim!: go_bind_ReturnE)

lemma fb_Sync_dirty_eq_Flush: "fb_IsDirty f \<Longrightarrow> fb_Sync u f w = fb_Flush u f w"
  by (simp add: fb_Sync_def fb_Flush_def fb_IsDirty_def)

lemma fb_Flush_clean: "\<not> fb_IsDirty f \<Longrightarrow> fb_Flush u f w = Return (None, f, w)"
  by (simp add: fb_Flush_def fb_IsDirty_def)

lemma fb_Flush_buffer:
  assumes "fb_Flush u f w = Return (err, f', w')"
  shows "fb_buffer f' = fb_buffer f" and "err = None \<longleftrightarrow> \<not> fb_IsDirty f'"
proof -
  show "fb_buffer f' = fb_buffer f"
    using assms saveToDevice_buffer(1) [of u f w err f' w']
    by (auto simp: fb_Flush_def split: if_splits)
  show "err = None \<longleftrightarrow> \<not> fb_IsDirty f'"
    using assms saveToDevice_buffer(1) [of u f w err f' w']
    by (auto simp: fb_Flush_def fb_IsDirty_def split: if_splits)
qed

text \<open>The fields that no method but the counting ones changes.\<close>

definition same_file :: "('d, 'x) file_buffer \<Rightarrow> ('d, 'x) file_buffer \<Rightarrow> bool" where
  "same_file f f' \<longleftrightarrow>
     f' = f\<lparr>fb_buffer := fb_buffer f', fb_dirty := fb_dirty f', fb_Perms := fb_Perms f'\<rparr>"

lemma same_file_refl [simp]: "same_file f f"
  by (simp add: same_file_def)

lemma same_file_update [simp]:
  "same_file f (f\<lparr>fb_buffer := b\<rparr>)" "same_file f (f\<lparr>fb_dirty := t\<rparr>)" "same_file f (f\<lparr>fb_Perms := p\<rparr>)"
  by (simp_all add: same_file_def)

lemma same_file_fields:
  assumes "same_file f f'"
  shows "fb_Path f' = fb_Path f" and "fb_refCount f' = fb_refCount f"
    and "fb_Client f' = fb_Client f" and "fb_has_handler f' = fb_has_handler f"
    and "fb_DirtyTimeout f' = fb_DirtyTimeout f"
  using assms by (simp_all add: same_file_def file_buffer.defs)
    (metis file_buffer.select_convs file_buffer.surjective file_buffer.update_convs)+

subsection \<open>Over a device that stores files\<close>

text \<open>What a save and a load do when the device keeps its laws.\<close>

context file_device begin

lemma write_to_writer:
  assumes "receiving wr p [] d" and "wf_slice s"
  shows "\<exists>d'. gbs_write_to s (w_Write wr) d = Return ((int (used s), None), d') \<and>
    receiving wr p (gbs_data s) d' \<and> (\<forall>q. q \<noteq> p \<longrightarrow> files d' q = files d q) \<and> writable d' = writable d"
proof (cases "gbs_data s = []")
  case True
  then have "used s = 0" using assms(2) length_gbs_data [of s] by simp
  then show ?thesis using assms(1) True by (simp add: gbs_write_to_def)
next
  case False
  then show ?thesis
    using write_law [OF assms(1), of "gbs_data s"] assms(2) by (auto simp: gbs_write_to_def Let_def)
qed

lemma saveToDevice_store:
  assumes "fb_Client f = c" and "valid (w_dev w)" and "writable (w_dev w) (fb_Path f)"
    and "wf_slice (fb_buffer f)"
  shows "\<exists>d'. saveToDevice u f w = Return (None, f\<lparr>fb_dirty := dirty_new\<rparr>, w\<lparr>w_dev := d'\<rparr>) \<and> valid d' \<and>
    files d' = (files (w_dev w))(fb_Path f \<mapsto> fb_Contents f) \<and> writable d' = writable (w_dev w)"
proof -
  obtain wr d1 where o: "OpenWrite c (fb_Path f) (fb_Perms f) MtimeOfClose (w_dev w) = (Inr wr, d1)"
    "receiving wr (fb_Path f) [] d1"
    "\<forall>q. q \<noteq> fb_Path f \<longrightarrow> files d1 q = files (w_dev w) q" "writable d1 = writable (w_dev w)"
    using open_write_law [OF assms(2,3)] by blast
  obtain d2 where wt: "gbs_write_to (fb_buffer f) (w_Write wr) d1 = Return ((int (used (fb_buffer f)), None), d2)"
    "receiving wr (fb_Path f) (fb_Contents f) d2"
    "\<forall>q. q \<noteq> fb_Path f \<longrightarrow> files d2 q = files d1 q" "writable d2 = writable d1"
    using write_to_writer [OF o(2) assms(4)] by (auto simp: fb_Contents_def)
  obtain d3 where cl: "w_Close wr d2 = (None, d3)" "closed wr d3" "valid d3"
    "files d3 = (files d2)(fb_Path f \<mapsto> fb_Contents f)" "writable d3 = writable d2"
    using close_law [OF wt(2)] by blast
  obtain e d4 where ag: "w_Close wr d3 = (e, d4)" "valid d4" "files d4 = files d3" "writable d4 = writable d3"
    using close_again_law [OF cl(2,3)] by blast
  have "files d4 = (files (w_dev w))(fb_Path f \<mapsto> fb_Contents f)"
    using ag cl wt o by (auto simp: fun_eq_iff)
  moreover have "saveToDevice u f w = Return (None, f\<lparr>fb_dirty := dirty_new\<rparr>, w\<lparr>w_dev := d4\<rparr>)"
    using assms(1) o(1) wt(1) cl(1) ag(1)
    by (simp add: saveToDevice_def dirty_clear_def dirty_new_def)
  ultimately show ?thesis using ag cl wt o by auto
qed

lemma loadFromDevice_fetch:
  assumes "fb_Client f = c" and "valid (w_dev w)" and "files (w_dev w) (fb_Path f) = Some b"
  shows "\<exists>buf d'. loadFromDevice u f w = Return (None, f\<lparr>fb_buffer := buf\<rparr>, w\<lparr>w_dev := d'\<rparr>) \<and>
    good_slice buf \<and> gbs_data buf = b \<and> valid d' \<and> files d' = files (w_dev w) \<and>
    writable d' = writable (w_dev w)"
proof -
  obtain k d' where o: "OpenRead c (fb_Path f) (w_dev w) =
      (Inr \<lparr>st_data = b, st_slack = replicate k 0, st_err = None\<rparr>, d')"
    "valid d'" "files d' = files (w_dev w)" "writable d' = writable (w_dev w)"
    using open_read_law [OF assms(2,3)] by blast
  let ?buf = "\<lparr>backing = b @ replicate k 0, used = length b\<rparr>"
  have "good_slice ?buf \<and> gbs_data ?buf = b" by (rule good_sliceI) simp_all
  with o show ?thesis
    by (intro exI [of _ ?buf] exI [of _ d'])
      (simp add: loadFromDevice_def gbs_read_from_def assms(1) Let_def)
qed

text \<open>The abstract state after a flush and after a sync.\<close>

lemma fb_Flush_store:
  assumes "fb_Client f = c" and "valid (w_dev w)" and "writable (w_dev w) (fb_Path f)"
    and "wf_slice (fb_buffer f)" and "fb_IsDirty f"
  shows "\<exists>d'. fb_Flush u f w = Return (None, f\<lparr>fb_dirty := dirty_new\<rparr>, w\<lparr>w_dev := d'\<rparr>) \<and> valid d' \<and>
    files d' = (files (w_dev w))(fb_Path f \<mapsto> fb_Contents f) \<and> writable d' = writable (w_dev w)"
  using saveToDevice_store [OF assms(1-4)] assms(5) by (simp add: fb_Flush_def fb_IsDirty_def)

text \<open>After a sync that finds a file, buffer and file agree and the buffer is clean.\<close>

lemma fb_Sync_agree:
  assumes "fb_Client f = c" and "valid (w_dev w)" and "wf_slice (fb_buffer f)"
    and "if fb_IsDirty f then writable (w_dev w) (fb_Path f) else files (w_dev w) (fb_Path f) \<noteq> None"
  shows "\<exists>f' w'. fb_Sync u f w = Return (None, f', w') \<and> same_file f f' \<and> \<not> fb_IsDirty f' \<and>
    valid (w_dev w') \<and> files (w_dev w') (fb_Path f) = Some (fb_Contents f') \<and>
    (fb_IsDirty f \<longrightarrow> fb_buffer f' = fb_buffer f) \<and>
    (\<not> fb_IsDirty f \<longrightarrow> files (w_dev w') = files (w_dev w))"
proof (cases "fb_IsDirty f")
  case True
  then obtain d' where "fb_Sync u f w = Return (None, f\<lparr>fb_dirty := dirty_new\<rparr>, w\<lparr>w_dev := d'\<rparr>)"
    "valid d'" "files d' = (files (w_dev w))(fb_Path f \<mapsto> fb_Contents f)"
    using fb_Flush_store [OF assms(1,2) _ assms(3)] assms(4) fb_Sync_dirty_eq_Flush [of f u w] by auto
  then show ?thesis using True by (auto simp: fb_IsDirty_def fb_Contents_def)
next
  case False
  then obtain b where "files (w_dev w) (fb_Path f) = Some b" using assms(4) by auto
  with loadFromDevice_fetch [OF assms(1,2) this, of u] False show ?thesis
    by (auto simp: fb_Sync_def fb_IsDirty_def fb_Contents_def)
qed

end

text \<open>A save that creates the file gives it the buffer's permissions.\<close>

context perm_device begin

lemma write_to_perms:
  assumes "opened_as wr p m d" and "gbs_write_to s (w_Write wr) d = Return (r, d')"
  shows "opened_as wr p m d'"
  using assms write_perms
  by (auto simp: gbs_write_to_def Let_def split: if_splits prod.splits)

lemma saveToDevice_perms:
  assumes "fb_Client f = c" and "valid (w_dev w)" and "writable (w_dev w) (fb_Path f)"
    and "wf_slice (fb_buffer f)" and "saveToDevice u f w = Return (err, f', w')"
    and "files (w_dev w) (fb_Path f) = None"
  shows "file_perms (w_dev w') (fb_Path f) = Some (fb_Perms f)"
proof -
  obtain wr d1 where o: "OpenWrite c (fb_Path f) (fb_Perms f) MtimeOfClose (w_dev w) = (Inr wr, d1)"
    "receiving wr (fb_Path f) [] d1"
    using open_write_law [OF assms(2,3)] by blast
  obtain d2 where wt: "gbs_write_to (fb_buffer f) (w_Write wr) d1 = Return ((int (used (fb_buffer f)), None), d2)"
    "receiving wr (fb_Path f) (gbs_data (fb_buffer f)) d2"
    using write_to_writer [OF o(2) assms(4)] by blast
  obtain d3 where cl: "w_Close wr d2 = (None, d3)" "closed wr d3"
    using close_law [OF wt(2)] by blast
  obtain e d4 where ag: "w_Close wr d3 = (e, d4)" by fastforce
  have "opened_as wr (fb_Path f) (fb_Perms f) d2"
    using write_to_perms [OF open_perms [OF assms(6) o(1)] wt(1)] .
  then have "file_perms d3 (fb_Path f) = Some (fb_Perms f)" using cl(1) by (rule close_perms)
  then have "file_perms d4 (fb_Path f) = Some (fb_Perms f)" using close_again_perms [OF cl(2) ag] by simp
  moreover have "w_dev w' = d4" using assms(1,5) o(1) wt(1) cl(1) ag by (auto simp: saveToDevice_def)
  ultimately show ?thesis by simp
qed

end

end
