(* ===== verification/File_Buffer_Open.thy ===== *)
theory File_Buffer_Open
  imports File_Buffer
begin

text \<open>
  What the methods of \<open>FileBuffer\<close> that change the bytes do to the abstract contents, and what
  \<open>NewFileBuffer\<close> returns and leaves on the device, case by case.
\<close>

subsection \<open>Setting the dirty flag\<close>

lemma fb_set_dirty_simps:
  "fb_set_dirty f w = (f', w') \<Longrightarrow>
   f' = f\<lparr>fb_dirty := fb_dirty f'\<rparr> \<and> w' = w\<lparr>w_clock := w_clock w'\<rparr>"
  by (auto simp: fb_set_dirty_def split: prod.splits)

lemma fb_set_dirty_dirty:
  assumes "good_clock (w_clock w)" and "fb_set_dirty f w = (f', w')"
  shows "fb_IsDirty f'" and "good_clock (w_clock w')" and "fb_buffer f' = fb_buffer f"
    and "w_dev w' = w_dev w" and "same_file f f'" and "fb_Perms f' = fb_Perms f"
  using assms system_clock.set_is_set [of "w_clock w" "fb_dirty f"]
    system_clock.set_valid [of "w_clock w" "fb_dirty f"]
  by (auto simp: fb_set_dirty_def fb_IsDirty_def split: prod.splits)

subsection \<open>Writing, truncating and reading\<close>

text \<open>A write past the end needs the buffer's spare bytes to be zero, any other write does not.\<close>

definition write_ready :: "('d, 'x) file_buffer \<Rightarrow> int \<Rightarrow> bool" where
  "write_ready f off \<longleftrightarrow> wf_slice (fb_buffer f) \<and> (slack_zero (fb_buffer f) \<or> off \<le> fb_Size f)"

lemma write_ready_good: "good_slice (fb_buffer f) \<Longrightarrow> write_ready f off"
  by (simp add: write_ready_def good_slice_def)

lemma fb_WriteAt_contents:
  assumes "write_ready f off" and "good_clock (w_clock w)"
    and "0 \<le> off" and "off + int (length data) \<le> buffer_limit"
  shows "\<exists>f' w'. fb_WriteAt data off f w = Return (int (length data), f', w') \<and>
    fb_Contents f' = overwrite (fb_Contents f) (nat off) data \<and> wf_slice (fb_buffer f') \<and>
    (good_slice (fb_buffer f) \<longrightarrow> good_slice (fb_buffer f')) \<and>
    fb_IsDirty f' \<and> same_file f f' \<and> w_dev w' = w_dev w \<and> good_clock (w_clock w')"
proof -
  obtain f1 w1 where s: "fb_set_dirty f w = (f1, w1)" by fastforce
  note d = fb_set_dirty_dirty [OF assms(2) s]
  have r: "wf_slice (fb_buffer f)" "slack_zero (fb_buffer f) \<or> off \<le> int (used (fb_buffer f))"
    using assms(1) by (simp_all add: write_ready_def fb_Size_def gbs_len_def)
  obtain b where b: "gbs_write_at data off (fb_buffer f) = Return (int (length data), b)" "wf_slice b"
    "slack_zero (fb_buffer f) \<longrightarrow> slack_zero b" "gbs_data b = overwrite (gbs_data (fb_buffer f)) (nat off) data"
    using gbs_write_at_spec [OF r(1) assms(3,4) r(2)] by blast
  have "same_file f (f1\<lparr>fb_buffer := b\<rparr>)"
    using d(5) by (cases f; cases f1) (simp add: same_file_def)
  then show ?thesis
    using s b d by (auto simp: fb_WriteAt_def fb_Contents_def fb_IsDirty_def good_slice_def)
qed

text \<open>\<open>SetSize\<close> beyond the length pads with zeros, to 0 empties the buffer.\<close>

lemma fb_SetSize_contents:
  assumes "good_slice (fb_buffer f)" and "good_clock (w_clock w)"
    and "n = 0 \<or> fb_Size f \<le> n \<and> n \<le> buffer_limit"
  shows "\<exists>f' w'. fb_SetSize n f w = Return (f', w') \<and>
    fb_Contents f' = take (nat n) (fb_Contents f) @ replicate (nat n - length (fb_Contents f)) 0 \<and>
    good_slice (fb_buffer f') \<and> fb_IsDirty f' \<and> same_file f f' \<and> w_dev w' = w_dev w \<and>
    good_clock (w_clock w')"
proof -
  obtain f1 w1 where s: "fb_set_dirty f w = (f1, w1)" by fastforce
  note d = fb_set_dirty_dirty [OF assms(2) s]
  have "\<exists>b. gbs_resize n (fb_buffer f) = Return b \<and> good_slice b \<and>
    gbs_data b = take (nat n) (gbs_data (fb_buffer f)) @ replicate (nat n - used (fb_buffer f)) 0"
  proof (cases "n = 0")
    case True
    then show ?thesis using resize_to_zero [OF assms(1)] by auto
  next
    case False
    then have "int (used (fb_buffer f)) \<le> n" "2 * n \<le> max_alloc"
      using assms(3) by (auto simp: fb_Size_def gbs_len_def buffer_limit_def max_alloc_def)
    then show ?thesis using resize_grow [OF assms(1), of n] assms(1) by auto
  qed
  then obtain b where b: "gbs_resize n (fb_buffer f) = Return b" "good_slice b"
    "gbs_data b = take (nat n) (gbs_data (fb_buffer f)) @ replicate (nat n - used (fb_buffer f)) 0"
    by blast
  have "same_file f (f1\<lparr>fb_buffer := b\<rparr>)"
    using d(5) by (cases f; cases f1) (simp add: same_file_def)
  then show ?thesis
    using s b d assms(1) by (auto simp: fb_SetSize_def fb_Contents_def fb_IsDirty_def)
qed

text \<open>Shrinking in place to a positive size does not keep the prefix.\<close>

lemma fb_SetSize_in_place:
  assumes "wf_slice (fb_buffer f)" and "0 \<le> n" and "n < fb_Size f"
    and "gbs_cap (fb_buffer f) div 3 \<le> used (fb_buffer f)"
    and "fb_SetSize n f w = Return (f', w')"
  shows "fb_Contents f' =
    take (nat n) (replicate (nat (fb_Size f - n)) 0 @ drop (nat (fb_Size f - n)) (backing (fb_buffer f)))"
proof -
  obtain f1 w1 where s: "fb_set_dirty f w = (f1, w1)" by fastforce
  then have "fb_buffer f1 = fb_buffer f" using fb_set_dirty_simps [OF s] by (metis file_buffer.select_convs(7) file_buffer.surjective file_buffer.update_convs(8))
  moreover have "nat (fb_Size f - n) = used (fb_buffer f) - nat n"
    using assms(2,3) by (simp add: fb_Size_def gbs_len_def)
  ultimately show ?thesis
    using assms(5) s resize_shrink_in_place [OF assms(1,2) _ assms(4)] assms(3)
    by (auto simp: fb_SetSize_def fb_Contents_def gbs_data_def fb_Size_def gbs_len_def)
qed

subsection \<open>NewFileBuffer\<close>

definition flag_requires_write :: "flags \<Rightarrow> bool" where
  "flag_requires_write flags \<longleftrightarrow> Contains flags (O_CREATE OR O_TRUNC OR O_APPEND)"

lemma NewFileBuffer_not_permitted:
  assumes "flag_requires_write flags" and "\<not> CanWrite flags"
  shows "NewFileBuffer u flags p c t perms h log w = Return (Inl ErrNotPermitted, log, w)"
  using assms by (simp add: NewFileBuffer_def fb_initialize_def flag_requires_write_def del: Contains_OR)

definition new_buffer :: "string \<Rightarrow> ('d, 'x) device_client \<Rightarrow> int \<Rightarrow> mode \<Rightarrow> bool \<Rightarrow> ('d, 'x) file_buffer" where
  "new_buffer p c t perms h =
     \<lparr>fb_Path = p, fb_Client = c, fb_DirtyTimeout = t, fb_Perms = perms, fb_has_handler = h,
      fb_refCount = 0, fb_buffer = empty_slice, fb_dirty = dirty_new\<rparr>"

definition effective_perms :: "mode \<Rightarrow> mode \<Rightarrow> mode" where
  "effective_perms perms current = (if perms = DontSetPerms then current else perms)"

lemma initialize_with_new:
  "initialize_with u flags create current (new_buffer p c t perms h) log w =
   (let (f, w') = (if create \<or> Contains flags O_TRUNC
        then fb_set_dirty (new_buffer p c t (effective_perms perms current) h) w
        else (new_buffer p c t (effective_perms perms current) h, w))
    in go_bind (fb_Sync u f w') (\<lambda>(_, f', w''). Return (None, f', log, w'')))"
  by (simp add: initialize_with_def new_buffer_def effective_perms_def Let_def)

lemma NewFileBuffer_found:
  assumes "flag_requires_write flags \<longrightarrow> CanWrite flags"
    and "Stat c p log (w_dev w) = (Inr e, log', d)"
  shows "NewFileBuffer u flags p c t perms h log w =
    go_bind (initialize_with u flags False (Perm (de_mode e)) (new_buffer p c t perms h) log' (w\<lparr>w_dev := d\<rparr>))
      (\<lambda>(err, f, l, w'). case err of Some x \<Rightarrow> Return (Inl x, l, w') | None \<Rightarrow> Return (Inr f, l, w'))"
  using assms
  by (cases "CanWrite flags") (simp_all add: NewFileBuffer_def fb_initialize_def getFilePermissions_def new_buffer_def
      flag_requires_write_def Let_def go_bind_assoc)

lemma NewFileBuffer_missing:
  assumes "flag_requires_write flags \<longrightarrow> CanWrite flags"
    and "Stat c p log (w_dev w) = (Inl e, log', d)"
    and "WrapErrf u e ''error reading file permissions'' = Return e'"
  shows "NewFileBuffer u flags p c t perms h log w =
    (if HasErrCode u e' FileNoExistError \<and> Contains flags O_CREATE then
       go_bind (initialize_with u flags True DefaultFilePermissions (new_buffer p c t perms h) log' (w\<lparr>w_dev := d\<rparr>))
         (\<lambda>(err, f, l, w'). case err of Some x \<Rightarrow> Return (Inl x, l, w') | None \<Rightarrow> Return (Inr f, l, w'))
     else Return (Inl e', log', w\<lparr>w_dev := d\<rparr>))"
  using assms
  by (cases "CanWrite flags") (simp_all add: NewFileBuffer_def fb_initialize_def getFilePermissions_def new_buffer_def
      flag_requires_write_def Let_def)

text \<open>
  The error of the initial load is dropped: the open succeeds with what was read before it,
  nothing when the stream could not be opened.
\<close>

lemma loadFromDevice_partial:
  assumes "loadFromDevice u f w = Return (Some x, f', w')"
  shows "fb_Contents f' = (case OpenRead (fb_Client f) (fb_Path f) (w_dev w) of
    (Inl e, _) \<Rightarrow> fb_Contents f | (Inr stream, _) \<Rightarrow> st_data stream)"
  using assms
  by (auto simp: loadFromDevice_def gbs_read_from_def Let_def fb_Contents_def gbs_data_def
      split: prod.splits sum.splits option.splits elim!: go_bind_ReturnE)

lemma NewFileBuffer_load_error:
  assumes "flag_requires_write flags \<longrightarrow> CanWrite flags" and "\<not> Contains flags O_TRUNC"
    and "Stat c p log (w_dev w) = (Inr e, log', d)"
    and "loadFromDevice u (new_buffer p c t (effective_perms perms (Perm (de_mode e))) h) (w\<lparr>w_dev := d\<rparr>)
      = Return (Some x, f, w')"
  shows "NewFileBuffer u flags p c t perms h log w = Return (Inr f, log', w') \<and>
    fb_Contents f = (case OpenRead c p d of (Inl e, _) \<Rightarrow> [] | (Inr stream, _) \<Rightarrow> st_data stream)"
proof -
  have "\<not> dirty_is_set (fb_dirty (new_buffer p c t m h))" for m
    by (simp add: new_buffer_def dirty_new_def dirty_is_set_def)
  then have "NewFileBuffer u flags p c t perms h log w = Return (Inr f, log', w')"
    using assms by (simp add: NewFileBuffer_found initialize_with_new fb_Sync_def Let_def)
  moreover have "fb_Contents (new_buffer p c t m h) = []" "fb_Client (new_buffer p c t m h) = c"
      "fb_Path (new_buffer p c t m h) = p" for m
    by (simp_all add: new_buffer_def fb_Contents_def gbs_data_def empty_slice_def)
  ultimately show ?thesis
    using loadFromDevice_partial [OF assms(4)] by (simp split: prod.split sum.split)
qed

context file_device begin

lemma NewFileBuffer_open_existing:
  assumes "flag_requires_write flags \<longrightarrow> CanWrite flags" and "\<not> Contains flags O_TRUNC"
    and "Stat c p log (w_dev w) = (Inr e, log', d)" and "valid d" and "files d p = Some b"
  shows "\<exists>f w'. NewFileBuffer u flags p c t perms h log w = Return (Inr f, log', w') \<and>
    fb_Contents f = b \<and> good_slice (fb_buffer f) \<and> \<not> fb_IsDirty f \<and> fb_refCount f = 0 \<and>
    fb_Path f = p \<and> fb_Perms f = effective_perms perms (Perm (de_mode e)) \<and>
    valid (w_dev w') \<and> files (w_dev w') = files d \<and> w_clock w' = w_clock w \<and>
    fb_Client f = c \<and> writable (w_dev w') = writable d"
proof -
  define g where "g = new_buffer p c t (effective_perms perms (Perm (de_mode e))) h"
  have g: "fb_Client g = c" "fb_Path g = p" "fb_dirty g = dirty_new" "fb_refCount g = 0"
    "fb_Perms g = effective_perms perms (Perm (de_mode e))"
    by (simp_all add: g_def new_buffer_def)
  obtain buf d' where l: "loadFromDevice u g (w\<lparr>w_dev := d\<rparr>) =
      Return (None, g\<lparr>fb_buffer := buf\<rparr>, w\<lparr>w_dev := d'\<rparr>)"
    "good_slice buf" "gbs_data buf = b" "valid d'" "files d' = files d" "writable d' = writable d"
    using loadFromDevice_fetch [of g "w\<lparr>w_dev := d\<rparr>" b u] assms g by auto
  show ?thesis
    using assms(1-3) l g
    by (auto simp: NewFileBuffer_found initialize_with_new fb_Sync_def Let_def fb_Contents_def
        fb_IsDirty_def simp flip: g_def)
qed

text \<open>Truncating and creating opens leave an empty file on the device and a clean empty buffer.\<close>

lemma initialize_with_empty:
  assumes "create \<or> Contains flags O_TRUNC"
    and "valid (w_dev w)" and "writable (w_dev w) p" and "good_clock (w_clock w)"
  shows "\<exists>f w'. initialize_with u flags create current (new_buffer p c t perms h) log w = Return (None, f, log, w') \<and>
    fb_Contents f = [] \<and> good_slice (fb_buffer f) \<and> \<not> fb_IsDirty f \<and> fb_refCount f = 0 \<and>
    fb_Path f = p \<and> fb_Perms f = effective_perms perms current \<and>
    valid (w_dev w') \<and> files (w_dev w') = (files (w_dev w))(p \<mapsto> []) \<and>
    fb_Client f = c \<and> writable (w_dev w') = writable (w_dev w) \<and> good_clock (w_clock w')"
proof -
  define g where "g = new_buffer p c t (effective_perms perms current) h"
  have g: "fb_Client g = c" "fb_Path g = p" "fb_refCount g = 0" "fb_buffer g = empty_slice"
    "fb_Perms g = effective_perms perms current"
    by (simp_all add: g_def new_buffer_def)
  obtain g1 w1 where s: "fb_set_dirty g w = (g1, w1)" by fastforce
  note d = fb_set_dirty_dirty [OF assms(4) s]
  have g1: "fb_Client g1 = c" "fb_Path g1 = p" "fb_refCount g1 = 0"
    using same_file_fields [OF d(5)] g by simp_all
  obtain d' where st: "saveToDevice u g1 w1 = Return (None, g1\<lparr>fb_dirty := dirty_new\<rparr>, w1\<lparr>w_dev := d'\<rparr>)"
    "valid d'" "files d' = (files (w_dev w1))(fb_Path g1 \<mapsto> fb_Contents g1)" "writable d' = writable (w_dev w1)"
    using saveToDevice_store [of g1 w1 u] assms(2,3) g1 d(3,4) g(4) by auto
  have "fb_Contents g1 = []" using d(3) g(4) by (simp add: fb_Contents_def gbs_data_def empty_slice_def)
  moreover have "fb_Sync u g1 w1 = saveToDevice u g1 w1" using d(1) by (simp add: fb_Sync_def fb_IsDirty_def)
  ultimately show ?thesis
    using assms(1) s st g1 d g
    by (auto simp: initialize_with_new Let_def fb_IsDirty_def fb_Contents_def simp flip: g_def)
qed

lemma NewFileBuffer_truncate:
  assumes "flag_requires_write flags \<longrightarrow> CanWrite flags" and "Contains flags O_TRUNC"
    and "Stat c p log (w_dev w) = (Inr e, log', d)" and "valid d" and "writable d p"
    and "good_clock (w_clock w)"
  shows "\<exists>f w'. NewFileBuffer u flags p c t perms h log w = Return (Inr f, log', w') \<and>
    fb_Contents f = [] \<and> good_slice (fb_buffer f) \<and> \<not> fb_IsDirty f \<and> fb_refCount f = 0 \<and>
    fb_Path f = p \<and> fb_Perms f = effective_perms perms (Perm (de_mode e)) \<and>
    valid (w_dev w') \<and> files (w_dev w') = (files d)(p \<mapsto> []) \<and>
    fb_Client f = c \<and> writable (w_dev w') = writable d \<and> good_clock (w_clock w')"
proof -
  obtain f w' where i: "initialize_with u flags False (Perm (de_mode e)) (new_buffer p c t perms h) log' (w\<lparr>w_dev := d\<rparr>)
      = Return (None, f, log', w')"
    and f: "fb_Contents f = []" "good_slice (fb_buffer f)" "\<not> fb_IsDirty f" "fb_refCount f = 0"
      "fb_Path f = p" "fb_Perms f = effective_perms perms (Perm (de_mode e))"
      "valid (w_dev w')" "files (w_dev w') = (files d)(p \<mapsto> [])"
      "fb_Client f = c" "writable (w_dev w') = writable d" "good_clock (w_clock w')"
    using initialize_with_empty [of False flags "w\<lparr>w_dev := d\<rparr>" p u "Perm (de_mode e)" t perms h log'] assms(2,4-6) by auto
  note n = NewFileBuffer_found [where u = u and t = t and perms = perms and h = h, OF assms(1,3)]
  show ?thesis
    unfolding n using i f by (intro exI [of _ f] exI [of _ w']) simp
qed

lemma NewFileBuffer_create:
  assumes "CanWrite flags" and "Contains flags O_CREATE"
    and "Stat c p log (w_dev w) = (Inl e, log', d)"
    and "WrapErrf u e ''error reading file permissions'' = Return e'"
    and "HasErrCode u e' FileNoExistError" and "valid d" and "writable d p"
    and "good_clock (w_clock w)"
  shows "\<exists>f w'. NewFileBuffer u flags p c t perms h log w = Return (Inr f, log', w') \<and>
    fb_Contents f = [] \<and> good_slice (fb_buffer f) \<and> \<not> fb_IsDirty f \<and> fb_refCount f = 0 \<and>
    fb_Path f = p \<and> fb_Perms f = effective_perms perms DefaultFilePermissions \<and>
    valid (w_dev w') \<and> files (w_dev w') = (files d)(p \<mapsto> []) \<and>
    fb_Client f = c \<and> writable (w_dev w') = writable d \<and> good_clock (w_clock w')"
proof -
  have "flag_requires_write flags \<longrightarrow> CanWrite flags" using assms(1) by simp
  note n = NewFileBuffer_missing [where u = u and t = t and perms = perms and h = h, OF this assms(3,4)]
  obtain f w' where i: "initialize_with u flags True (DefaultFilePermissions) (new_buffer p c t perms h) log' (w\<lparr>w_dev := d\<rparr>)
      = Return (None, f, log', w')"
    and f: "fb_Contents f = []" "good_slice (fb_buffer f)" "\<not> fb_IsDirty f" "fb_refCount f = 0"
      "fb_Path f = p" "fb_Perms f = effective_perms perms (DefaultFilePermissions)"
      "valid (w_dev w')" "files (w_dev w') = (files d)(p \<mapsto> [])"
      "fb_Client f = c" "writable (w_dev w') = writable d" "good_clock (w_clock w')"
    using initialize_with_empty [of True flags "w\<lparr>w_dev := d\<rparr>" p u "DefaultFilePermissions" t perms h log'] assms(6-8) by auto
  show ?thesis unfolding n using i f assms(2,5) by (intro exI [of _ f] exI [of _ w']) simp
qed

end

context perm_device begin

lemma initialize_with_perms:
  assumes "create \<or> Contains flags O_TRUNC" and "valid (w_dev w)" and "writable (w_dev w) p"
    and "good_clock (w_clock w)"
    and "initialize_with u flags create current (new_buffer p c t perms h) log w = Return (err, f, log', w')"
    and "files (w_dev w) p = None"
  shows "file_perms (w_dev w') p = Some (effective_perms perms current)"
proof -
  let ?g = "new_buffer p c t (effective_perms perms current) h"
  obtain g1 w1 where s: "fb_set_dirty ?g w = (g1, w1)" by fastforce
  note d = fb_set_dirty_dirty [OF assms(4) s]
  have g1: "fb_Client g1 = c" "fb_Path g1 = p" "fb_Perms g1 = effective_perms perms current" "wf_slice (fb_buffer g1)"
    using same_file_fields [OF d(5)] d(3,6) by (simp_all add: new_buffer_def good_slice_wf)
  have "fb_Sync u g1 w1 = saveToDevice u g1 w1" using d(1) by (simp add: fb_Sync_def fb_IsDirty_def)
  then obtain e f1 where "saveToDevice u g1 w1 = Return (e, f1, w')"
    using assms(1,5) s by (auto simp: initialize_with_new Let_def elim!: go_bind_ReturnE)
  from saveToDevice_perms [OF g1(1) _ _ g1(4) this] show ?thesis using assms(2,3,6) d(4) g1(2,3) by simp
qed

text \<open>A file that an open creates has the permissions asked for, or the default ones.\<close>

lemma NewFileBuffer_create_perms:
  assumes "CanWrite flags" and "Contains flags O_CREATE"
    and "Stat c p log (w_dev w) = (Inl e, log', d)"
    and "WrapErrf u e ''error reading file permissions'' = Return e'"
    and "HasErrCode u e' FileNoExistError" and "valid d" and "writable d p"
    and "good_clock (w_clock w)"
    and "NewFileBuffer u flags p c t perms h log w = Return (Inr f, log'', w')"
    and "files d p = None"
  shows "file_perms (w_dev w') p = Some (effective_perms perms DefaultFilePermissions)"
proof -
  have "flag_requires_write flags \<longrightarrow> CanWrite flags" using assms(1) by simp
  note n = NewFileBuffer_missing [where u = u and t = t and perms = perms and h = h, OF this assms(3,4)]
  obtain err f1 l where "initialize_with u flags True DefaultFilePermissions (new_buffer p c t perms h) log'
      (w\<lparr>w_dev := d\<rparr>) = Return (err, f1, l, w')"
    using assms(2,5,9) n by (auto split: option.splits elim!: go_bind_ReturnE)
  from initialize_with_perms [OF _ _ _ _ this] show ?thesis using assms(6-8,10) by simp
qed

end

end
