(* ===== verification/Open_Files.thy ===== *)
theory Open_Files
  imports File_Buffer_Open "HOL-Library.Multiset"
begin

text \<open>
  \<open>OpenFiles\<close> of \<open>open_files.go\<close>: the open buffers of a file system, one for each path. Buffers
  are shared by the open files, so they live in a heap (a list, the address of a buffer is its
  index); \<open>buffersByPath\<close> maps a path to an address. \<open>GetOrLoad\<close> and \<open>release\<close> hold the lock
  from beginning to end and are one step each; closing a file is two steps, the atomic
  decrement and, when it reaches 0, the call of \<open>release\<close>, and other goroutines may run
  between them.
\<close>

text \<open>\<open>5 * time.Minute\<close>, in nanoseconds.\<close>

definition DefaultDirtyTimeout :: int where
  "DefaultDirtyTimeout = 5 * 60 * 10 ^ 9"

record ('d, 'x) open_files =
  of_ClientFactory :: "'d \<Rightarrow> ('d, 'x) device_client \<times> 'd"
  of_DirtyTimeout :: int
  of_buffersByPath :: "string \<Rightarrow> nat option"
  of_heap :: "('d, 'x) file_buffer list"

definition NewOpenFiles :: "('d \<Rightarrow> ('d, 'x) device_client \<times> 'd) \<Rightarrow> int \<Rightarrow> ('d, 'x) open_files" where
  "NewOpenFiles factory timeout =
     \<lparr>of_ClientFactory = factory,
      of_DirtyTimeout = (if timeout = 0 then DefaultDirtyTimeout else timeout),
      of_buffersByPath = Map.empty, of_heap = []\<rparr>"

definition of_inc :: "nat \<Rightarrow> ('d, 'x) open_files \<Rightarrow> ('d, 'x) open_files" where
  "of_inc a fs = fs\<lparr>of_heap := (of_heap fs)[a := snd (fb_IncRefCount (of_heap fs ! a))]\<rparr>"

definition GetOrLoad ::
  "'x goadb \<Rightarrow> string \<Rightarrow> flags \<Rightarrow> mode \<Rightarrow> 'x log_entry \<Rightarrow> ('d, 'x) open_files \<Rightarrow> 'd world \<Rightarrow>
   (('x err + nat) \<times> 'x log_entry \<times> ('d, 'x) open_files \<times> 'd world) go" where
  "GetOrLoad u path openFlags perms log fs w =
     (case of_buffersByPath fs path of
        Some a \<Rightarrow> Return (Inr a, log, of_inc a fs, w)
      | None \<Rightarrow>
          (case of_ClientFactory fs (w_dev w) of (client, d) \<Rightarrow>
           go_bind (NewFileBuffer u openFlags path client (of_DirtyTimeout fs) perms True log (w\<lparr>w_dev := d\<rparr>))
             (\<lambda>(res, log', w').
               case res of
                 Inl err \<Rightarrow> Return (Inl err, log', fs, w')
               | Inr file \<Rightarrow>
                   let a = length (of_heap fs)
                   in Return (Inr a, log',
                        of_inc a (fs\<lparr>of_heap := of_heap fs @ [file],
                          of_buffersByPath := (of_buffersByPath fs)(path \<mapsto> a)\<rparr>), w'))))"

definition release :: "nat \<Rightarrow> ('d, 'x) open_files \<Rightarrow> ('d, 'x) open_files" where
  "release a fs =
     (if fb_RefCount (of_heap fs ! a) \<noteq> 0 then fs
      else fs\<lparr>of_buffersByPath := (of_buffersByPath fs)(fb_Path (of_heap fs ! a) := None)\<rparr>)"

text \<open>\<open>DecRefCount\<close> with its handler, run without interruption.\<close>

definition of_DecRefCount :: "nat \<Rightarrow> ('d, 'x) open_files \<Rightarrow> (int \<times> ('d, 'x) open_files) go" where
  "of_DecRefCount a fs =
     go_bind (fb_DecRefCount (of_heap fs ! a)) (\<lambda>(n, call, f).
       let fs' = fs\<lparr>of_heap := (of_heap fs)[a := f]\<rparr>
       in Return (n, if call then release a fs' else fs'))"

subsection \<open>GetOrLoad, case by case\<close>

lemma GetOrLoad_open:
  "of_buffersByPath fs p = Some a \<Longrightarrow> GetOrLoad u p flags perms log fs w = Return (Inr a, log, of_inc a fs, w)"
  by (simp add: GetOrLoad_def)

lemma GetOrLoad_new:
  assumes "of_buffersByPath fs p = None" and "of_ClientFactory fs (w_dev w) = (c, d)"
    and "NewFileBuffer u flags p c (of_DirtyTimeout fs) perms True log (w\<lparr>w_dev := d\<rparr>) = Return (Inr f, log', w')"
  shows "GetOrLoad u p flags perms log fs w =
    Return (Inr (length (of_heap fs)), log',
      fs\<lparr>of_heap := of_heap fs @ [snd (fb_IncRefCount f)],
        of_buffersByPath := (of_buffersByPath fs)(p \<mapsto> length (of_heap fs))\<rparr>, w')"
  using assms by (simp add: GetOrLoad_def of_inc_def Let_def nth_append)

lemma GetOrLoad_error:
  assumes "GetOrLoad u p flags perms log fs w = Return (Inl e, log', fs', w')"
  shows "fs' = fs \<and> of_buffersByPath fs p = None"
  using assms
  by (auto simp: GetOrLoad_def Let_def split: option.splits prod.splits sum.splits elim!: go_bind_ReturnE)

text \<open>A new buffer has the asked-for path, the handler and no references.\<close>

lemma fb_Sync_same_file:
  assumes "fb_Sync u f w = Return (e, f', w')"
  shows "same_file f f'"
  using assms saveToDevice_buffer(1) [of u f w e f' w'] loadFromDevice_frame(1) [of u f w e f' w']
  by (auto simp: fb_Sync_def split: if_splits) (metis same_file_update(1))

lemma same_file_trans: "same_file f g \<Longrightarrow> same_file g h \<Longrightarrow> same_file f h"
  by (cases f; cases g; cases h) (simp add: same_file_def)

lemma fb_set_dirty_same_file: "fb_set_dirty f w = (f', w') \<Longrightarrow> same_file f f'"
  by (auto simp: fb_set_dirty_def split: prod.splits)

lemma initialize_with_same_file:
  assumes "initialize_with u flags create perms f log w = Return (e, f', log', w')"
  shows "same_file f f' \<and> e = None"
  using assms
  by (auto simp: initialize_with_def Let_def split: prod.splits if_splits elim!: go_bind_ReturnE
      dest!: fb_Sync_same_file fb_set_dirty_same_file intro: same_file_trans same_file_update)

lemma fb_initialize_same_file:
  assumes "fb_initialize u flags f log w = Return (None, f', log', w')"
  shows "same_file f f'"
  using assms
  by (auto simp: fb_initialize_def split: if_splits sum.splits elim!: go_bind_ReturnE
      dest!: initialize_with_same_file)

lemma NewFileBuffer_fields:
  assumes "NewFileBuffer u flags p c t perms h log w = Return (Inr f, log', w')"
  shows "fb_Path f = p" and "fb_refCount f = 0" and "fb_has_handler f = h"
proof -
  have "same_file (new_buffer p c t perms h) f"
    using assms
    by (auto simp: NewFileBuffer_def Let_def simp flip: new_buffer_def split: option.splits
        elim!: go_bind_ReturnE dest!: fb_initialize_same_file)
  from same_file_fields [OF this] show "fb_Path f = p" "fb_refCount f = 0" "fb_has_handler f = h"
    by (simp_all add: new_buffer_def)
qed

text \<open>A successful open either counts up the buffer of the path or maps a new one.\<close>

lemma GetOrLoad_cases:
  assumes "GetOrLoad u p flags perms log fs w = Return (Inr a, log', fs', w')"
  obtains (shared) "of_buffersByPath fs p = Some a" "fs' = of_inc a fs"
  | (fresh) f where "of_buffersByPath fs p = None" "a = length (of_heap fs)" "fb_Path f = p"
      "fb_refCount f = 0" "fb_has_handler f"
      "fs' = fs\<lparr>of_heap := of_heap fs @ [snd (fb_IncRefCount f)],
        of_buffersByPath := (of_buffersByPath fs)(p \<mapsto> a)\<rparr>"
proof (cases "of_buffersByPath fs p")
  case (Some b)
  with assms have "b = a" and "fs' = of_inc a fs" by (auto simp: GetOrLoad_def)
  with Some show thesis by (intro shared) simp_all
next
  case None
  obtain c d where c: "of_ClientFactory fs (w_dev w) = (c, d)" by fastforce
  obtain f where f: "NewFileBuffer u flags p c (of_DirtyTimeout fs) perms True log (w\<lparr>w_dev := d\<rparr>)
      = Return (Inr f, log', w')"
    "a = length (of_heap fs)" "fs' = of_inc a (fs\<lparr>of_heap := of_heap fs @ [f],
        of_buffersByPath := (of_buffersByPath fs)(p \<mapsto> a)\<rparr>)"
    using assms None c by (auto simp: GetOrLoad_def Let_def split: sum.splits elim!: go_bind_ReturnE)
  show thesis
    using fresh [OF None f(2)] NewFileBuffer_fields [OF f(1)] f(2,3)
    by (simp add: of_inc_def nth_append)
qed

subsection \<open>The goroutines that open and close files\<close>

text \<open>
  \<open>handles\<close> are the buffers of the open \<open>AdbFile\<close>s, one for each, and \<open>pending\<close> the calls of
  \<open>release\<close> that a decrement to 0 has started and that have not got the lock yet. The number
  of open files stays below the range of the 32-bit count.
\<close>

record ('d, 'x) machine =
  ms_files :: "('d, 'x) open_files"
  ms_handles :: "nat multiset"
  ms_pending :: "nat multiset"

definition max_handles :: nat where
  "max_handles = 2 ^ 31 - 1"

abbreviation ms_buffer :: "('d, 'x) machine \<Rightarrow> nat \<Rightarrow> ('d, 'x) file_buffer" where
  "ms_buffer s a \<equiv> of_heap (ms_files s) ! a"

abbreviation ms_paths :: "('d, 'x) machine \<Rightarrow> string \<Rightarrow> nat option" where
  "ms_paths s \<equiv> of_buffersByPath (ms_files s)"

text \<open>
  The flag \<open>waits\<close> says whether an open waits for the pending releases of its path: the code
  does not make it wait.
\<close>

inductive step :: "'x goadb \<Rightarrow> bool \<Rightarrow> ('d, 'x) machine \<Rightarrow> ('d, 'x) machine \<Rightarrow> bool"
  for u :: "'x goadb" and waits :: bool where
  open_ok: "GetOrLoad u p flags perms log (ms_files s) w = Return (Inr a, log', fs', w') \<Longrightarrow>
    size (ms_handles s) < max_handles \<Longrightarrow>
    (waits \<longrightarrow> (\<forall>b \<in># ms_pending s. fb_Path (ms_buffer s b) \<noteq> p)) \<Longrightarrow>
    step u waits s (s\<lparr>ms_files := fs', ms_handles := add_mset a (ms_handles s)\<rparr>)"
| use_file: "a \<in># ms_handles s \<Longrightarrow> same_file (ms_buffer s a) f \<Longrightarrow>
    step u waits s (s\<lparr>ms_files := (ms_files s)\<lparr>of_heap := (of_heap (ms_files s))[a := f]\<rparr>\<rparr>)"
| decrement: "a \<in># ms_handles s \<Longrightarrow> fb_DecRefCount (ms_buffer s a) = Return (n, call, f) \<Longrightarrow>
    step u waits s
      (s\<lparr>ms_files := (ms_files s)\<lparr>of_heap := (of_heap (ms_files s))[a := f]\<rparr>,
         ms_handles := ms_handles s - {#a#},
         ms_pending := (if call then add_mset a (ms_pending s) else ms_pending s)\<rparr>)"
| run_release: "a \<in># ms_pending s \<Longrightarrow>
    step u waits s (s\<lparr>ms_files := release a (ms_files s), ms_pending := ms_pending s - {#a#}\<rparr>)"

inductive_cases stepE: "step u waits s s'"

definition machine_init :: "('d, 'x) open_files \<Rightarrow> ('d, 'x) machine" where
  "machine_init fs = \<lparr>ms_files = fs, ms_handles = {#}, ms_pending = {#}\<rparr>"

inductive reachable :: "'x goadb \<Rightarrow> bool \<Rightarrow> ('d, 'x) machine \<Rightarrow> bool"
  for u :: "'x goadb" and waits :: bool where
  init: "reachable u waits (machine_init (NewOpenFiles factory timeout))"
| next_step: "reachable u waits s \<Longrightarrow> step u waits s s' \<Longrightarrow> reachable u waits s'"

subsection \<open>Counting is exact\<close>

text \<open>
  In every interleaving: the count of a buffer is the number of its open files, the map sends
  a path to a buffer of that path, and a buffer of the map without open files has its release
  pending.
\<close>

definition counted :: "('d, 'x) machine \<Rightarrow> bool" where
  "counted s \<longleftrightarrow>
     (\<forall>a < length (of_heap (ms_files s)).
        fb_refCount (ms_buffer s a) = int (count (ms_handles s) a) \<and> fb_has_handler (ms_buffer s a)) \<and>
     (\<forall>a \<in># ms_handles s + ms_pending s. a < length (of_heap (ms_files s))) \<and>
     size (ms_handles s) \<le> max_handles"

definition mapped :: "('d, 'x) machine \<Rightarrow> bool" where
  "mapped s \<longleftrightarrow>
     (\<forall>p a. ms_paths s p = Some a \<longrightarrow>
        a < length (of_heap (ms_files s)) \<and> fb_Path (ms_buffer s a) = p \<and>
        (a \<in># ms_handles s \<or> a \<in># ms_pending s))"

lemma countedD:
  assumes "counted s" and "a < length (of_heap (ms_files s))"
  shows "fb_refCount (ms_buffer s a) = int (count (ms_handles s) a)" and "fb_has_handler (ms_buffer s a)"
  using assms by (simp_all add: counted_def)

lemma counted_valid:
  "counted s \<Longrightarrow> a \<in># ms_handles s \<Longrightarrow> a < length (of_heap (ms_files s))"
  "counted s \<Longrightarrow> a \<in># ms_pending s \<Longrightarrow> a < length (of_heap (ms_files s))"
  by (auto simp: counted_def)

lemma inc_count:
  assumes "fb_refCount f = int n" and "n < max_handles"
  shows "fb_refCount (snd (fb_IncRefCount f)) = int (Suc n)"
    and "fb_Path (snd (fb_IncRefCount f)) = fb_Path f"
    and "fb_has_handler (snd (fb_IncRefCount f)) = fb_has_handler f"
  using assms by (simp_all add: fb_IncRefCount_def Let_def max_handles_def)

lemma dec_count:
  assumes "fb_refCount f = int n" and "0 < n" and "n \<le> max_handles" and "fb_has_handler f"
  shows "fb_DecRefCount f = Return (int (n - 1), n = 1, f\<lparr>fb_refCount := int (n - 1)\<rparr>)"
proof -
  obtain m where m: "n = Suc m" using assms(2) by (cases n) auto
  have "int m < 2 ^ 31" using assms(3) m by (simp add: max_handles_def)
  then have "wrap32 (int m) = int m" by simp
  then show ?thesis using assms(1,4) m by (simp add: fb_DecRefCount_def Let_def)
qed

lemma count_le_max: "counted s \<Longrightarrow> count (ms_handles s) a \<le> max_handles"
  using count_le_size [of "ms_handles s" a] by (simp add: counted_def)

text \<open>The decrement of an open file never panics.\<close>

lemma decrement_Return:
  assumes "counted s" and "a \<in># ms_handles s"
  shows "fb_DecRefCount (ms_buffer s a) =
    Return (int (count (ms_handles s) a - 1), count (ms_handles s) a = 1,
      ms_buffer s a\<lparr>fb_refCount := int (count (ms_handles s) a - 1)\<rparr>)"
  using assms counted_valid(1) [OF assms] countedD [OF assms(1)] count_le_max [OF assms(1)]
  by (intro dec_count) auto

text \<open>Each step keeps the counts.\<close>

lemma counted_use:
  assumes "counted s" and "a < length (of_heap (ms_files s))" and "same_file (ms_buffer s a) f"
  shows "counted (s\<lparr>ms_files := (ms_files s)\<lparr>of_heap := (of_heap (ms_files s))[a := f]\<rparr>\<rparr>)"
  using assms same_file_fields(2,4) [OF assms(3)]
  by (auto simp: counted_def nth_list_update)

lemma counted_decrement:
  assumes "counted s" and "a \<in># ms_handles s"
    and "fb_DecRefCount (ms_buffer s a) = Return (n, call, f)"
  shows "counted (s\<lparr>ms_files := (ms_files s)\<lparr>of_heap := (of_heap (ms_files s))[a := f]\<rparr>,
         ms_handles := ms_handles s - {#a#},
         ms_pending := (if call then add_mset a (ms_pending s) else ms_pending s)\<rparr>)"
proof -
  have a: "a < length (of_heap (ms_files s))" using assms(1,2) by (rule counted_valid)
  have f: "f = ms_buffer s a\<lparr>fb_refCount := int (count (ms_handles s) a - 1)\<rparr>"
    using decrement_Return [OF assms(1,2)] assms(3) by simp
  have "fb_has_handler (ms_buffer s a)" using countedD(2) [OF assms(1) a] .
  moreover have "size (ms_handles s - {#a#}) \<le> max_handles"
    using assms(1) size_mset_mono [OF diff_subset_eq_self, of "ms_handles s" "{#a#}"]
    by (simp add: counted_def)
  moreover have "\<forall>b \<in># ms_handles s - {#a#} + ms_pending s. b < length (of_heap (ms_files s))"
    using assms(1) by (auto simp: counted_def dest: in_diffD)
  ultimately show ?thesis
    using assms(1) a f by (auto simp: counted_def nth_list_update)
qed

lemma release_heap [simp]: "of_heap (release a fs) = of_heap fs"
  by (simp add: release_def)

lemma counted_open:
  assumes "counted s" and "mapped s"
    and "GetOrLoad u p flags perms log (ms_files s) w = Return (Inr a, log', fs', w')"
    and "size (ms_handles s) < max_handles"
  shows "counted (s\<lparr>ms_files := fs', ms_handles := add_mset a (ms_handles s)\<rparr>)"
  using assms(3)
proof (cases rule: GetOrLoad_cases)
  case shared
  have a: "a < length (of_heap (ms_files s))" using assms(2) shared(1) by (simp add: mapped_def)
  have "count (ms_handles s) a < max_handles"
    using count_le_size [of "ms_handles s" a] assms(4) by simp
  then show ?thesis
    using assms(1,4) a shared inc_count [OF countedD(1) [OF assms(1) a]] countedD(2) [OF assms(1) a]
    by (auto simp: counted_def of_inc_def nth_list_update)
next
  case (fresh f)
  have "a \<notin># ms_handles s" using counted_valid(1) [OF assms(1), of a] fresh(2) by auto
  then have "count (ms_handles s) a = 0" by (simp add: not_in_iff)
  moreover have "fb_refCount f = int 0" using fresh(4) by simp
  moreover have "0 < max_handles" by (simp add: max_handles_def)
  ultimately show ?thesis
    using assms(1,4) fresh inc_count [of f 0]
    by (auto simp: counted_def nth_append less_Suc_eq)
qed

lemma mapped_open:
  assumes "counted s" and "mapped s"
    and "GetOrLoad u p flags perms log (ms_files s) w = Return (Inr a, log', fs', w')"
  shows "mapped (s\<lparr>ms_files := fs', ms_handles := add_mset a (ms_handles s)\<rparr>)"
  using assms(3)
proof (cases rule: GetOrLoad_cases)
  case shared
  then show ?thesis using assms(2)
    by (auto simp: mapped_def of_inc_def nth_list_update fb_IncRefCount_def Let_def)
next
  case (fresh f)
  then show ?thesis using assms(2)
    by (auto simp: mapped_def nth_append fb_IncRefCount_def Let_def less_Suc_eq)
qed

lemma mapped_use:
  assumes "mapped s" and "same_file (ms_buffer s a) f" and "a < length (of_heap (ms_files s))"
  shows "mapped (s\<lparr>ms_files := (ms_files s)\<lparr>of_heap := (of_heap (ms_files s))[a := f]\<rparr>\<rparr>)"
  using assms(1,3) same_file_fields(1) [OF assms(2)] by (auto simp: mapped_def nth_list_update)

lemma mapped_decrement:
  assumes "counted s" and "mapped s" and "a \<in># ms_handles s"
    and "fb_DecRefCount (ms_buffer s a) = Return (n, call, f)"
  shows "mapped (s\<lparr>ms_files := (ms_files s)\<lparr>of_heap := (of_heap (ms_files s))[a := f]\<rparr>,
         ms_handles := ms_handles s - {#a#},
         ms_pending := (if call then add_mset a (ms_pending s) else ms_pending s)\<rparr>)"
proof -
  have f: "f = ms_buffer s a\<lparr>fb_refCount := int (count (ms_handles s) a - 1)\<rparr>"
    "call \<longleftrightarrow> count (ms_handles s) a = 1"
    using decrement_Return [OF assms(1,3)] assms(4) by auto
  have a: "a < length (of_heap (ms_files s))" using assms(1,3) by (rule counted_valid)
  have path: "fb_Path ((of_heap (ms_files s))[a := f] ! b) = fb_Path (ms_buffer s b)" for b
    using a f(1) by (simp add: nth_list_update)
  have keep: "b \<in># ms_handles s - {#a#} \<or> b = a \<and> call" if "b \<in># ms_handles s" for b
  proof (cases "b = a \<and> \<not> call")
    case True
    then have "1 < count (ms_handles s) a"
      using assms(3) f(2) count_greater_zero_iff [of "ms_handles s" a] by linarith
    then show ?thesis using True by (simp add: in_diff_count)
  next
    case False
    then show ?thesis using that by (auto simp: in_diff_count)
  qed
  show ?thesis
    using assms(2) unfolding mapped_def by (simp add: path) (metis keep)
qed

text \<open>A release drops the map's entry of the path only when the count is 0.\<close>

lemma mapped_release:
  assumes "counted s" and "mapped s" and "a \<in># ms_pending s"
  shows "mapped (s\<lparr>ms_files := release a (ms_files s), ms_pending := ms_pending s - {#a#}\<rparr>)"
proof -
  have a: "a < length (of_heap (ms_files s))" using assms(1,3) by (rule counted_valid)
  have rc: "fb_RefCount (ms_buffer s a) \<noteq> 0 \<longleftrightarrow> a \<in># ms_handles s"
    using countedD(1) [OF assms(1) a] by (simp add: fb_RefCount_def)
  have rest: "b \<in># ms_pending s - {#a#}" if "b \<in># ms_pending s" "b \<noteq> a" for b
    using that by (simp add: in_diff_count)
  show ?thesis
  proof (cases "a \<in># ms_handles s")
    case True
    then have "release a (ms_files s) = ms_files s" using rc by (simp add: release_def)
    then show ?thesis using assms(2) rest True unfolding mapped_def by simp metis
  next
    case False
    then have r: "release a (ms_files s) = (ms_files s)\<lparr>of_buffersByPath :=
        (ms_paths s)(fb_Path (ms_buffer s a) := None)\<rparr>" using rc by (simp add: release_def)
    show ?thesis unfolding mapped_def
    proof (intro allI impI)
      fix p b
      assume "ms_paths (s\<lparr>ms_files := release a (ms_files s), ms_pending := ms_pending s - {#a#}\<rparr>) p = Some b"
      then have "ms_paths s p = Some b" "p \<noteq> fb_Path (ms_buffer s a)"
        by (auto simp: r split: if_splits)
      then show "b < length (of_heap (ms_files (s\<lparr>ms_files := release a (ms_files s), ms_pending := ms_pending s - {#a#}\<rparr>))) \<and>
        fb_Path (ms_buffer (s\<lparr>ms_files := release a (ms_files s), ms_pending := ms_pending s - {#a#}\<rparr>) b) = p \<and>
        (b \<in># ms_handles (s\<lparr>ms_files := release a (ms_files s), ms_pending := ms_pending s - {#a#}\<rparr>) \<or>
         b \<in># ms_pending (s\<lparr>ms_files := release a (ms_files s), ms_pending := ms_pending s - {#a#}\<rparr>))"
        using assms(2) rest [of b] by (auto simp: mapped_def)
    qed
  qed
qed

lemma step_invariant:
  assumes "step u waits s s'" and "counted s" and "mapped s"
  shows "counted s' \<and> mapped s'"
  using assms(1)
proof cases
  case (open_ok p flags perms log w a log' fs' w')
  then show ?thesis using counted_open [OF assms(2,3)] mapped_open [OF assms(2,3)] by simp
next
  case (use_file a f)
  then show ?thesis
    using counted_use [OF assms(2) counted_valid(1) [OF assms(2)]] mapped_use [OF assms(3)]
      counted_valid(1) [OF assms(2)] by simp
next
  case (decrement a n call f)
  then show ?thesis using counted_decrement [OF assms(2)] mapped_decrement [OF assms(2,3)] by simp
next
  case (run_release a)
  then have "counted s'" using assms(2) by (auto simp: counted_def dest: in_diffD)
  then show ?thesis using run_release mapped_release [OF assms(2,3)] by simp
qed

lemma reachable_counted: "reachable u waits s \<Longrightarrow> counted s \<and> mapped s"
proof (induction rule: reachable.induct)
  case (init factory timeout)
  then show ?case by (simp add: counted_def mapped_def machine_init_def NewOpenFiles_def)
next
  case (next_step s s')
  then show ?case using step_invariant by blast
qed

end
