(* ===== verification/Wrapping_File.thy ===== *)
theory Wrapping_File
  imports Log_Entry Go_Strconv Fuse_Attr
begin

text \<open>
  The log arguments of \<open>util.go\<close> (\<open>formatArgsListForLog\<close>, \<open>summarizeForLog\<close>,
  \<open>newLoggingFile\<close>) and \<open>WrappingFile\<close> of \<open>wrapping_file.go\<close>, which calls one function before
  and one after every method of the file it wraps.
\<close>

subsection \<open>Log arguments\<close>

text \<open>
  The dynamic values that are logged. \<open>ArgOther\<close> is a value of another type (a pointer, a
  time), given by the text \<open>fmt\<close> prints for it.
\<close>

datatype log_arg =
    ArgBytes "byte list"
  | ArgReadResult read_result
  | ArgInt int
  | ArgUint nat
  | ArgString string
  | ArgOther string

definition hex_char :: "nat \<Rightarrow> char" where
  "hex_char d = (if d < 10 then char_of (48 + d) else char_of (87 + d))"

fun show_hex :: "nat \<Rightarrow> string" where
  "show_hex n = (if n < 16 then [hex_char n] else show_hex (n div 16) @ [hex_char (n mod 16)])"

declare show_hex.simps [simp del]

text \<open>
  A string between double quotes, with Go's escapes for ASCII; the bytes of a longer character
  stay as they are.
\<close>

definition quote_char :: "char \<Rightarrow> string" where
  "quote_char c =
     (let n = of_char c :: nat in
      if n = 34 then [CHR 0x5C, CHR 0x22]
      else if n = 92 then [CHR 0x5C, CHR 0x5C]
      else if n = 7 then CHR 0x5C # ''a''
      else if n = 8 then CHR 0x5C # ''b''
      else if n = 9 then CHR 0x5C # ''t''
      else if n = 10 then CHR 0x5C # ''n''
      else if n = 11 then CHR 0x5C # ''v''
      else if n = 12 then CHR 0x5C # ''f''
      else if n = 13 then CHR 0x5C # ''r''
      else if n < 32 \<or> n = 127 then CHR 0x5C # CHR ''x'' # [hex_char (n div 16), hex_char (n mod 16)]
      else [c])"

definition go_quote :: "string \<Rightarrow> string" where
  "go_quote s = CHR 0x22 # concat (map quote_char s) @ [CHR 0x22]"

text \<open>\<open>summarizeForLog\<close> replaces bytes by their number.\<close>

fun summarize :: "log_arg \<Rightarrow> log_arg" where
  "summarize (ArgBytes b) = ArgString (''[]byte('' @ show_nat (length b) @ '')'')"
| "summarize (ArgReadResult r) = ArgString (''fuse.ReadResult('' @ show_nat (read_size r) @ '')'')"
| "summarize a = a"

definition summarizeForLog :: "log_arg list \<Rightarrow> log_arg list" where
  "summarizeForLog vals = map summarize vals"

text \<open>The format \<open>%#v\<close>. No bytes are left when it is used.\<close>

fun format_arg :: "log_arg \<Rightarrow> string" where
  "format_arg (ArgInt n) = itoa n"
| "format_arg (ArgUint n) = ''0x'' @ show_hex n"
| "format_arg (ArgString s) = go_quote s"
| "format_arg (ArgOther s) = s"
| "format_arg (ArgBytes b) = ''[]byte{'' @ join_with '', '' (map (\<lambda>w. ''0x'' @ show_hex (unat w)) b) @ ''}''"
| "format_arg (ArgReadResult r) = ''fuse.ReadResult''"

definition formatArgsListForLog :: "log_arg list \<Rightarrow> string" where
  "formatArgsListForLog args =
     (if args = [] then ''''
      else CHR ''['' # join_with '', '' (map format_arg (summarizeForLog args)) @ '']'')"

text \<open>What the log may depend on: of bytes only their number.\<close>

fun arg_shape :: "log_arg \<Rightarrow> log_arg" where
  "arg_shape (ArgBytes b) = ArgBytes (replicate (length b) 0)"
| "arg_shape (ArgReadResult r) = ArgReadResult (ReadResultData (replicate (read_size r) 0))"
| "arg_shape a = a"

lemma summarize_shape: "summarize (arg_shape a) = summarize a"
  by (cases a) simp_all

lemma formatArgs_shape: "formatArgsListForLog (map arg_shape args) = formatArgsListForLog args"
  by (simp add: formatArgsListForLog_def summarizeForLog_def comp_def summarize_shape)

lemma formatArgs_Nil_iff: "formatArgsListForLog args = '''' \<longleftrightarrow> args = []"
  by (simp add: formatArgsListForLog_def)

subsection \<open>WrappingFile\<close>

text \<open>
  \<open>nodefs.File\<close>, as a record of its methods over the state \<open>'s\<close> of the file; the modification
  times, the inode and the output of \<open>GetAttr\<close> are what the wrapper passes through.
\<close>

record 's node_file =
  nf_SetInode :: "string \<Rightarrow> 's \<Rightarrow> 's"
  nf_Read :: "byte list \<Rightarrow> int \<Rightarrow> 's \<Rightarrow> (read_result \<times> status) \<times> 's"
  nf_Write :: "byte list \<Rightarrow> int \<Rightarrow> 's \<Rightarrow> (nat \<times> status) \<times> 's"
  nf_Flush :: "'s \<Rightarrow> status \<times> 's"
  nf_Release :: "'s \<Rightarrow> 's"
  nf_Fsync :: "int \<Rightarrow> 's \<Rightarrow> status \<times> 's"
  nf_Truncate :: "nat \<Rightarrow> 's \<Rightarrow> status \<times> 's"
  nf_GetAttr :: "'s \<Rightarrow> (fuse_attr \<times> status) \<times> 's"
  nf_Chown :: "nat \<Rightarrow> nat \<Rightarrow> 's \<Rightarrow> status \<times> 's"
  nf_Chmod :: "nat \<Rightarrow> 's \<Rightarrow> status \<times> 's"
  nf_Utimens :: "string \<Rightarrow> string \<Rightarrow> 's \<Rightarrow> status \<times> 's"
  nf_Allocate :: "nat \<Rightarrow> nat \<Rightarrow> nat \<Rightarrow> 's \<Rightarrow> status \<times> 's"

text \<open>
  The two callbacks: \<open>BeforeCall\<close> makes the value of the call (for the logging file, a log
  entry), \<open>AfterCall\<close> takes it with the status, if there is one, and the other results.
\<close>

record ('s, 'call, 'out) wrapping_file =
  wf_File :: "'s node_file"
  wf_BeforeCall :: "string \<Rightarrow> log_arg list \<Rightarrow> 'call"
  wf_AfterCall :: "'call \<Rightarrow> status option \<Rightarrow> log_arg list \<Rightarrow> 'out go"

definition wf_SetInode where
  "wf_SetInode f inode s =
     (let call = wf_BeforeCall f ''SetInode'' [ArgOther inode]; s' = nf_SetInode (wf_File f) inode s
      in go_bind (wf_AfterCall f call None []) (\<lambda>out. Return (out, s')))"

definition wf_Read where
  "wf_Read f dest off s =
     (let call = wf_BeforeCall f ''Read'' [ArgBytes dest, ArgInt off]
      in case nf_Read (wf_File f) dest off s of
           ((result, code), s') \<Rightarrow>
             go_bind (wf_AfterCall f call (Some code) [ArgReadResult result]) (\<lambda>out.
               Return ((result, code), out, s')))"

definition wf_Write where
  "wf_Write f data off s =
     (let call = wf_BeforeCall f ''Write'' [ArgBytes data, ArgInt off]
      in case nf_Write (wf_File f) data off s of
           ((written, code), s') \<Rightarrow>
             go_bind (wf_AfterCall f call (Some code) [ArgUint written]) (\<lambda>out.
               Return ((written, code), out, s')))"

text \<open>The methods that return a status and nothing else.\<close>

definition wf_status_call where
  "wf_status_call f name args method s =
     (let call = wf_BeforeCall f name args
      in case method s of
           (code, s') \<Rightarrow>
             go_bind (wf_AfterCall f call (Some code) []) (\<lambda>out. Return (code, out, s')))"

definition wf_Flush where
  "wf_Flush f = wf_status_call f ''Flush'' [] (nf_Flush (wf_File f))"

definition wf_Release where
  "wf_Release f s =
     (let call = wf_BeforeCall f ''Release'' []; s' = nf_Release (wf_File f) s
      in go_bind (wf_AfterCall f call None []) (\<lambda>out. Return (out, s')))"

definition wf_Fsync where
  "wf_Fsync f flags = wf_status_call f ''Fsync'' [ArgInt flags] (nf_Fsync (wf_File f) flags)"

definition wf_Truncate where
  "wf_Truncate f sz = wf_status_call f ''Truncate'' [ArgUint sz] (nf_Truncate (wf_File f) sz)"

definition wf_GetAttr where
  "wf_GetAttr f out s =
     (let call = wf_BeforeCall f ''GetAttr'' [ArgOther out]
      in case nf_GetAttr (wf_File f) s of
           ((attr, code), s') \<Rightarrow>
             go_bind (wf_AfterCall f call (Some code) []) (\<lambda>o'. Return ((attr, code), o', s')))"

definition wf_Chown where
  "wf_Chown f uid gid =
     wf_status_call f ''Chown'' [ArgUint uid, ArgUint gid] (nf_Chown (wf_File f) uid gid)"

definition wf_Chmod where
  "wf_Chmod f perms = wf_status_call f ''Chmod'' [ArgUint perms] (nf_Chmod (wf_File f) perms)"

definition wf_Utimens where
  "wf_Utimens f atime mtime =
     wf_status_call f ''Utimens'' [ArgOther atime, ArgOther mtime] (nf_Utimens (wf_File f) atime mtime)"

definition wf_Allocate where
  "wf_Allocate f off sz mode =
     wf_status_call f ''Allocate'' [ArgUint off, ArgUint sz, ArgUint mode]
       (nf_Allocate (wf_File f) off sz mode)"

subsection \<open>The logging file\<close>

text \<open>\<open>AfterCall\<close> of the logging file: the entry as it is when \<open>FinishOperation\<close> is called.\<close>

definition logging_AfterCall ::
  "'x log_entry \<Rightarrow> status option \<Rightarrow> log_arg list \<Rightarrow> 'x log_entry go" where
  "logging_AfterCall logEntry status results =
     go_bind (case status of
         None \<Rightarrow> Return logEntry
       | Some s \<Rightarrow> go_bind (log_Status (fuseStatusToErrno s) logEntry) (\<lambda>(_, r). Return r))
       (log_Result (formatArgsListForLog results))"

definition newLoggingFile :: "'s node_file \<Rightarrow> string \<Rightarrow> ('s, 'x log_entry, 'x log_entry) wrapping_file" where
  "newLoggingFile file path =
     \<lparr>wf_File = file,
      wf_BeforeCall = (\<lambda>method args. StartFileOperation method path (formatArgsListForLog args)),
      wf_AfterCall = logging_AfterCall\<rparr>"

text \<open>Logging a call of the logging file never panics, and records its status.\<close>

definition logged :: "string \<Rightarrow> string \<Rightarrow> log_arg list \<Rightarrow> status option \<Rightarrow> log_arg list \<Rightarrow> 'x log_entry" where
  "logged method path args status results =
     (StartFileOperation method path (formatArgsListForLog args))
       \<lparr>le_status := map_option fuseStatusToErrno status, le_result := formatArgsListForLog results\<rparr>"

lemma logging_call [simp]:
  "wf_AfterCall (newLoggingFile file path) (wf_BeforeCall (newLoggingFile file path) m args) st res =
     Return (logged m path args st res)"
  by (cases st)
    (simp_all add: newLoggingFile_def logging_AfterCall_def logged_def log_Status_def log_Result_def
      StartFileOperation_def StartOperation_def)

lemma wf_File_logging [simp]: "wf_File (newLoggingFile file path) = file"
  by (simp add: newLoggingFile_def)

lemma wf_status_call_logging:
  "wf_status_call (newLoggingFile file path) m args method s =
     (case method s of (code, s') \<Rightarrow> Return (code, logged m path args (Some code) [], s'))"
  by (simp add: wf_status_call_def Let_def split: prod.splits)

lemma wf_Read_logging:
  "wf_Read (newLoggingFile file path) dest off s =
     (case nf_Read file dest off s of
        ((r, code), s') \<Rightarrow>
          Return ((r, code), logged ''Read'' path [ArgBytes dest, ArgInt off] (Some code) [ArgReadResult r], s'))"
  by (simp add: wf_Read_def Let_def split: prod.splits)

lemma wf_Write_logging:
  "wf_Write (newLoggingFile file path) data off s =
     (case nf_Write file data off s of
        ((n, code), s') \<Rightarrow>
          Return ((n, code), logged ''Write'' path [ArgBytes data, ArgInt off] (Some code) [ArgUint n], s'))"
  by (simp add: wf_Write_def Let_def split: prod.splits)

text \<open>The log entry of a call shows of the bytes it moved only how many there were.\<close>

lemma logged_shape:
  "map arg_shape args = map arg_shape args' \<Longrightarrow> map arg_shape results = map arg_shape results' \<Longrightarrow>
   logged m path args st results = logged m path args' st results'"
  by (metis formatArgs_shape logged_def)

end
