(* ===== verification/Adb_File.thy ===== *)
theory Adb_File
  imports Open_Files Wrapping_File
begin

text \<open>
  \<open>AdbFile\<close> of \<open>adb_file.go\<close>: an open file, which is a set of flags and a shared
  \<open>FileBuffer\<close>. Each method returns its result, its log entry as it is when it is finished,
  and the buffer and the world; \<open>Release\<close> works on the open files, since the last one
  removes the buffer from the map.
\<close>

record adb_file =
  af_Flags :: flags
  af_FileBuffer :: nat

definition NewAdbFile :: "flags \<Rightarrow> nat \<Rightarrow> adb_file" where
  "NewAdbFile flags a = \<lparr>af_Flags = flags, af_FileBuffer = a\<rparr>"

text \<open>The entry \<open>NewAdbFile\<close> logs; \<open>opts\<close> is the text \<open>fmt.Sprint\<close> makes of the options.\<close>

definition NewAdbFile_log :: "string \<Rightarrow> string \<Rightarrow> 'x log_entry" where
  "NewAdbFile_log path opts = StartFileOperation ''New'' path opts"

text \<open>\<open>getAttr\<close> of \<open>adb_filesystem.go\<close>, used here and there; \<open>attr\<close> is what it overwrites.\<close>

definition getAttr ::
  "'x goadb \<Rightarrow> string \<Rightarrow> ('d, 'x) device_client \<Rightarrow> 'x log_entry \<Rightarrow> fuse_attr \<Rightarrow> 'd \<Rightarrow>
   ('x err option \<times> fuse_attr \<times> 'x log_entry \<times> 'd) go" where
  "getAttr u name client log attr d =
     (case Stat client name log d of
        (Inl err, log', d') \<Rightarrow> Return (Some err, attr, log', d')
      | (Inr entry, log', d') \<Rightarrow>
          go_bind (log_Result (''entry='' @ FormatEntry u entry @ '', attr='' @ FormatAttr u (asFuseAttr entry)) log')
            (\<lambda>log''. Return (None, asFuseAttr entry, log'', d')))"

definition startFileOperation :: "string \<Rightarrow> log_arg list \<Rightarrow> ('d, 'x) file_buffer \<Rightarrow> 'x log_entry" where
  "startFileOperation name args f = StartFileOperation name (fb_Path f) (formatArgsListForLog args)"

definition af_Read ::
  "'x goadb \<Rightarrow> flags \<Rightarrow> byte list \<Rightarrow> int \<Rightarrow> ('d, 'x) file_buffer \<Rightarrow>
   (read_result \<times> status \<times> 'x log_entry) go" where
  "af_Read u flags buf off f =
     (let logEntry = startFileOperation ''Read'' [ArgBytes buf, ArgInt off] f in
      if \<not> CanRead flags then readError u ErrNotPermitted logEntry
      else
        go_bind (fb_ReadAt f buf off) (\<lambda>(n, err, buf').
          case (if err = Some EOF then None else err) of
            Some e \<Rightarrow> readError u e logEntry
          | None \<Rightarrow>
              go_bind (log_Result (''read '' @ itoa n @ '' bytes'') logEntry) (\<lambda>r.
              go_bind (toFuseStatusLog u (Some (Errno OK)) r) (\<lambda>(st, r').
                Return (ReadResultData (take (nat n) buf'), st, r')))))"

definition af_Fsync ::
  "'x goadb \<Rightarrow> int \<Rightarrow> ('d, 'x) file_buffer \<Rightarrow> 'd world \<Rightarrow>
   (status \<times> 'x log_entry \<times> ('d, 'x) file_buffer \<times> 'd world) go" where
  "af_Fsync u flags f w =
     (let logEntry = startFileOperation ''Fsync'' [ArgInt flags] f in
      go_bind (fb_Sync u f w) (\<lambda>(err, f', w').
      go_bind (toFuseStatusLog u err logEntry) (\<lambda>(st, r).
        Return (st, r, f', w'))))"

definition af_GetAttr ::
  "'x goadb \<Rightarrow> fuse_attr \<Rightarrow> ('d, 'x) file_buffer \<Rightarrow> 'd world \<Rightarrow>
   (fuse_attr \<times> status \<times> 'x log_entry \<times> 'd world) go" where
  "af_GetAttr u out f w =
     (let logEntry = startFileOperation ''GetAttr'' [] f in
      go_bind (getAttr u (fb_Path f) (fb_Client f) logEntry out (w_dev w)) (\<lambda>(err, attr, r, d).
      go_bind (toFuseStatusLog u err r) (\<lambda>(st, r').
        Return (attr, st, r', w\<lparr>w_dev := d\<rparr>))))"

definition af_Write ::
  "'x goadb \<Rightarrow> flags \<Rightarrow> byte list \<Rightarrow> int \<Rightarrow> ('d, 'x) file_buffer \<Rightarrow> 'd world \<Rightarrow>
   ((int \<times> status) \<times> 'x log_entry \<times> ('d, 'x) file_buffer \<times> 'd world) go" where
  "af_Write u flags data off f w =
     (let logEntry = startFileOperation ''Write'' [ArgBytes data, ArgInt off] f in
      if \<not> CanWrite flags then
        go_bind (toFuseStatusLog u (Some ErrNotPermitted) logEntry) (\<lambda>(st, r). Return ((0, st), r, f, w))
      else
        go_bind (fb_WriteAt data off f w) (\<lambda>(n, f1, w1).
        go_bind (log_Result (''wrote '' @ itoa n @ '' bytes'') logEntry) (\<lambda>r.
        go_bind (fb_SyncIfTooDirty u f1 w1) (\<lambda>(err, f2, w2).
        go_bind (case err of
                   None \<Rightarrow> Return None
                 | Some e \<Rightarrow>
                     go_bind (WrapErrf u e ''write successful, but error syncing after write'')
                       (\<lambda>e'. Return (Some e'))) (\<lambda>err'.
        go_bind (toFuseStatusLog u err' r) (\<lambda>(st, r').
          Return ((n mod 2 ^ 32, st), r', f2, w2)))))))"

definition af_Flush ::
  "'x goadb \<Rightarrow> flags \<Rightarrow> ('d, 'x) file_buffer \<Rightarrow> 'd world \<Rightarrow>
   (status \<times> 'x log_entry \<times> ('d, 'x) file_buffer \<times> 'd world) go" where
  "af_Flush u flags f w =
     (let logEntry = startFileOperation ''Flush'' [] f in
      if \<not> CanWrite flags then
        go_bind (toFuseStatusLog u (Some (Errno OK)) logEntry) (\<lambda>(st, r). Return (st, r, f, w))
      else
        go_bind (fb_Flush u f w) (\<lambda>(err, f', w').
        go_bind (toFuseStatusLog u err logEntry) (\<lambda>(st, r). Return (st, r, f', w'))))"

text \<open>The size is unsigned; \<open>int64(size)\<close> wraps.\<close>

definition af_Truncate ::
  "'x goadb \<Rightarrow> flags \<Rightarrow> nat \<Rightarrow> ('d, 'x) file_buffer \<Rightarrow> 'd world \<Rightarrow>
   (status \<times> 'x log_entry \<times> ('d, 'x) file_buffer \<times> 'd world) go" where
  "af_Truncate u flags sz f w =
     (let logEntry = startFileOperation ''Truncate'' [ArgUint sz, ArgInt 10] f in
      if \<not> CanWrite flags then
        go_bind (toFuseStatusLog u (Some ErrNotPermitted) logEntry) (\<lambda>(st, r). Return (st, r, f, w))
      else
        go_bind (fb_SetSize (wrap64 (int sz)) f w) (\<lambda>(f1, w1).
        go_bind (fb_Sync u f1 w1) (\<lambda>(err, f2, w2).
        go_bind (toFuseStatusLog u err logEntry) (\<lambda>(st, r). Return (st, r, f2, w2)))))"

definition af_Release ::
  "nat \<Rightarrow> ('d, 'x) open_files \<Rightarrow> ('x log_entry \<times> ('d, 'x) open_files) go" where
  "af_Release a fs =
     go_bind (of_DecRefCount a fs) (\<lambda>(n, fs').
       Return (startFileOperation ''Release'' [] (of_heap fs ! a), fs'))"

subsection \<open>Permission checks\<close>

lemma unreported_startFile [simp]:
  "unreported (startFileOperation m args f)" "le_result (startFileOperation m args f) = []"
  by (simp_all add: startFileOperation_def)

lemma af_refused:
  "\<not> CanRead flags \<Longrightarrow> af_Read u flags buf off f =
     Return (ErrorReadResult (fuseStatus EPERM), fuseStatus EPERM,
       reported u (Some ErrNotPermitted) (startFileOperation ''Read'' [ArgBytes buf, ArgInt off] f))"
  "\<not> CanWrite flags \<Longrightarrow> af_Write u flags data off f w =
     Return ((0, fuseStatus EPERM),
       reported u (Some ErrNotPermitted) (startFileOperation ''Write'' [ArgBytes data, ArgInt off] f), f, w)"
  "\<not> CanWrite flags \<Longrightarrow> af_Truncate u flags sz f w =
     Return (fuseStatus EPERM,
       reported u (Some ErrNotPermitted) (startFileOperation ''Truncate'' [ArgUint sz, ArgInt 10] f), f, w)"
  by (simp_all add: af_Read_def af_Write_def af_Truncate_def Let_def)

text \<open>Flushing a file that cannot be written does nothing and succeeds.\<close>

lemma af_Flush_readonly:
  assumes "\<not> CanWrite flags" and "toErrno u (Some (Errno OK)) = OK"
  shows "af_Flush u flags f w =
    Return (fuseStatus OK, reported u (Some (Errno OK)) (startFileOperation ''Flush'' [] f), f, w)"
  using assms by (simp add: af_Flush_def Let_def)

subsection \<open>Reading\<close>

lemma toErrno_Errno_OK [simp]: "toErrno u (Some (Errno OK)) = OK"
  by (simp add: toErrno_def)

lemma af_Read_bytes:
  assumes "CanRead flags" and "wf_slice (fb_buffer f)" and "0 \<le> off"
  shows "\<exists>r. af_Read u flags buf off f =
    Return (ReadResultData (take (length buf) (drop (nat off) (fb_Contents f))), fuseStatus OK, r)"
proof -
  define src where "src = drop (nat off) (fb_Contents f)"
  define n where "n = min (length buf) (length src)"
  define e :: "'b err option" where
    "e = (if int (length (fb_Contents f)) \<le> off + int n then Some EOF else None)"
  have g: "fb_ReadAt f buf off = Return (int n, e, take n src @ drop n buf)"
    using gbs_read_at_spec [OF assms(2,3), of buf]
    by (simp add: fb_ReadAt_def Let_def e_def flip: fb_Contents_def src_def n_def)
  have t: "take n (take n src @ drop n buf) = take (length buf) src"
    by (simp add: n_def min_def)
  have e': "(if e = Some EOF then None else e) = None" by (simp add: e_def)
  show ?thesis
    using assms(1) by (simp add: af_Read_def g e' t Let_def del: take_append flip: src_def)
qed

subsection \<open>Writing and flushing\<close>

lemma fb_SyncIfTooDirty_cases:
  assumes "fb_SyncIfTooDirty u f w = Return (err, f', w')"
  shows "f' = f \<or> f' = f\<lparr>fb_dirty := dirty_new\<rparr>"
proof -
  obtain late k where k: "dirty_for clock_now (fb_DirtyTimeout f) (fb_dirty f) (w_clock w) = (late, k)"
    by fastforce
  show ?thesis
  proof (cases late)
    case True
    then have "saveToDevice u f (w\<lparr>w_clock := k\<rparr>) = Return (err, f', w')"
      using assms k by (simp add: fb_SyncIfTooDirty_def)
    from saveToDevice_buffer(1) [OF this] show ?thesis by (cases err) simp_all
  next
    case False
    then show ?thesis using assms k by (simp add: fb_SyncIfTooDirty_def)
  qed
qed

context file_device begin

text \<open>Writing through an open file overwrites the contents, whether or not it also saves.\<close>

lemma af_Write_contents:
  assumes "CanWrite flags" and "write_ready f off" and "good_clock (w_clock w)"
    and "0 \<le> off" and "off + int (length data) \<le> buffer_limit" and "length data < 2 ^ 32"
    and "fb_Client f = c" and "valid (w_dev w)" and "writable (w_dev w) (fb_Path f)"
  shows "\<exists>r f' w'. af_Write u flags data off f w = Return ((int (length data), fuseStatus OK), r, f', w') \<and>
    fb_Contents f' = overwrite (fb_Contents f) (nat off) data \<and> wf_slice (fb_buffer f') \<and>
    (good_slice (fb_buffer f) \<longrightarrow> good_slice (fb_buffer f')) \<and>
    same_file f f' \<and> valid (w_dev w') \<and> good_clock (w_clock w') \<and>
    writable (w_dev w') = writable (w_dev w) \<and>
    (fb_IsDirty f' \<or> files (w_dev w') (fb_Path f) = Some (fb_Contents f')) \<and>
    keeps_others files writable (fb_Path f) (w_dev w) (w_dev w')"
proof -
  obtain f1 w1 where w1: "fb_WriteAt data off f w = Return (int (length data), f1, w1)"
    "fb_Contents f1 = overwrite (fb_Contents f) (nat off) data" "wf_slice (fb_buffer f1)"
    "fb_IsDirty f1" "same_file f f1" "w_dev w1 = w_dev w" "good_clock (w_clock w1)"
    "good_slice (fb_buffer f) \<longrightarrow> good_slice (fb_buffer f1)"
    using fb_WriteAt_contents [OF assms(2-5)] by blast
  note f1 = same_file_fields [OF w1(5)]
  obtain late k where k: "dirty_for clock_now (fb_DirtyTimeout f1) (fb_dirty f1) (w_clock w1) = (late, k)"
    by fastforce
  have gk: "good_clock k"
    using k w1(7) system_clock.now_valid [of "w_clock w1"]
    by (auto simp: dirty_for_def split: if_splits prod.splits)
  have n: "int (length data) mod 2 ^ 32 = int (length data)" using assms(6) by (simp flip: of_nat_less_iff)
  show ?thesis
  proof (cases late)
    case False
    then have "fb_SyncIfTooDirty u f1 w1 = Return (None, f1, w1\<lparr>w_clock := k\<rparr>)"
      using k by (simp add: fb_SyncIfTooDirty_def)
    then show ?thesis
      using assms(1,8) w1 gk n by (simp add: af_Write_def Let_def)
  next
    case True
    obtain d' where s: "saveToDevice u f1 (w1\<lparr>w_clock := k\<rparr>) =
        Return (None, f1\<lparr>fb_dirty := dirty_new\<rparr>, w1\<lparr>w_clock := k, w_dev := d'\<rparr>)"
      "valid d'" "files d' = (files (w_dev w))(fb_Path f \<mapsto> fb_Contents f1)" "writable d' = writable (w_dev w)"
      using saveToDevice_store [of f1 "w1\<lparr>w_clock := k\<rparr>" u] assms(7-9) f1(1,3) w1(3,6) by auto
    then have "fb_SyncIfTooDirty u f1 w1 =
        Return (None, f1\<lparr>fb_dirty := dirty_new\<rparr>, w1\<lparr>w_clock := k, w_dev := d'\<rparr>)"
      using k True by (simp add: fb_SyncIfTooDirty_def)
    then show ?thesis
      using assms(1) w1 gk n s same_file_trans [OF w1(5) same_file_update(2)]
      by (simp add: af_Write_def Let_def fb_Contents_def keeps_others_def)
  qed
qed

text \<open>Flushing after a write leaves the new contents on the device and a clean buffer.\<close>

lemma af_Flush_store:
  assumes "CanWrite flags" and "wf_slice (fb_buffer f)" and "fb_Client f = c"
    and "valid (w_dev w)" and "writable (w_dev w) (fb_Path f)"
    and "fb_IsDirty f \<or> files (w_dev w) (fb_Path f) = Some (fb_Contents f)"
  shows "\<exists>r f' w'. af_Flush u flags f w = Return (fuseStatus OK, r, f', w') \<and>
    files (w_dev w') (fb_Path f) = Some (fb_Contents f) \<and> fb_Contents f' = fb_Contents f \<and>
    \<not> fb_IsDirty f'"
proof (cases "fb_IsDirty f")
  case True
  then obtain d' where "fb_Flush u f w = Return (None, f\<lparr>fb_dirty := dirty_new\<rparr>, w\<lparr>w_dev := d'\<rparr>)"
    "files d' = (files (w_dev w))(fb_Path f \<mapsto> fb_Contents f)"
    using fb_Flush_store [OF assms(3,4,5,2) True, of u] by blast
  then show ?thesis
    using assms(1) by (simp add: af_Flush_def Let_def fb_Contents_def fb_IsDirty_def)
next
  case False
  then show ?thesis
    using assms(1,6) fb_Flush_clean [OF False, of u w] by (simp add: af_Flush_def Let_def)
qed

lemma af_Write_Flush:
  assumes "CanWrite flags" and "write_ready f off" and "good_clock (w_clock w)"
    and "0 \<le> off" and "off + int (length data) \<le> buffer_limit" and "length data < 2 ^ 32"
    and "fb_Client f = c" and "valid (w_dev w)" and "writable (w_dev w) (fb_Path f)"
  shows "\<exists>r1 f1 w1 r2 f2 w2.
    af_Write u flags data off f w = Return ((int (length data), fuseStatus OK), r1, f1, w1) \<and>
    af_Flush u flags f1 w1 = Return (fuseStatus OK, r2, f2, w2) \<and>
    files (w_dev w2) (fb_Path f) = Some (overwrite (fb_Contents f) (nat off) data) \<and>
    fb_Contents f2 = overwrite (fb_Contents f) (nat off) data \<and> \<not> fb_IsDirty f2"
proof -
  obtain r1 f1 w1 where w: "af_Write u flags data off f w = Return ((int (length data), fuseStatus OK), r1, f1, w1)"
    "fb_Contents f1 = overwrite (fb_Contents f) (nat off) data" "wf_slice (fb_buffer f1)"
    "same_file f f1" "valid (w_dev w1)" "writable (w_dev w1) = writable (w_dev w)"
    "fb_IsDirty f1 \<or> files (w_dev w1) (fb_Path f) = Some (fb_Contents f1)"
    using af_Write_contents [OF assms, of u] by blast
  note f1 = same_file_fields [OF w(4)]
  obtain r2 f2 w2 where "af_Flush u flags f1 w1 = Return (fuseStatus OK, r2, f2, w2)"
    "files (w_dev w2) (fb_Path f1) = Some (fb_Contents f1)" "fb_Contents f2 = fb_Contents f1"
    "\<not> fb_IsDirty f2"
    using af_Flush_store [OF assms(1), of f1 w1 u] w(3,5,6,7) f1 assms(7,9) by auto
  with w(1,2) f1(1) show ?thesis by fastforce
qed

text \<open>When a write is saved: the policy of the dirty timeout.\<close>

lemma af_Write_policy:
  assumes "CanWrite flags" and "write_ready f off" and "good_clock (w_clock w)"
    and "0 \<le> off" and "off + int (length data) \<le> buffer_limit" and "length data < 2 ^ 32"
    and "fb_Client f = c" and "valid (w_dev w)" and "writable (w_dev w) (fb_Path f)"
    and "fb_IsDirty f" and "clock_now (w_clock w) = (now, k)"
  shows "\<exists>r f' w'. af_Write u flags data off f w = Return ((int (length data), fuseStatus OK), r, f', w') \<and>
    (if fb_dirty f + fb_DirtyTimeout f < now
     then \<not> fb_IsDirty f' \<and> files (w_dev w') (fb_Path f) = Some (overwrite (fb_Contents f) (nat off) data)
     else fb_dirty f' = fb_dirty f \<and> w_dev w' = w_dev w)"
proof -
  have set: "fb_set_dirty f w = (f, w)"
    using assms(10) by (cases f) (simp add: fb_set_dirty_def fb_IsDirty_def dirty_is_set_def dirty_set_def)
  have r: "wf_slice (fb_buffer f)" "slack_zero (fb_buffer f) \<or> off \<le> int (used (fb_buffer f))"
    using assms(2) by (simp_all add: write_ready_def fb_Size_def gbs_len_def)
  obtain b where b: "gbs_write_at data off (fb_buffer f) = Return (int (length data), b)" "wf_slice b"
    "gbs_data b = overwrite (gbs_data (fb_buffer f)) (nat off) data"
    using gbs_write_at_spec [OF r(1) assms(4,5) r(2)] by blast
  define f1 where "f1 = f\<lparr>fb_buffer := b\<rparr>"
  have w1: "fb_WriteAt data off f w = Return (int (length data), f1, w)"
    using set b(1) by (simp add: fb_WriteAt_def f1_def)
  have f1: "fb_Client f1 = c" "fb_Path f1 = fb_Path f" "wf_slice (fb_buffer f1)"
    "fb_Contents f1 = overwrite (fb_Contents f) (nat off) data" "fb_dirty f1 = fb_dirty f"
    "fb_DirtyTimeout f1 = fb_DirtyTimeout f"
    using b assms(7) by (simp_all add: f1_def fb_Contents_def)
  have late: "dirty_for clock_now (fb_DirtyTimeout f1) (fb_dirty f1) (w_clock w) =
      (fb_dirty f + fb_DirtyTimeout f < now, k)"
    using assms(10,11) f1 by (simp add: dirty_for_def fb_IsDirty_def)
  have n: "int (length data) mod 2 ^ 32 = int (length data)" using assms(6) by (simp flip: of_nat_less_iff)
  show ?thesis
  proof (cases "fb_dirty f + fb_DirtyTimeout f < now")
    case True
    obtain d' where s: "saveToDevice u f1 (w\<lparr>w_clock := k\<rparr>) =
        Return (None, f1\<lparr>fb_dirty := dirty_new\<rparr>, w\<lparr>w_clock := k, w_dev := d'\<rparr>)"
      "files d' = (files (w_dev w))(fb_Path f \<mapsto> fb_Contents f1)"
      using saveToDevice_store [of f1 "w\<lparr>w_clock := k\<rparr>" u] assms(8,9) f1 by auto
    have "fb_SyncIfTooDirty u f1 w =
        Return (None, f1\<lparr>fb_dirty := dirty_new\<rparr>, w\<lparr>w_clock := k, w_dev := d'\<rparr>)"
      using late True s(1) by (simp add: fb_SyncIfTooDirty_def)
    then show ?thesis
      using assms(1) w1 True s(2) f1(4) n by (simp add: af_Write_def Let_def fb_IsDirty_def)
  next
    case False
    then have "fb_SyncIfTooDirty u f1 w = Return (None, f1, w\<lparr>w_clock := k\<rparr>)"
      using late by (simp add: fb_SyncIfTooDirty_def)
    then show ?thesis
      using assms(1) w1 False f1(5) n by (simp add: af_Write_def Let_def)
  qed
qed

end

end
