(* ===== verification/Link_Resolution.thy ===== *)
theory Link_Resolution
  imports Device_Client Go_Text
begin

text \<open>
  \<open>readLink\<close> and \<open>readLinkRecursively\<close> of \<open>adb_filesystem.go\<close>. The loop that follows links is
  a recursive function on the depth reached; it stops because the depth is bounded. The text
  it collects goes into the message of a wrapped error.
\<close>

definition MaxLinkResolveDepth :: nat where
  "MaxLinkResolveDepth = 64"

definition line_end :: string where
  "line_end = [CHR 0x0D, CHR 0x0A]"

definition readLink :: "('d, 'x) device_client \<Rightarrow> string \<Rightarrow> 'd \<Rightarrow> ('x err + string) \<times> 'd" where
  "readLink client path d =
     (case RunCommand client ''readlink'' [path] d of
        (Inl err, d') \<Rightarrow> (Inl err, d')
      | (Inr output, d') \<Rightarrow>
          let result = trim_suffix output line_end in
          if result = ReadlinkInvalidArgument then (Inl ErrNotALink, d')
          else if result = ReadlinkPermissionDenied then (Inl ErrNoPermission, d')
          else (Inr result, d'))"

text \<open>The line the loop prints after it has read a link: a space, U+279C, the target.\<close>

definition arrow_line :: "string \<Rightarrow> string" where
  "arrow_line path = '' '' @ [CHR 0xE2, CHR 0x9E, CHR 0x9C] @ '' '' @ path @ [CHR 0x0A]"

function follow_links ::
  "'x goadb \<Rightarrow> ('d, 'x) device_client \<Rightarrow> nat \<Rightarrow> string \<Rightarrow> dir_entry \<Rightarrow> string \<Rightarrow> 'x log_entry \<Rightarrow> 'd \<Rightarrow>
   (('x err + string \<times> dir_entry) \<times> 'x log_entry \<times> 'd) go" where
  "follow_links u device currentDepth path entry result log d =
     (if \<not> is_symlink (de_mode entry) then Return (Inr (path, entry), log, d)
      else if currentDepth > MaxLinkResolveDepth then Return (Inl ErrLinkTooDeep, log, d)
      else
        let result1 = result @ path @ [CHR 0x0A] in
        case readLink device path d of
          (Inl err, d1) \<Rightarrow>
            go_bind (WrapErrf u err (''reading link: '' @ result1)) (\<lambda>e. Return (Inl e, log, d1))
        | (Inr path', d1) \<Rightarrow>
            let result2 = result1 @ arrow_line path' in
            case Stat device path' log d1 of
              (Inl err, log', d2) \<Rightarrow>
                go_bind (WrapErrf u err (''stating '' @ path' @ '': '' @ result2))
                  (\<lambda>e. Return (Inl e, log', d2))
            | (Inr entry', log', d2) \<Rightarrow>
                follow_links u device (Suc currentDepth) path' entry' result2 log' d2)"
  by pat_completeness auto
termination
  by (relation "measure (\<lambda>(u, device, depth, path, entry, result, log, d). Suc MaxLinkResolveDepth - depth)") auto

declare follow_links.simps [simp del]

definition readLinkRecursively ::
  "'x goadb \<Rightarrow> ('d, 'x) device_client \<Rightarrow> string \<Rightarrow> 'x log_entry \<Rightarrow> 'd \<Rightarrow>
   (('x err + string \<times> dir_entry) \<times> 'x log_entry \<times> 'd) go" where
  "readLinkRecursively u device path log d =
     (case Stat device path log d of
        (Inl err, log', d') \<Rightarrow> Return (Inl err, log', d')
      | (Inr entry, log', d') \<Rightarrow>
          follow_links u device 0 path entry
            (''attempting to resolve '' @ path @ '' if it'' @ [CHR 0x27] @ ''s a symlink'' @ [CHR 0x0A]) log' d')"

subsection \<open>What comes out is not a link\<close>

text \<open>One round of the loop, and the rule for what every round keeps.\<close>

lemma follow_links_round:
  "is_symlink (de_mode e) \<Longrightarrow> n \<le> MaxLinkResolveDepth \<Longrightarrow> readLink dev p d = (Inr p', d1) \<Longrightarrow>
   Stat dev p' log d1 = (Inr e1, log1, d2) \<Longrightarrow>
   follow_links u dev n p e t log d =
     follow_links u dev (Suc n) p' e1 ((t @ p @ [CHR 0x0A]) @ arrow_line p') log1 d2"
  by (subst follow_links.simps) (simp add: Let_def)

lemma follow_links_cases:
  assumes "follow_links u dev n p e t log d = Return (res, log', d')"
  obtains (target) "\<not> is_symlink (de_mode e)" "res = Inr (p, e)" "log' = log" "d' = d"
  | (deep) "is_symlink (de_mode e)" "MaxLinkResolveDepth < n" "res = Inl ErrLinkTooDeep" "log' = log" "d' = d"
  | (unread) err x where "is_symlink (de_mode e)" "readLink dev p d = (Inl err, d')" "res = Inl x" "log' = log"
  | (unstated) p' d1 err x where "is_symlink (de_mode e)" "readLink dev p d = (Inr p', d1)"
      "Stat dev p' log d1 = (Inl err, log', d')" "res = Inl x"
  | (follow) p' d1 e1 log1 d2 t' where "is_symlink (de_mode e)" "n \<le> MaxLinkResolveDepth"
      "readLink dev p d = (Inr p', d1)" "Stat dev p' log d1 = (Inr e1, log1, d2)"
      "follow_links u dev (Suc n) p' e1 t' log1 d2 = Return (res, log', d')"
proof (cases "is_symlink (de_mode e)")
  case False
  then show thesis using assms by (intro target) (subst (asm) follow_links.simps; simp)+
next
  case link: True
  show thesis
  proof (cases "MaxLinkResolveDepth < n")
    case True
    then show thesis using assms link by (intro deep) (subst (asm) follow_links.simps; simp)+
  next
    case False
    obtain r d1 where r: "readLink dev p d = (r, d1)" by fastforce
    show thesis
    proof (cases r)
      case (Inl err)
      then obtain x where "res = Inl x" "log' = log" "d' = d1"
        using assms link False r by (subst (asm) follow_links.simps) (auto simp: Let_def elim!: go_bind_ReturnE)
      then show thesis using unread link r Inl by simp
    next
      case (Inr p')
      obtain s log1 d2 where s: "Stat dev p' log d1 = (s, log1, d2)" by (metis surj_pair)
      show thesis
      proof (cases s)
        case Inl': (Inl err)
        then obtain x where "res = Inl x" "log' = log1" "d' = d2"
          using assms link False r s Inr
          by (subst (asm) follow_links.simps) (auto simp: Let_def elim!: go_bind_ReturnE)
        then show thesis using unstated link r s Inr Inl' by simp
      next
        case Inr': (Inr e1)
        from follow_links_round [OF link _ r [unfolded Inr] s [unfolded this], of n u t] False assms
        show thesis using follow [OF link _ r [unfolded Inr] s [unfolded Inr']] by simp
      qed
    qed
  qed
qed

lemma follow_links_rule:
  assumes "follow_links u dev n p e t log d = Return (res, log', d')" and "I log d"
    and "\<And>p log d r d1. I log d \<Longrightarrow> readLink dev p d = (r, d1) \<Longrightarrow> I log d1"
    and "\<And>p log d r log1 d1. I log d \<Longrightarrow> Stat dev p log d = (r, log1, d1) \<Longrightarrow> I log1 d1"
  shows "I log' d' \<and> (case res of Inl _ \<Rightarrow> True | Inr (q, e') \<Rightarrow> \<not> is_symlink (de_mode e'))"
  using assms(1,2)
proof (induction "Suc MaxLinkResolveDepth - n" arbitrary: n p e t log d)
  case 0
  then have "MaxLinkResolveDepth < n" by simp
  from 0(2) show ?case
  proof (cases rule: follow_links_cases)
    case follow
    then show ?thesis using \<open>MaxLinkResolveDepth < n\<close> by simp
  next
    case target
    then show ?thesis using 0(3) by simp
  next
    case deep
    then show ?thesis using 0(3) by simp
  next
    case unread
    then show ?thesis using assms(3) [OF 0(3)] by simp
  next
    case unstated
    then show ?thesis using assms(4) [OF assms(3) [OF 0(3)]] by simp
  qed
next
  case (Suc k)
  from Suc.prems(1) show ?case
  proof (cases rule: follow_links_cases)
    case (follow p' d1 e1 log1 d2 t')
    have "k = Suc MaxLinkResolveDepth - Suc n" using Suc.hyps(2) by simp
    moreover have "I log1 d2" using assms(4) [OF assms(3) [OF Suc.prems(2) follow(3)] follow(4)] .
    ultimately show ?thesis using Suc.hyps(1) [OF _ follow(5)] by blast
  next
    case target
    then show ?thesis using Suc.prems(2) by simp
  next
    case deep
    then show ?thesis using Suc.prems(2) by simp
  next
    case unread
    then show ?thesis using assms(3) [OF Suc.prems(2)] by simp
  next
    case unstated
    then show ?thesis using assms(4) [OF assms(3) [OF Suc.prems(2)]] by simp
  qed
qed

lemma readLinkRecursively_rule:
  assumes "readLinkRecursively u dev p log d = Return (res, log', d')" and "I log d"
    and "\<And>p log d r d1. I log d \<Longrightarrow> readLink dev p d = (r, d1) \<Longrightarrow> I log d1"
    and "\<And>p log d r log1 d1. I log d \<Longrightarrow> Stat dev p log d = (r, log1, d1) \<Longrightarrow> I log1 d1"
  shows "I log' d' \<and> (case res of Inl _ \<Rightarrow> True | Inr (q, e') \<Rightarrow> \<not> is_symlink (de_mode e'))"
proof -
  obtain r log1 d1 where s: "Stat dev p log d = (r, log1, d1)" by (metis surj_pair)
  have i: "I log1 d1" using assms(4) [OF assms(2) s] .
  show ?thesis
  proof (cases r)
    case (Inl x)
    then show ?thesis using assms(1) s i by (auto simp: readLinkRecursively_def)
  next
    case (Inr e)
    then obtain t where "follow_links u dev 0 p e t log1 d1 = Return (res, log', d')"
      using assms(1) s by (simp add: readLinkRecursively_def)
    from follow_links_rule [OF this, of I, OF i assms(3,4)] show ?thesis .
  qed
qed

context log_discipline begin

lemma readLinkRecursively_log:
  assumes "readLinkRecursively u c p log d = Return (res, log', d')"
  shows "same_report log log'"
proof -
  have "same_report log log' \<and> (case res of Inl _ \<Rightarrow> True | Inr (q, e') \<Rightarrow> \<not> is_symlink (de_mode e'))"
    by (rule readLinkRecursively_rule [OF assms, where I = "\<lambda>l d. same_report log l"])
      (auto dest: stat_log intro: same_report_trans)
  then show ?thesis by blast
qed

end

subsection \<open>Chains of links\<close>

text \<open>
  A device on which link number \<open>i\<close> of a chain of \<open>n\<close> points to the next. Where the loop gets
  to the end of the chain, the last path is no link; a longer chain may also be a cycle. What
  the loop returns depends on the length of the chain alone.
\<close>

definition link_chain :: "('d, 'x) device_client \<Rightarrow> (nat \<Rightarrow> string) \<Rightarrow> nat \<Rightarrow> 'd \<Rightarrow> bool" where
  "link_chain dev p n d \<longleftrightarrow>
     (\<forall>i < n. readLink dev (p i) d = (Inr (p (Suc i)), d)) \<and>
     (\<forall>i < n. \<forall>log. \<exists>e. Stat dev (p i) log d = (Inr e, log, d) \<and> is_symlink (de_mode e)) \<and>
     (n \<le> Suc MaxLinkResolveDepth \<longrightarrow>
       (\<forall>log. \<exists>e. Stat dev (p n) log d = (Inr e, log, d) \<and> \<not> is_symlink (de_mode e)))"

lemma link_chainD:
  assumes "link_chain dev p n d"
  shows "i < n \<Longrightarrow> readLink dev (p i) d = (Inr (p (Suc i)), d)"
    and "i < n \<Longrightarrow> \<exists>e. Stat dev (p i) log d = (Inr e, log, d) \<and> is_symlink (de_mode e)"
    and "n \<le> Suc MaxLinkResolveDepth \<Longrightarrow>
      \<exists>e. Stat dev (p n) log d = (Inr e, log, d) \<and> \<not> is_symlink (de_mode e)"
  using assms unfolding link_chain_def by blast+

lemma link_chain_stat:
  "link_chain dev p n d \<Longrightarrow> i < n \<or> i = n \<and> n \<le> Suc MaxLinkResolveDepth \<Longrightarrow>
   \<exists>e. Stat dev (p i) log d = (Inr e, log, d)"
  using link_chainD(2,3) by metis

lemma follow_chain_target:
  assumes "link_chain dev p n d" and "i \<le> n" and "n \<le> Suc MaxLinkResolveDepth"
    and "Stat dev (p i) log d = (Inr e, log, d)"
  shows "\<exists>e'. follow_links u dev i (p i) e t log d = Return (Inr (p n, e'), log, d)"
  using assms(2,4)
proof (induction "n - i" arbitrary: i e t)
  case 0
  then have "i = n" by simp
  then have "\<not> is_symlink (de_mode e)" using link_chainD(3) [OF assms(1,3), of log] 0(3) by auto
  then show ?case using \<open>i = n\<close> by (subst follow_links.simps) simp
next
  case (Suc k)
  then have i: "i < n" "k = n - Suc i" by simp_all
  then have link: "is_symlink (de_mode e)" using link_chainD(2) [OF assms(1) i(1), of log] Suc.prems(2) by auto
  obtain e1 where e1: "Stat dev (p (Suc i)) log d = (Inr e1, log, d)"
    using link_chain_stat [OF assms(1), of "Suc i" log] i assms by (cases "Suc i = n") auto
  have "i \<le> MaxLinkResolveDepth" using i assms(3) by simp
  from follow_links_round [OF link this link_chainD(1) [OF assms(1) i(1)] e1] show ?case
    using Suc.hyps(1) [OF i(2) _ e1] i(1) by simp
qed

lemma follow_chain_deep:
  assumes "link_chain dev p n d" and "Suc MaxLinkResolveDepth < n" and "i \<le> Suc MaxLinkResolveDepth"
    and "Stat dev (p i) log d = (Inr e, log, d)"
  shows "follow_links u dev i (p i) e t log d = Return (Inl ErrLinkTooDeep, log, d)"
  using assms(3,4)
proof (induction "Suc MaxLinkResolveDepth - i" arbitrary: i e t)
  case 0
  then have "is_symlink (de_mode e)" "MaxLinkResolveDepth < i"
    using link_chainD(2) [OF assms(1), of i log] assms(2) by auto
  then show ?case by (subst follow_links.simps) simp
next
  case (Suc k)
  then have i: "i < n" "i \<le> MaxLinkResolveDepth" "k = Suc MaxLinkResolveDepth - Suc i"
    using assms(2) by simp_all
  then have link: "is_symlink (de_mode e)" using link_chainD(2) [OF assms(1) i(1), of log] Suc.prems(2) by auto
  obtain e1 where e1: "Stat dev (p (Suc i)) log d = (Inr e1, log, d)"
    using link_chain_stat [OF assms(1), of "Suc i" log] i assms(2) by auto
  from follow_links_round [OF link i(2) link_chainD(1) [OF assms(1) i(1)] e1] show ?case
    using Suc.hyps(1) [OF i(3) _ e1] i(2) by simp
qed

text \<open>One more link than the constant says is followed.\<close>

lemma readLinkRecursively_chain:
  assumes "link_chain dev p n d"
  shows "\<exists>e. readLinkRecursively u dev (p 0) log d =
    Return (if n \<le> Suc MaxLinkResolveDepth then Inr (p n, e) else Inl ErrLinkTooDeep, log, d)"
proof -
  obtain e where e: "Stat dev (p 0) log d = (Inr e, log, d)" using link_chain_stat [OF assms, of 0 log] by (cases n) auto
  then show ?thesis
    using follow_chain_target [OF assms _ _ e] follow_chain_deep [OF assms _ _ e]
    by (cases "n \<le> Suc MaxLinkResolveDepth") (simp_all add: readLinkRecursively_def)
qed

end
