(* ===== verification/Statfs.thy ===== *)
theory Statfs
  imports Go_Strconv Errors
begin

text \<open>
  \<open>parseStatfs\<close> of \<open>adb_filesystem.go\<close>, which reads the output of the device's \<open>stat -f\<close>, and
  the word scanner of package \<open>bufio\<close> it uses.
\<close>

subsection \<open>Scanning words\<close>

text \<open>
  The number of bytes of the white space character a string starts with, 0 if there is none:
  the ASCII spaces and the UTF-8 forms of U+0085, U+00A0, U+1680, U+2000 to U+200A, U+2028,
  U+2029, U+202F, U+205F and U+3000. The first bytes of these forms occur in valid UTF-8 only
  at the start of a character, so they may be looked for at every byte.
\<close>

fun space_width :: "string \<Rightarrow> nat" where
  "space_width [] = 0"
| "space_width (c # cs) =
     (let n = of_char c :: nat; codes = map (of_char :: char \<Rightarrow> nat) (take 2 cs) in
      if (9 \<le> n \<and> n \<le> 13) \<or> n = 32 then 1
      else if n = 0xC2 then (if take 1 codes = [0x85] \<or> take 1 codes = [0xA0] then 2 else 0)
      else if n = 0xE1 then (if codes = [0x9A, 0x80] then 3 else 0)
      else if n = 0xE2 then
        (if codes = [0x81, 0x9F] \<or>
            (\<exists>m \<in> set [0x80..<0x8B] \<union> {0xA8, 0xA9, 0xAF}. codes = [0x80, m]) then 3 else 0)
      else if n = 0xE3 then (if codes = [0x80, 0x80] then 3 else 0)
      else 0)"

lemma space_width_le: "space_width s \<le> length s"
proof (cases s)
  case (Cons c cs)
  have "length codes \<le> length cs" if "codes = map (of_char :: char \<Rightarrow> nat) (take 2 cs)" for codes
    using that by simp
  moreover have "2 = length codes \<Longrightarrow> 3 \<le> length s"
    and "codes \<noteq> [] \<Longrightarrow> 2 \<le> length s" if "codes = map (of_char :: char \<Rightarrow> nat) (take 2 cs)" for codes
    using that Cons by (auto simp: min_def Suc_le_eq split: if_splits)
  ultimately show ?thesis
    using Cons by (cases "take 2 cs"; cases "tl (take 2 cs)") (auto simp: Let_def split: if_splits)
qed simp

text \<open>The words of a string; \<open>acc\<close> is the word being read, last byte first.\<close>

function split_words :: "string \<Rightarrow> string \<Rightarrow> string list" where
  "split_words acc [] = (if acc = [] then [] else [rev acc])"
| "split_words acc (c # cs) =
     (if space_width (c # cs) = 0 then split_words (c # acc) cs
      else (if acc = [] then [] else [rev acc]) @
           split_words [] (drop (space_width (c # cs)) (c # cs)))"
  by pat_completeness auto
termination by (relation "measure (\<lambda>(acc, s). length s)") auto

text \<open>\<open>bufio.MaxScanTokenSize\<close>: a word of this length stops the scanner with an error.\<close>

definition MaxScanTokenSize :: nat where
  "MaxScanTokenSize = 65536"

definition scan_words :: "string \<Rightarrow> string list \<times> bool" where
  "scan_words s =
     (let ws = split_words [] s
      in (takeWhile (\<lambda>w. length w < MaxScanTokenSize) ws,
          \<exists>w \<in> set ws. MaxScanTokenSize \<le> length w))"

subsection \<open>parseStatfs\<close>

definition zero_statfs :: statfs_out where
  "zero_statfs = \<lparr>sf_Blocks = 0, sf_Bfree = 0, sf_Bavail = 0, sf_Files = 0, sf_Ffree = 0,
     sf_Bsize = 0, sf_NameLen = 0\<rparr>"

text \<open>The switch of the loop: \<^term>\<open>None\<close> when a value that should be a number is not one.\<close>

definition store_value :: "string \<Rightarrow> string \<Rightarrow> string \<Rightarrow> statfs_out \<Rightarrow> statfs_out option" where
  "store_value scope key value st =
     (if key = ''Namelen'' then
        map_option (\<lambda>n. st\<lparr>sf_NameLen := word_of_int n\<rparr>) (atoi value)
      else if key = ''Blocksize'' then
        map_option (\<lambda>n. st\<lparr>sf_Bsize := word_of_int n\<rparr>) (atoi value)
      else if key = ''Total'' then
        map_option (\<lambda>n.
          if scope = ''Blocks'' then st\<lparr>sf_Blocks := word_of_int n\<rparr>
          else if scope = ''Inodes'' then st\<lparr>sf_Files := word_of_int n\<rparr>
          else st) (atoi value)
      else if key = ''Free'' then
        map_option (\<lambda>n.
          if scope = ''Blocks'' then st\<lparr>sf_Bfree := word_of_int n\<rparr>
          else if scope = ''Inodes'' then st\<lparr>sf_Ffree := word_of_int n\<rparr>
          else st) (atoi value)
      else if key = ''Available'' then
        map_option (\<lambda>n. if scope = ''Blocks'' then st\<lparr>sf_Bavail := word_of_int n\<rparr> else st) (atoi value)
      else Some st)"

fun parse_tokens :: "statfs_out \<Rightarrow> string \<Rightarrow> string \<Rightarrow> string list \<Rightarrow> string + statfs_out" where
  "parse_tokens st scope key [] = Inr st"
| "parse_tokens st scope key (t # ts) =
     (if \<not> has_suffix key '':'' then parse_tokens st scope (key @ t) ts
      else if has_suffix t '':'' then parse_tokens st (trim_suffix key '':'') t ts
      else
        let key' = trim_suffix key '':'' in
        case store_value scope key' t st of
          None \<Rightarrow> Inl (''invalid value for '' @ key' @ '': '' @ t)
        | Some st' \<Rightarrow> parse_tokens st' scope '''' ts)"

text \<open>
  When the scanner stops with an error, the error returned is the variable \<open>err\<close> of the
  function's result, which is nil: neither a result nor an error comes back.
\<close>

definition parseStatfs :: "string \<Rightarrow> statfs_out option \<times> 'x err option" where
  "parseStatfs output =
     (if output = '''' then (None, Some (ErrText ''no output''))
      else
        case scan_words output of (tokens, tooLong) \<Rightarrow>
          (case parse_tokens zero_statfs '''' '''' tokens of
             Inl msg \<Rightarrow> (None, Some (ErrText msg))
           | Inr st \<Rightarrow> if tooLong then (None, None) else (Some st, None)))"

subsection \<open>Words of printable ASCII\<close>

definition plain_word :: "string \<Rightarrow> bool" where
  "plain_word w \<longleftrightarrow> w \<noteq> [] \<and> (\<forall>c \<in> set w. 33 \<le> (of_char c :: nat) \<and> (of_char c :: nat) \<le> 126)"

lemma space_width_plain: "33 \<le> (of_char c :: nat) \<Longrightarrow> (of_char c :: nat) \<le> 126 \<Longrightarrow> space_width (c # cs) = 0"
  by (simp add: Let_def)

lemma split_words_plain:
  "(\<forall>c \<in> set w. 33 \<le> (of_char c :: nat) \<and> (of_char c :: nat) \<le> 126) \<Longrightarrow>
   split_words acc (w @ s) = split_words (rev w @ acc) s"
  by (induction w arbitrary: acc) (simp_all add: space_width_plain)

text \<open>ASCII white space; the words of a line are separated by runs of it.\<close>

definition blank :: "char \<Rightarrow> bool" where
  "blank c \<longleftrightarrow> c \<in> {CHR '' '', CHR 0x09, CHR 0x0A, CHR 0x0D}"

lemma space_width_blank: "blank c \<Longrightarrow> space_width (c # s) = 1"
  by (auto simp: blank_def Let_def)

declare space_width.simps [simp del]

lemma split_words_blanks: "list_all blank b \<Longrightarrow> split_words [] (b @ s) = split_words [] s"
  by (induction b) (simp_all add: space_width_blank)

lemma split_words_word:
  assumes "plain_word w"
  shows "blank c \<Longrightarrow> split_words [] (w @ c # s) = w # split_words [] s"
    and "split_words [] w = [w]"
  using assms split_words_plain [of w "[]" "[]"] split_words_plain [of w "[]"]
  by (simp_all add: plain_word_def space_width_blank)

text \<open>\<open>sep i\<close> is what stands after the word number \<open>i\<close>.\<close>

fun spaced :: "(nat \<Rightarrow> string) \<Rightarrow> string list \<Rightarrow> string" where
  "spaced sep [] = []"
| "spaced sep (w # ws) = w @ sep 0 @ spaced (\<lambda>i. sep (Suc i)) ws"

definition blanks :: "string \<Rightarrow> bool" where
  "blanks s \<longleftrightarrow> s \<noteq> [] \<and> list_all blank s"

lemma split_words_spaced:
  "list_all plain_word ws \<Longrightarrow> \<forall>i. blanks (sep i) \<Longrightarrow> split_words [] (spaced sep ws) = ws"
proof (induction ws arbitrary: sep)
  case (Cons w ws)
  obtain c b where c: "sep 0 = c # b" "blank c" "list_all blank b"
    using Cons.prems(2) by (cases "sep 0") (auto simp: blanks_def dest: spec [of _ 0])
  have "split_words [] (spaced (\<lambda>i. sep (Suc i)) ws) = ws" using Cons by simp
  then show ?case using Cons.prems(1) c by (simp add: split_words_word split_words_blanks)
qed simp

lemma plain_show_nat: "plain_word (show_nat n)"
  using show_nat_digits [of n] by (force simp: plain_word_def is_digit_def)

subsection \<open>Round trip\<close>

text \<open>
  The output of \<open>stat -f\<close>: its words, with any runs of white space before the first and after
  each, as in the sample in the source. \<open>name\<close> and \<open>ty\<close> are any words that do not end in a colon.
\<close>

definition stat_words :: "string \<Rightarrow> nat \<Rightarrow> string \<Rightarrow> nat \<Rightarrow> nat \<Rightarrow> nat \<Rightarrow> nat \<Rightarrow> nat \<Rightarrow> nat \<Rightarrow> string list" where
  "stat_words name namelen ty bsize btotal bfree bavail itotal ifree =
     [''File:'', name,
      ''ID:'', ''0'', ''Namelen:'', show_nat namelen, ''Type:'', ty,
      ''Block'', ''size:'', show_nat bsize,
      ''Blocks:'', ''Total:'', show_nat btotal, ''Free:'', show_nat bfree, ''Available:'', show_nat bavail,
      ''Inodes:'', ''Total:'', show_nat itotal, ''Free:'', show_nat ifree]"

definition stat_output where
  "stat_output lead sep name namelen ty bsize btotal bfree bavail itotal ifree =
     lead @ spaced sep (stat_words name namelen ty bsize btotal bfree bavail itotal ifree)"

lemma has_suffix_colon_digits [simp]: "\<not> has_suffix (show_nat n) '':''"
proof
  assume "has_suffix (show_nat n) '':''"
  then obtain t where "show_nat n = t @ '':''" by (auto simp: has_suffix_iff)
  then have "is_digit (CHR '':'')" using show_nat_digits [of n] by simp
  then show False by simp
qed

text \<open>Suffixes of one character are computed along the string.\<close>

lemma has_suffix_Cons [string_simps]:
  "has_suffix [] [d] = False"
  "has_suffix (x # xs) [d] = (if xs = [] then x = d else has_suffix xs [d])"
  by (auto simp: has_suffix_def Suc_diff_le split: nat.splits)
    (cases xs; simp add: Suc_diff_le)+

lemma trim_suffix_Cons [string_simps]:
  "trim_suffix [] [d] = []"
  "trim_suffix (x # xs) [d] = (if xs = [] then (if x = d then [] else [x]) else x # trim_suffix xs [d])"
  by (auto simp: trim_suffix_def has_suffix_Cons) (cases xs; simp)+

lemma parse_stat_words:
  assumes "\<not> has_suffix name '':''" and "\<not> has_suffix ty '':''"
    and "namelen < 2 ^ 63" "bsize < 2 ^ 63" "btotal < 2 ^ 63" "bfree < 2 ^ 63" "bavail < 2 ^ 63"
      "itotal < 2 ^ 63" "ifree < 2 ^ 63"
  shows "parse_tokens zero_statfs '''' ''''
      (stat_words name namelen ty bsize btotal bfree bavail itotal ifree) =
    Inr \<lparr>sf_Blocks = of_nat btotal, sf_Bfree = of_nat bfree, sf_Bavail = of_nat bavail,
      sf_Files = of_nat itotal, sf_Ffree = of_nat ifree, sf_Bsize = of_nat bsize,
      sf_NameLen = of_nat namelen\<rparr>"
  using assms
  by (simp add: stat_words_def store_value_def atoi_show_nat Let_def zero_statfs_def string_simps)

text \<open>Scanning stops at no word of it, so the whole output is read.\<close>

lemma length_show_nat: "n < 10 ^ Suc k \<Longrightarrow> length (show_nat n) \<le> Suc k"
proof (induction k arbitrary: n)
  case 0
  then show ?case by (subst show_nat.simps) simp
next
  case (Suc k)
  have "n div 10 < 10 ^ Suc k" using Suc.prems by (simp add: less_mult_imp_div_less)
  then show ?case using Suc.IH by (subst show_nat.simps) simp
qed

lemma parseStatfs_stat_output:
  assumes "plain_word name" "length name < MaxScanTokenSize" "\<not> has_suffix name '':''"
    and "plain_word ty" "length ty < MaxScanTokenSize" "\<not> has_suffix ty '':''"
    and "list_all (\<lambda>n. n < 2 ^ 63) [namelen, bsize, btotal, bfree, bavail, itotal, ifree]"
    and "list_all blank lead" and "\<forall>i. blanks (sep i)"
  shows "parseStatfs (stat_output lead sep name namelen ty bsize btotal bfree bavail itotal ifree) =
    (Some \<lparr>sf_Blocks = of_nat btotal, sf_Bfree = of_nat bfree, sf_Bavail = of_nat bavail,
      sf_Files = of_nat itotal, sf_Ffree = of_nat ifree, sf_Bsize = of_nat bsize,
      sf_NameLen = of_nat namelen\<rparr>, None)"
proof -
  let ?ws = "stat_words name namelen ty bsize btotal bfree bavail itotal ifree"
  let ?out = "lead @ spaced sep ?ws"
  have num: "length (show_nat n) < MaxScanTokenSize" if "n < 2 ^ 63" for n
    using length_show_nat [of n 19] that by (simp add: MaxScanTokenSize_def)
  have "list_all plain_word ?ws"
    using assms(1,4) plain_show_nat by (simp add: stat_words_def) (simp add: plain_word_def)
  then have w: "split_words [] ?out = ?ws"
    using split_words_spaced [OF _ assms(9)] split_words_blanks [OF assms(8)] by simp
  have "list_all (\<lambda>w. length w < MaxScanTokenSize) ?ws"
    using assms(2,5,7) num by (simp add: stat_words_def) (simp add: MaxScanTokenSize_def)
  then have "scan_words ?out = (?ws, False)"
    unfolding scan_words_def w by (auto simp: Let_def list_all_iff takeWhile_eq_all_conv)
  moreover have "?out \<noteq> ''''" by (simp add: stat_words_def)
  ultimately show ?thesis
    using parse_stat_words [OF assms(3,6), of namelen bsize btotal bfree bavail itotal ifree] assms(7)
    by (simp add: parseStatfs_def stat_output_def)
qed

text \<open>
  A word that is too long ends the scan: unless a word before it is an invalid number, no result
  and no error come back.
\<close>

lemma parseStatfs_too_long:
  assumes "\<exists>w \<in> set (split_words [] output). MaxScanTokenSize \<le> length w"
  shows "parseStatfs output =
    (case parse_tokens zero_statfs '''' '''' (takeWhile (\<lambda>w. length w < MaxScanTokenSize) (split_words [] output)) of
       Inl msg \<Rightarrow> (None, Some (ErrText msg)) | Inr st \<Rightarrow> (None, None))"
proof -
  have "output \<noteq> ''''" using assms by auto
  then show ?thesis using assms by (simp add: parseStatfs_def scan_words_def split: sum.splits)
qed

end
