(* ===== verification/Go_Path.thy ===== *)
theory Go_Path
  imports Go_Text
begin

text \<open>
  Go's \<open>path\<close> package, as far as the source uses it: \<open>Clean\<close>, \<open>Join\<close>, \<open>Dir\<close>, \<open>Base\<close>.
  On the platforms adbfs runs on \<open>filepath.Join\<close> is the same function as \<open>path.Join\<close>.
  \<open>Clean\<close> works on the elements between slashes with a stack of kept elements (\<open>out\<close>, top
  first), as the code's buffer does: \<open>..\<close> removes the last kept element unless there is
  none to remove.
\<close>

subsection \<open>The functions\<close>

fun clean_elems :: "bool \<Rightarrow> string list \<Rightarrow> string list \<Rightarrow> string list" where
  "clean_elems rooted out [] = rev out"
| "clean_elems rooted out (e # es) =
     (if e = '''' \<or> e = ''.'' then clean_elems rooted out es
      else if e = ''..'' then
        (case out of
           [] \<Rightarrow> clean_elems rooted (if rooted then [] else [''..'']) es
         | t # out' \<Rightarrow>
             if t = ''..'' then clean_elems rooted (''..'' # out) es
             else clean_elems rooted out' es)
      else clean_elems rooted (e # out) es)"

definition path_clean :: "string \<Rightarrow> string" where
  "path_clean p =
     (if p = [] then ''.''
      else
        let rooted = (hd p = CHR ''/'');
            out = join_with ''/'' (clean_elems rooted [] (split_on (CHR ''/'') p))
        in if rooted then CHR ''/'' # out else if out = [] then ''.'' else out)"

definition path_join :: "string list \<Rightarrow> string" where
  "path_join elems =
     (let es = dropWhile (\<lambda>e. e = []) elems
      in if es = [] then [] else path_clean (join_with ''/'' es))"

definition path_dir :: "string \<Rightarrow> string" where
  "path_dir p = path_clean (rev (dropWhile (\<lambda>c. c \<noteq> CHR ''/'') (rev p)))"

definition path_base :: "string \<Rightarrow> string" where
  "path_base p =
     (if p = [] then ''.''
      else
        let q = rev (dropWhile (\<lambda>c. c = CHR ''/'') (rev p));
            b = rev (takeWhile (\<lambda>c. c \<noteq> CHR ''/'') (rev q))
        in if b = [] then ''/'' else b)"

subsection \<open>Canonical absolute paths\<close>

text \<open>
  An absolute path in canonical form is a slash and normal elements (not empty, not
  \<open>.\<close>, not \<open>..\<close>, no slash inside) with single slashes between them.
\<close>

definition normal_elem :: "string \<Rightarrow> bool" where
  "normal_elem e \<longleftrightarrow> e \<noteq> '''' \<and> e \<noteq> ''.'' \<and> e \<noteq> ''..'' \<and> CHR ''/'' \<notin> set e"

definition abs_path :: "string list \<Rightarrow> string" where
  "abs_path cs = CHR ''/'' # join_with ''/'' cs"

lemma normal_elem_no_slash: "normal_elem e \<Longrightarrow> CHR ''/'' \<notin> set e"
  by (simp add: normal_elem_def)

lemma clean_elems_normal:
  "list_all normal_elem es \<Longrightarrow> clean_elems r out es = rev out @ es"
  by (induction es arbitrary: out) (auto simp: normal_elem_def)

lemma clean_elems_append:
  "clean_elems r out (es @ fs) = clean_elems r (rev (clean_elems r out es)) fs"
  by (induction r out es rule: clean_elems.induct) (auto split: list.splits)

text \<open>A rooted clean keeps only normal elements.\<close>

lemma clean_elems_rooted_normal:
  "list_all normal_elem out \<Longrightarrow> list_all (\<lambda>e. CHR ''/'' \<notin> set e) es \<Longrightarrow>
   list_all normal_elem (clean_elems True out es)"
proof (induction es arbitrary: out)
  case Nil
  then show ?case by simp
next
  case (Cons e es)
  then show ?case
    by (cases out) (auto simp: normal_elem_def)
qed

lemma split_on_slash_free: "list_all (\<lambda>e. CHR ''/'' \<notin> set e) (split_on (CHR ''/'') p)"
  by (auto simp: list_all_iff dest: split_on_pieces)

lemma path_clean_rooted:
  "path_clean (CHR ''/'' # p) = abs_path (clean_elems True [] (split_on (CHR ''/'') p))"
  by (simp add: path_clean_def abs_path_def)

lemma split_abs_path:
  assumes "list_all normal_elem cs"
  shows "clean_elems True [] (split_on (CHR ''/'') (join_with ''/'' cs)) = cs"
proof (cases "cs = []")
  case False
  have "\<forall>c \<in> set cs. CHR ''/'' \<notin> set c"
    using assms by (auto simp: list_all_iff normal_elem_def)
  with False show ?thesis by (simp add: split_join clean_elems_normal [OF assms])
qed simp

lemma path_clean_abs_path [simp]:
  "list_all normal_elem cs \<Longrightarrow> path_clean (abs_path cs) = abs_path cs"
  using split_abs_path [of cs] by (simp add: path_clean_rooted abs_path_def)

lemma path_clean_absolute:
  obtains cs where "list_all normal_elem cs" and "path_clean (CHR ''/'' # p) = abs_path cs"
proof
  show "list_all normal_elem (clean_elems True [] (split_on (CHR ''/'') p))"
    by (rule clean_elems_rooted_normal [OF _ split_on_slash_free]) simp
  show "path_clean (CHR ''/'' # p) = abs_path (clean_elems True [] (split_on (CHR ''/'') p))"
    by (rule path_clean_rooted)
qed

lemma path_clean_idem: "path_clean (path_clean (CHR ''/'' # p)) = path_clean (CHR ''/'' # p)"
  by (rule path_clean_absolute [of p]) simp

lemma abs_path_inject:
  assumes "list_all normal_elem cs" and "list_all normal_elem ds"
    and "abs_path cs = abs_path ds"
  shows "cs = ds"
  using assms split_abs_path by (metis abs_path_def list.inject)

subsection \<open>Joining below a root\<close>

lemma path_join_root:
  "path_join [''/'', r, n] =
     abs_path (clean_elems True [] (split_on (CHR ''/'') r @ split_on (CHR ''/'') n))"
proof -
  have "path_join [''/'', r, n] = path_clean (CHR ''/'' # CHR ''/'' # r @ CHR ''/'' # n)"
    by (simp add: path_join_def)
  then show ?thesis by (simp add: path_clean_rooted split_on_append)
qed

text \<open>The elements of a path that a clean without \<open>..\<close> keeps.\<close>

definition kept_elems :: "string \<Rightarrow> string list" where
  "kept_elems p = filter (\<lambda>e. e \<noteq> '''' \<and> e \<noteq> ''.'') (split_on (CHR ''/'') p)"

lemma clean_elems_no_dotdot:
  "''..'' \<notin> set es \<Longrightarrow>
   clean_elems r out es = rev out @ filter (\<lambda>e. e \<noteq> '''' \<and> e \<noteq> ''.'') es"
  by (induction es arbitrary: out) auto

lemma path_join_root_no_dotdot:
  assumes "''..'' \<notin> set (split_on (CHR ''/'') n)"
  shows "path_join [''/'', r, n] =
    abs_path (clean_elems True [] (split_on (CHR ''/'') r) @ kept_elems n)"
  using assms
  by (simp add: path_join_root clean_elems_append clean_elems_no_dotdot kept_elems_def)

lemma kept_elems_normal:
  "''..'' \<notin> set (split_on (CHR ''/'') n) \<Longrightarrow> list_all normal_elem (kept_elems n)"
  by (auto simp: kept_elems_def list_all_iff normal_elem_def dest: split_on_pieces)

subsection \<open>Dir and Base of canonical paths\<close>

lemma join_with_snoc:
  "ds \<noteq> [] \<Longrightarrow> join_with sep (ds @ [b]) = join_with sep ds @ sep @ b"
proof (induction ds)
  case Nil
  then show ?case by simp
next
  case (Cons d ds)
  then show ?case by (cases "ds = []") (simp_all add: join_with_Cons)
qed

lemma abs_path_snoc: "abs_path (ds @ [b]) = (if ds = [] then CHR ''/'' # b else abs_path ds @ CHR ''/'' # b)"
  by (simp add: abs_path_def join_with_snoc)

lemma path_dir_snoc:
  assumes "list_all normal_elem ds" and "normal_elem b"
  shows "path_dir (abs_path (ds @ [b])) = abs_path ds"
proof -
  have b: "CHR ''/'' \<notin> set b" using assms(2) by (rule normal_elem_no_slash)
  have drop: "dropWhile (\<lambda>c. c \<noteq> CHR ''/'') (rev (p @ CHR ''/'' # b)) = CHR ''/'' # rev p" for p
    using b by (induction b rule: rev_induct) auto
  have "path_dir (abs_path (ds @ [b])) =
      path_clean ((if ds = [] then [] else abs_path ds) @ [CHR ''/''])"
    using drop [of "[]"] drop [of "abs_path ds"]
    by (simp add: path_dir_def abs_path_snoc del: rev_append)
  also have "\<dots> = abs_path ds"
  proof (cases "ds = []")
    case True
    then show ?thesis by (simp add: path_clean_def abs_path_def)
  next
    case False
    have "path_clean (abs_path ds @ [CHR ''/'']) =
        abs_path (clean_elems True [] (split_on (CHR ''/'') (join_with ''/'' ds @ CHR ''/'' # [])))"
      by (simp add: abs_path_def path_clean_rooted)
    also have "\<dots> = abs_path ds"
      by (simp only: split_on_append clean_elems_append split_abs_path [OF assms(1)]) simp
    finally show ?thesis using False by simp
  qed
  finally show ?thesis .
qed

lemma path_base_snoc:
  assumes "normal_elem b"
  shows "path_base (abs_path (ds @ [b])) = b"
proof -
  obtain b' c where bc: "b = b' @ [c]" using assms by (cases b rule: rev_cases) (auto simp: normal_elem_def)
  have b: "CHR ''/'' \<notin> set b" using assms by (rule normal_elem_no_slash)
  have take: "takeWhile (\<lambda>c. c \<noteq> CHR ''/'') (rev (p @ CHR ''/'' # b)) = rev b" for p
    using b by (induction b rule: rev_induct) (auto simp: takeWhile_eq_all_conv)
  have strip: "dropWhile (\<lambda>c. c = CHR ''/'') (rev (p @ CHR ''/'' # b)) = rev (p @ CHR ''/'' # b)" for p
    using b bc by auto
  have "path_base (p @ CHR ''/'' # b) = b" for p
    using strip [of p] take [of p] bc by (simp add: path_base_def Let_def del: rev_append)
  from this [of "[]"] this [of "abs_path ds"] show ?thesis by (simp add: abs_path_snoc)
qed

lemma path_dir_root [simp]: "path_dir (abs_path []) = abs_path []"
  by (simp add: path_dir_def abs_path_def path_clean_def)

lemma path_base_root [simp]: "path_base (abs_path []) = abs_path []"
  by (simp add: path_base_def abs_path_def)

text \<open>Only the root is its own directory name and its own base name.\<close>

lemma dir_eq_base_iff_root:
  assumes "list_all normal_elem cs"
  shows "path_dir (abs_path cs) = path_base (abs_path cs) \<longleftrightarrow> cs = []"
proof (cases cs rule: rev_cases)
  case (snoc ds b)
  then have "path_base (abs_path cs) = b" and "path_dir (abs_path cs) = abs_path ds"
    and "CHR ''/'' \<notin> set b"
    using assms by (simp_all add: path_base_snoc path_dir_snoc normal_elem_no_slash)
  then show ?thesis using snoc by (auto simp: abs_path_def)
qed simp

end
