(* ===== verification/Filesystem.thy ===== *)
theory Filesystem
  imports Adb_File Link_Resolution Statfs Go_Path
begin

text \<open>
  \<open>AdbFileSystem\<close> of \<open>adb_filesystem.go\<close>: the configuration, the pool of device clients (a
  channel, so a list with a capacity) and the open files. Every handler returns its results,
  its log entry when it is finished and the state; it is \<^term>\<open>Blocked\<close> when a channel
  operation cannot proceed.
\<close>

record ('d, 'x) config =
  cf_DeviceSerial :: string
  cf_Mountpoint :: string
  cf_DeviceRoot :: string
  cf_ClientFactory :: "'d \<Rightarrow> ('d, 'x) device_client \<times> 'd"
  cf_ConnectionPoolSize :: int
  cf_ReadOnly :: bool

record ('d, 'x) filesystem =
  fs_config :: "('d, 'x) config"
  fs_pool :: "('d, 'x) device_client list"
  fs_openFiles :: "('d, 'x) open_files"

subsection \<open>The pool\<close>

definition getQuickUseClient ::
  "('d, 'x) filesystem \<Rightarrow> (('d, 'x) device_client \<times> ('d, 'x) filesystem) go" where
  "getQuickUseClient fs =
     (case fs_pool fs of [] \<Rightarrow> Blocked | c # cs \<Rightarrow> Return (c, fs\<lparr>fs_pool := cs\<rparr>))"

definition recycleQuickUseClient ::
  "('d, 'x) device_client \<Rightarrow> ('d, 'x) filesystem \<Rightarrow> ('d, 'x) filesystem go" where
  "recycleQuickUseClient client fs =
     (if int (length (fs_pool fs)) < cf_ConnectionPoolSize (fs_config fs)
      then Return (fs\<lparr>fs_pool := fs_pool fs @ [client]\<rparr>) else Blocked)"

text \<open>A handler's body between \<open>getQuickUseClient\<close> and the deferred \<open>recycleQuickUseClient\<close>.\<close>

definition with_quick_client ::
  "('d, 'x) filesystem \<Rightarrow> (('d, 'x) device_client \<Rightarrow> 'r go) \<Rightarrow> ('r \<times> ('d, 'x) filesystem) go" where
  "with_quick_client fs body =
     go_bind (getQuickUseClient fs) (\<lambda>(device, fs1).
     go_bind (body device) (\<lambda>r.
     go_bind (recycleQuickUseClient device fs1) (\<lambda>fs2. Return (r, fs2))))"

definition convertClientPathToDevicePath :: "('d, 'x) filesystem \<Rightarrow> string \<Rightarrow> string" where
  "convertClientPathToDevicePath fs name = path_join [''/'', cf_DeviceRoot (fs_config fs), name]"

subsection \<open>Creation\<close>

definition fs_initialize where
  "fs_initialize u fs d =
     (let logEntry = StartOperation ''Initialize'' '''' in
      if cf_DeviceRoot (fs_config fs) = '''' then Return (None, logEntry, d, fs)
      else
        go_bind (with_quick_client fs (\<lambda>device.
          go_bind (readLinkRecursively u device (cf_DeviceRoot (fs_config fs)) logEntry d) (\<lambda>(res, r, d').
            case res of
              Inl err \<Rightarrow>
                go_bind (log_ErrorMsg u err ''reading link'' r) (\<lambda>r'. Return (Inl err, r', d'))
            | Inr (target, _) \<Rightarrow>
                go_bind (log_Result
                  (''resolved device root '' @ cf_DeviceRoot (fs_config fs) @ '' '' @
                   [CHR 0xE2, CHR 0x9E, CHR 0x9C] @ '' '' @ target) r)
                  (\<lambda>r'. Return (Inr target, r', d')))))
          (\<lambda>((res, r, d'), fs').
            case res of
              Inl err \<Rightarrow> Return (Some err, r, d', fs')
            | Inr target \<Rightarrow>
                Return (None, r, d', fs'\<lparr>fs_config := (fs_config fs')\<lparr>cf_DeviceRoot := target\<rparr>\<rparr>)))"

text \<open>The pool has room for \<open>ConnectionPoolSize\<close> clients and is given one.\<close>

definition NewAdbFileSystem where
  "NewAdbFileSystem u config d =
     (let config1 =
        (if cf_ConnectionPoolSize config < 1 then config\<lparr>cf_ConnectionPoolSize := 1\<rparr> else config);
        config2 = config1\<lparr>cf_DeviceRoot := trim_suffix (cf_DeviceRoot config1) ''/''\<rparr>
      in case cf_ClientFactory config2 d of (client, d1) \<Rightarrow>
        let fs = \<lparr>fs_config = config2, fs_pool = [client],
                  fs_openFiles = NewOpenFiles (cf_ClientFactory config2) 0\<rparr>
        in go_bind (fs_initialize u fs d1) (\<lambda>(err, r, d2, fs').
             case err of
               Some e \<Rightarrow> Return (Inl e, r, d2)
             | None \<Rightarrow> Return (Inr fs', r, d2)))"

subsection \<open>Looking at files\<close>

definition zero_attr :: fuse_attr where
  "zero_attr = \<lparr>fa_Mode = 0, fa_Size = 0, fa_Mtime = 0\<rparr>"

definition fs_GetAttr where
  "fs_GetAttr u name fs d =
     (let name' = convertClientPathToDevicePath fs name; logEntry = StartOperation ''GetAttr'' name'
      in with_quick_client fs (\<lambda>device.
           go_bind (getAttr u name' device logEntry zero_attr d) (\<lambda>(err, attr, r, d').
           go_bind (toFuseStatusLog u err r) (\<lambda>(st, r'). Return ((attr, st), r', d')))))"

definition fs_OpenDir where
  "fs_OpenDir u name fs d =
     (let name' = convertClientPathToDevicePath fs name; logEntry = StartOperation ''OpenDir'' name'
      in with_quick_client fs (\<lambda>device.
           case ListDirEntries device name' logEntry d of
             (Inl err, r, d') \<Rightarrow>
               go_bind (toFuseStatusLog u (Some err) r) (\<lambda>(st, r'). Return (([], st), r', d'))
           | (Inr entries, r, d') \<Rightarrow>
               go_bind (toFuseStatusLog u (Some (Errno OK)) r) (\<lambda>(st, r').
                 Return ((asFuseDirEntries entries, st), r', d'))))"

definition link_target :: "string \<Rightarrow> string \<Rightarrow> string" where
  "link_target mountpoint target =
     (if has_prefix target ''/'' then path_join [mountpoint, target] else target)"

definition fs_Readlink where
  "fs_Readlink u name fs d =
     (let name' = convertClientPathToDevicePath fs name; logEntry = StartOperation ''Readlink'' name'
      in with_quick_client fs (\<lambda>device.
           case readLink device name' d of
             (Inl err, d') \<Rightarrow>
               go_bind (toFuseStatusLog u (Some err) logEntry) (\<lambda>(st, r). Return (('''', st), r, d'))
           | (Inr target, d') \<Rightarrow>
               let target' = link_target (cf_Mountpoint (fs_config fs)) target in
               go_bind (log_Result target' logEntry) (\<lambda>r.
               go_bind (toFuseStatusLog u None r) (\<lambda>(st, r'). Return ((target', st), r', d')))))"

definition W_OK :: "32 word" where
  "W_OK = 2"

definition fs_Access where
  "fs_Access u name mode fs d =
     (let name' = convertClientPathToDevicePath fs name; logEntry = StartOperation ''Access'' name' in
      if mode AND W_OK = W_OK \<and> cf_ReadOnly (fs_config fs) then
        go_bind (toFuseStatusLog u (Some ErrNotPermitted) logEntry) (\<lambda>(st, r). Return ((st, r, d), fs))
      else
        with_quick_client fs (\<lambda>device.
          go_bind (readLinkRecursively u device name' logEntry d) (\<lambda>(res, r, d').
            case res of
              Inl err \<Rightarrow> go_bind (toFuseStatusLog u (Some err) r) (\<lambda>(st, r'). Return (st, r', d'))
            | Inr (target, _) \<Rightarrow>
                go_bind (log_Result (''target '' @ target @ '' exists, assuming all access permitted'') r) (\<lambda>r'.
                go_bind (toFuseStatusLog u (Some (Errno OK)) r') (\<lambda>(st, r''). Return (st, r'', d'))))))"

text \<open>The text of an error, for those \<open>parseStatfs\<close> makes.\<close>

definition error_text :: "'x goadb \<Rightarrow> 'x err \<Rightarrow> string" where
  "error_text u err = (case err of ErrText m \<Rightarrow> m | _ \<Rightarrow> ErrorWithCauseChain u err)"

text \<open>\<open>StatFs\<close> returns nil for every error; a nil result without an error is dereferenced.\<close>

definition fs_StatFs where
  "fs_StatFs u name fs d =
     (let name' = convertClientPathToDevicePath fs name; logEntry = StartOperation ''StatFs'' name'
      in with_quick_client fs (\<lambda>device.
           go_bind (readLinkRecursively u device name' logEntry d) (\<lambda>(res, r, d1).
             case res of
               Inl err \<Rightarrow> go_bind (log_Error (Some err) r) (\<lambda>r'. Return (None, r', d1))
             | Inr (target, _) \<Rightarrow>
                 (case RunCommand device ''stat'' [''-f'', target] d1 of
                    (Inl err, d2) \<Rightarrow>
                      go_bind (log_ErrorMsg u err ''running statfs command'' r) (\<lambda>r'. Return (None, r', d2))
                  | (Inr output, d2) \<Rightarrow>
                      (case parseStatfs output of
                         (_, Some err) \<Rightarrow>
                           go_bind (log_ErrorMsg u err
                             (''invalid stat command output:'' @ error_text u err @ [CHR 0x0A] @ output) r)
                             (\<lambda>r'. Return (None, r', d2))
                       | (None, None) \<Rightarrow> Panic ''nil pointer dereference''
                       | (Some statfs, None) \<Rightarrow>
                           go_bind (log_Result (FormatStatfs u statfs) r)
                             (\<lambda>r'. Return (Some statfs, r', d2)))))))"

subsection \<open>Opening files\<close>

definition createFile where
  "createFile u name flags perms logEntry fs w =
     (let isWriteOp = Contains flags (O_RDWR OR O_WRONLY OR O_CREATE OR O_TRUNC OR O_APPEND) in
      if isWriteOp \<and> cf_ReadOnly (fs_config fs) then Return (Inl ErrNotPermitted, logEntry, fs, w)
      else
        go_bind (GetOrLoad u name flags perms logEntry (fs_openFiles fs) w) (\<lambda>(res, r, of', w').
          case res of
            Inl err \<Rightarrow> Return (Inl err, r, fs\<lparr>fs_openFiles := of'\<rparr>, w')
          | Inr a \<Rightarrow>
              Return (Inr (NewAdbFile flags a), r, fs\<lparr>fs_openFiles := of'\<rparr>, w')))"

definition fs_open_with where
  "fs_open_with u op name flags perms fs w =
     (let name' = convertClientPathToDevicePath fs name in
      go_bind (createFile u name' flags perms (StartOperation op name') fs w) (\<lambda>(res, r, fs', w').
        case res of
          Inl err \<Rightarrow> go_bind (toFuseStatusLog u (Some err) r) (\<lambda>(st, r'). Return ((None, st), r', fs', w'))
        | Inr file \<Rightarrow>
            go_bind (log_Result (''WrappingFile('' @ DefaultFileString u @ '')'') r) (\<lambda>r'.
            go_bind (toFuseStatusLog u None r') (\<lambda>(st, r''). Return ((Some file, st), r'', fs', w')))))"

definition create_flags :: "flags \<Rightarrow> flags" where
  "create_flags rawFlags =
     (let flags = rawFlags OR (O_CREATE OR O_TRUNC)
      in if \<not> Contains flags O_RDWR then flags OR O_WRONLY else flags)"

text \<open>\<open>os.FileMode(perms)\<close> keeps the 32 bits.\<close>

definition fs_Create where
  "fs_Create u name rawFlags perms fs w =
     fs_open_with u ''Create'' name (create_flags rawFlags) perms fs w"

definition fs_Open where
  "fs_Open u name flags fs w = fs_open_with u ''Open'' name flags DontSetPerms fs w"

subsection \<open>Changing directories\<close>

text \<open>A command that prints nothing has succeeded; any output is one fixed error.\<close>

definition quiet_command where
  "quiet_command client cmd args failure d =
     (case RunCommand client cmd args d of
        (Inl err, d') \<Rightarrow> (Some err, d')
      | (Inr output, d') \<Rightarrow> (if output \<noteq> '''' then Some failure else None, d'))"

definition fs_mkdir where "fs_mkdir client path d = quiet_command client ''mkdir'' [path] ErrNoPermission d"

definition fs_rename where
  "fs_rename client oldName newName d = quiet_command client ''mv'' [oldName, newName] ErrNoPermission d"

definition fs_rmdir where "fs_rmdir client name d = quiet_command client ''rmdir'' [name] (Errno EINVAL) d"

definition fs_unlink where "fs_unlink client name d = quiet_command client ''rm'' [name] ErrNoPermission d"

text \<open>What the four handlers share: the read-only check, the pool, the report.\<close>

definition modifying where
  "modifying u logEntry command fs d =
     (if cf_ReadOnly (fs_config fs) then
        go_bind (toFuseStatusLog u (Some ErrNotPermitted) logEntry) (\<lambda>(st, r). Return ((st, r, d), fs))
      else
        with_quick_client fs (\<lambda>device.
          case command device d of
            (err, d') \<Rightarrow> go_bind (toFuseStatusLog u err logEntry) (\<lambda>(st, r). Return (st, r, d'))))"

definition fs_Mkdir where
  "fs_Mkdir u name fs d =
     (let name' = convertClientPathToDevicePath fs name
      in modifying u (StartOperation ''Mkdir'' name') (\<lambda>device. fs_mkdir device name') fs d)"

definition fs_Rename where
  "fs_Rename u oldName newName fs d =
     (let old' = convertClientPathToDevicePath fs oldName; new' = convertClientPathToDevicePath fs newName
      in modifying u (StartOperation ''Rename'' (old' @ [CHR 0xE2, CHR 0x86, CHR 0x92] @ new'))
           (\<lambda>device. fs_rename device old' new') fs d)"

text \<open>\<open>Rmdir\<close> logs itself as \<open>Rename\<close>.\<close>

definition fs_Rmdir where
  "fs_Rmdir u name fs d =
     (let name' = convertClientPathToDevicePath fs name
      in modifying u (StartOperation ''Rename'' name') (\<lambda>device. fs_rmdir device name') fs d)"

definition fs_Unlink where
  "fs_Unlink u name fs d =
     (let name' = convertClientPathToDevicePath fs name
      in modifying u (StartOperation ''Unlink'' name') (\<lambda>device. fs_unlink device name') fs d)"

subsection \<open>Operations that are not supported\<close>

definition not_supported where
  "not_supported u op args = toFuseStatusLog u (Some (Errno ENOSYS)) (StartOperation op args)"

definition fs_Chmod where
  "fs_Chmod u name mode fs =
     not_supported u ''Chmod'' (formatArgsListForLog
       [ArgString (convertClientPathToDevicePath fs name), ArgUint mode])"

definition fs_Chown where
  "fs_Chown u name uid gid fs =
     not_supported u ''Chown''
       (convertClientPathToDevicePath fs name @ '' uid='' @ itoa uid @ '', gid='' @ itoa gid)"

definition fs_GetXAttr where
  "fs_GetXAttr u name attr fs =
     not_supported u ''GetXAttr'' (formatArgsListForLog
       [ArgString (convertClientPathToDevicePath fs name), ArgString attr])"

definition fs_ListXAttr where
  "fs_ListXAttr u name fs =
     not_supported u ''ListXAttr'' (formatArgsListForLog
       [ArgString (convertClientPathToDevicePath fs name)])"

definition fs_RemoveXAttr where
  "fs_RemoveXAttr u name attr fs =
     not_supported u ''RemoveXAttr'' (formatArgsListForLog
       [ArgString (convertClientPathToDevicePath fs name), ArgString attr])"

definition fs_SetXAttr where
  "fs_SetXAttr u name attr data flags fs =
     not_supported u ''SetXAttr'' (formatArgsListForLog
       [ArgString (convertClientPathToDevicePath fs name), ArgString attr, ArgBytes data, ArgInt flags])"

definition fs_Link where
  "fs_Link u oldName newName fs =
     not_supported u ''Link'' (formatArgsListForLog
       [ArgString (convertClientPathToDevicePath fs oldName),
        ArgString (convertClientPathToDevicePath fs newName)])"

definition fs_Symlink where
  "fs_Symlink u oldName newName fs =
     not_supported u ''Symlink'' (formatArgsListForLog
       [ArgString (convertClientPathToDevicePath fs oldName),
        ArgString (convertClientPathToDevicePath fs newName)])"

definition fs_Mknod where
  "fs_Mknod u name mode dev fs =
     not_supported u ''Mknod'' (formatArgsListForLog
       [ArgString (convertClientPathToDevicePath fs name), ArgUint mode, ArgUint dev])"

definition fs_Truncate where
  "fs_Truncate u name sz fs =
     not_supported u ''Truncate'' (formatArgsListForLog
       [ArgString (convertClientPathToDevicePath fs name), ArgUint sz])"

definition fs_Utimens where
  "fs_Utimens u name atime mtime fs =
     not_supported u ''Utimens'' (formatArgsListForLog
       [ArgString (convertClientPathToDevicePath fs name), ArgOther atime, ArgOther mtime])"

lemmas not_supported_defs = fs_Chmod_def fs_Chown_def fs_GetXAttr_def fs_ListXAttr_def
  fs_RemoveXAttr_def fs_SetXAttr_def fs_Link_def fs_Symlink_def fs_Mknod_def fs_Truncate_def
  fs_Utimens_def

lemma not_supported_status:
  assumes "toErrno u (Some (Errno ENOSYS)) = ENOSYS"
  shows "not_supported u op args =
    Return (fuseStatus ENOSYS, reported u (Some (Errno ENOSYS)) (StartOperation op args))"
  using assms by (simp add: not_supported_def)

end
