(* ===== verification/Filesystem_Handlers.thy ===== *)
theory Filesystem_Handlers
  imports Filesystem
begin

text \<open>
  What the handlers of \<open>AdbFileSystem\<close> return, one call at a time: the pool is as it was, each
  handler reports one status, a read-only file system refuses to change anything, and client
  paths stay below the device root.
\<close>

subsection \<open>The pool\<close>

text \<open>Between calls the pool holds its one client.\<close>

definition pool_ready :: "('d, 'x) filesystem \<Rightarrow> bool" where
  "pool_ready fs \<longleftrightarrow> length (fs_pool fs) = 1 \<and> 1 \<le> cf_ConnectionPoolSize (fs_config fs)"

definition pool_client :: "('d, 'x) filesystem \<Rightarrow> ('d, 'x) device_client" where
  "pool_client fs = hd (fs_pool fs)"

lemma with_quick_client_ready [simp]:
  assumes "pool_ready fs"
  shows "with_quick_client fs body = go_bind (body (pool_client fs)) (\<lambda>r. Return (r, fs))"
proof -
  obtain c where c: "fs_pool fs = [c]" using assms by (auto simp: pool_ready_def length_Suc_conv)
  have same: "fs\<lparr>fs_pool := [c]\<rparr> = fs" using c by (cases fs) simp
  show ?thesis using c assms
    by (simp add: same with_quick_client_def getQuickUseClient_def recycleQuickUseClient_def pool_ready_def
        pool_client_def)
qed

lemma fs_initialize_ready:
  assumes "fs_initialize u fs d = Return (err, r, d', fs')" and "pool_ready fs"
  shows "pool_ready fs' \<and> fs_openFiles fs' = fs_openFiles fs \<and>
    cf_ReadOnly (fs_config fs') = cf_ReadOnly (fs_config fs) \<and> fs_pool fs' = fs_pool fs"
  using assms
  by (auto simp: fs_initialize_def Let_def pool_ready_def split: if_splits sum.splits elim!: go_bind_ReturnE)

lemma NewAdbFileSystem_ready:
  assumes "NewAdbFileSystem u config d = Return (Inr fs, r, d')"
  shows "pool_ready fs" and "cf_ReadOnly (fs_config fs) = cf_ReadOnly config"
    and "of_buffersByPath (fs_openFiles fs) = Map.empty"
    and "fs_openFiles fs = NewOpenFiles (cf_ClientFactory config) 0"
proof -
  define config1 where "config1 = (if cf_ConnectionPoolSize config < 1
    then config\<lparr>cf_ConnectionPoolSize := 1\<rparr> else config)"
  define config2 where "config2 = config1\<lparr>cf_DeviceRoot := trim_suffix (cf_DeviceRoot config1) ''/''\<rparr>"
  obtain c d1 where c: "cf_ClientFactory config2 d = (c, d1)" by fastforce
  define fs0 where "fs0 = \<lparr>fs_config = config2, fs_pool = [c],
    fs_openFiles = NewOpenFiles (cf_ClientFactory config2) 0\<rparr>"
  have r0: "pool_ready fs0"
    by (simp add: pool_ready_def fs0_def config2_def config1_def)
  have "go_bind (fs_initialize u fs0 d1) (\<lambda>(err, r, d2, fs').
      case err of Some e \<Rightarrow> Return (Inl e, r, d2) | None \<Rightarrow> Return (Inr fs', r, d2)) =
      NewAdbFileSystem u config d"
    unfolding NewAdbFileSystem_def Let_def
    by (fold config1_def) (fold config2_def, simp add: c fs0_def)
  also have "\<dots> = Return (Inr fs, r, d')" by (rule assms)
  finally obtain err d2 where "fs_initialize u fs0 d1 = Return (err, r, d2, fs)"
    by (auto split: option.splits elim!: go_bind_ReturnE)
  from fs_initialize_ready [OF this r0]
  show "pool_ready fs" "cf_ReadOnly (fs_config fs) = cf_ReadOnly config"
    "of_buffersByPath (fs_openFiles fs) = Map.empty" "fs_openFiles fs = NewOpenFiles (cf_ClientFactory config) 0"
    by (simp_all add: fs0_def config2_def config1_def NewOpenFiles_def)
qed

subsection \<open>A read-only file system\<close>

definition refused :: "'x goadb \<Rightarrow> 'x log_entry \<Rightarrow> status \<times> 'x log_entry" where
  "refused u logEntry = (fuseStatus EPERM, reported u (Some ErrNotPermitted) logEntry)"

lemma modifying_refused:
  "cf_ReadOnly (fs_config fs) \<Longrightarrow> unreported log \<Longrightarrow>
   modifying u log command fs d = Return ((fuseStatus EPERM, reported u (Some ErrNotPermitted) log, d), fs)"
  by (simp add: modifying_def)

lemma fs_open_with_refused:
  assumes "cf_ReadOnly (fs_config fs)"
    and "CanWrite flags \<or> flag_requires_write flags"
  shows "fs_open_with u op name flags perms fs w =
    Return ((None, fuseStatus EPERM),
      reported u (Some ErrNotPermitted) (StartOperation op (convertClientPathToDevicePath fs name)), fs, w)"
  using assms by (auto simp: fs_open_with_def createFile_def Let_def CanWrite_iff flag_requires_write_def)

text \<open>Every create asks for writing.\<close>

lemma create_flags_write [simp]:
  "CanWrite (create_flags raw)" "Contains (create_flags raw) O_TRUNC" "Contains (create_flags raw) O_CREATE"
  by (auto simp: create_flags_def Let_def CanWrite_iff Contains_OR_left)
    (simp_all add: Contains_def flag_defs)

lemma fs_Create_refused:
  "cf_ReadOnly (fs_config fs) \<Longrightarrow> \<exists>r. fs_Create u name raw perms fs w = Return ((None, fuseStatus EPERM), r, fs, w)"
  by (simp add: fs_Create_def fs_open_with_refused)

subsection \<open>Handlers that pass on one status\<close>

context log_discipline begin

lemma stat_reported:
  assumes "Stat c p r d = (res, r', d')" and "unreported r" and "le_result r = []"
  shows "unreported r' \<and> le_result r' = []"
  using same_report_fields [OF stat_log [OF assms(1)]] assms(2,3) by (auto simp: unreported_def)

lemma list_reported:
  assumes "ListDirEntries c p r d = (res, r', d')" and "unreported r" and "le_result r = []"
  shows "unreported r' \<and> le_result r' = []"
  using same_report_fields [OF list_log [OF assms(1)]] assms(2,3) by (auto simp: unreported_def)

text \<open>\<open>GetAttr\<close> answers with the status of the device's answer, and with its attributes.\<close>

lemma fs_GetAttr_total:
  assumes "pool_ready fs" and "pool_client fs = c"
    and "Stat c (convertClientPathToDevicePath fs name)
      (StartOperation ''GetAttr'' (convertClientPathToDevicePath fs name)) d = (res, r, d')"
  shows "\<exists>r'. fs_GetAttr u name fs d = Return
    ((((case res of Inl _ \<Rightarrow> zero_attr | Inr e \<Rightarrow> asFuseAttr e),
       fuseStatus (toErrno u (case res of Inl e \<Rightarrow> Some e | Inr _ \<Rightarrow> None))), r', d'), fs) \<and>
    le_status r' = Some (toErrno u (case res of Inl e \<Rightarrow> Some e | Inr _ \<Rightarrow> None))"
  using assms stat_reported [OF assms(3)]
  by (cases res) (simp_all add: fs_GetAttr_def getAttr_def Let_def reported_def)

lemma fs_OpenDir_total:
  assumes "pool_ready fs" and "pool_client fs = c"
    and "ListDirEntries c (convertClientPathToDevicePath fs name)
      (StartOperation ''OpenDir'' (convertClientPathToDevicePath fs name)) d = (res, r, d')"
  shows "\<exists>r'. fs_OpenDir u name fs d = Return
    ((((case res of Inl _ \<Rightarrow> [] | Inr es \<Rightarrow> asFuseDirEntries es),
       fuseStatus (toErrno u (case res of Inl e \<Rightarrow> Some e | Inr _ \<Rightarrow> None))), r', d'), fs)"
  using assms list_reported [OF assms(3)]
  by (cases res) (simp_all add: fs_OpenDir_def Let_def reported_def)

end

lemma fs_Readlink_total:
  assumes "pool_ready fs"
    and "readLink (pool_client fs) (convertClientPathToDevicePath fs name) d = (res, d')"
  shows "\<exists>r. fs_Readlink u name fs d = Return
    ((((case res of Inl _ \<Rightarrow> '''' | Inr t \<Rightarrow> link_target (cf_Mountpoint (fs_config fs)) t),
       fuseStatus (toErrno u (case res of Inl e \<Rightarrow> Some e | Inr _ \<Rightarrow> None))), r, d'), fs)"
  using assms
  by (cases res) (simp_all add: fs_Readlink_def Let_def log_Result_def)

text \<open>
  \<open>StatFs\<close> dereferences the nil that \<open>parseStatfs\<close> returns when the scan was cut short and the
  words before were all right.
\<close>

lemma fs_StatFs_too_long:
  assumes "pool_ready fs"
    and "readLinkRecursively u (pool_client fs) (convertClientPathToDevicePath fs name)
      (StartOperation ''StatFs'' (convertClientPathToDevicePath fs name)) d = Return (Inr (target, e), r, d1)"
    and "RunCommand (pool_client fs) ''stat'' [''-f'', target] d1 = (Inr output, d2)"
    and "\<exists>w \<in> set (split_words [] output). MaxScanTokenSize \<le> length w"
  shows "fs_StatFs u name fs d = Panic ''nil pointer dereference'' \<longleftrightarrow>
    (\<exists>st. parse_tokens zero_statfs '''' ''''
      (takeWhile (\<lambda>w. length w < MaxScanTokenSize) (split_words [] output)) = Inr st)"
proof -
  let ?ws = "takeWhile (\<lambda>w. length w < MaxScanTokenSize) (split_words [] output)"
  have p: "parseStatfs output = (case parse_tokens zero_statfs '''' '''' ?ws of
      Inl msg \<Rightarrow> (None, Some (ErrText msg :: 'b err)) | Inr st \<Rightarrow> (None, None))"
    by (rule parseStatfs_too_long [OF assms(4)])
  show ?thesis
    using assms(1-3)
    by (cases "parse_tokens zero_statfs '''' '''' ?ws")
      (simp_all add: fs_StatFs_def Let_def p log_ErrorMsg_def log_Error_def)
qed

text \<open>The status of the commands that change directories.\<close>

lemma modifying_status:
  assumes "pool_ready fs" and "\<not> cf_ReadOnly (fs_config fs)" and "unreported log"
    and "command (pool_client fs) d = (err, d')"
  shows "modifying u log command fs d =
    Return ((fuseStatus (toErrno u err), reported u err log, d'), fs)"
  using assms by (simp add: modifying_def)

lemma quiet_command_ok:
  "RunCommand client cmd args d = (Inr out, d') \<Longrightarrow>
   quiet_command client cmd args failure d = (if out = [] then None else Some failure, d')"
  by (simp add: quiet_command_def)

subsection \<open>Links\<close>

text \<open>The target of an absolute link is put below the mount point, whatever it contains.\<close>

lemma join_two:
  "a \<noteq> [] \<Longrightarrow> b \<noteq> [] \<Longrightarrow> path_join [a, b] = path_clean (a @ CHR ''/'' # b)"
  by (simp add: path_join_def)

lemma link_target_relative: "\<not> has_prefix t ''/'' \<Longrightarrow> link_target m t = t"
  by (simp add: link_target_def)

lemma link_target_absolute:
  assumes "has_prefix t ''/''" and "list_all normal_elem ms"
    and "''..'' \<notin> set (split_on (CHR ''/'') t)"
  shows "link_target (abs_path ms) t = abs_path (ms @ kept_elems t)"
proof -
  have t: "t \<noteq> []" using assms(1) by (auto simp: has_prefix_def)
  have "link_target (abs_path ms) t = path_clean (CHR ''/'' # join_with ''/'' ms @ CHR ''/'' # t)"
    using assms(1) t by (simp add: link_target_def join_two abs_path_def)
  also have "\<dots> = abs_path (clean_elems True [] (split_on (CHR ''/'') (join_with ''/'' ms) @ split_on (CHR ''/'') t))"
    by (simp add: path_clean_rooted split_on_append)
  also have "\<dots> = abs_path (ms @ kept_elems t)"
    using assms(3)
    by (simp add: clean_elems_append split_abs_path [OF assms(2)] clean_elems_no_dotdot kept_elems_def)
  finally show ?thesis .
qed

subsection \<open>Client paths\<close>

lemma convert_no_dotdot:
  assumes "''..'' \<notin> set (split_on (CHR ''/'') name)"
  shows "convertClientPathToDevicePath fs name =
    abs_path (clean_elems True [] (split_on (CHR ''/'') (cf_DeviceRoot (fs_config fs))) @ kept_elems name)"
  using path_join_root_no_dotdot [OF assms] by (simp add: convertClientPathToDevicePath_def)

lemma convert_canonical: "\<exists>cs. list_all normal_elem cs \<and> convertClientPathToDevicePath fs name = abs_path cs"
proof -
  have "list_all normal_elem (clean_elems True []
      (split_on (CHR ''/'') (cf_DeviceRoot (fs_config fs)) @ split_on (CHR ''/'') name))"
    by (rule clean_elems_rooted_normal) (simp_all add: split_on_slash_free)
  then show ?thesis unfolding convertClientPathToDevicePath_def path_join_root by blast
qed

end
