(* ===== verification/Mounted.thy ===== *)
theory Mounted
  imports Filesystem_Handlers
begin

text \<open>
  A mounted file system: the requests the kernel sends, each answered by the handler or by the
  method of the open file it is for (go-fuse, which is not part of the repository, does the
  dispatch). Open files are numbered in the order they were opened; a released one is
  \<^term>\<open>None\<close>. Results and log entries are dropped: this is the state machine of the session.
\<close>

record ('d, 'x) mounted =
  mt_fs :: "('d, 'x) filesystem"
  mt_files :: "adb_file option list"
  mt_world :: "'d world"

datatype request =
    GetAttrReq string
  | OpenDirReq string
  | ReadlinkReq string
  | AccessReq string "32 word"
  | StatFsReq string
  | MkdirReq string
  | RenameReq string string
  | RmdirReq string
  | UnlinkReq string
  | OpenReq string flags
  | CreateReq string flags mode
  | ReadReq nat "byte list" int
  | WriteReq nat "byte list" int
  | FlushReq nat
  | FsyncReq nat int
  | TruncateReq nat nat
  | FileGetAttrReq nat
  | ReleaseReq nat

text \<open>The state after a handler that returns \<open>((_, _, d), fs)\<close>.\<close>

definition after_device where
  "after_device s m = go_bind m (\<lambda>((_, _, d), fs).
     Return (s\<lparr>mt_fs := fs, mt_world := (mt_world s)\<lparr>w_dev := d\<rparr>\<rparr>))"

definition after_open where
  "after_open s m = go_bind m (\<lambda>((file, _), _, fs, w).
     Return (s\<lparr>mt_fs := fs, mt_world := w,
       mt_files := (case file of None \<Rightarrow> mt_files s | Some f \<Rightarrow> mt_files s @ [Some f])\<rparr>))"

definition mt_openFiles :: "('d, 'x) mounted \<Rightarrow> ('d, 'x) open_files" where
  "mt_openFiles s = fs_openFiles (mt_fs s)"

definition set_openFiles :: "('d, 'x) open_files \<Rightarrow> ('d, 'x) mounted \<Rightarrow> ('d, 'x) mounted" where
  "set_openFiles ofs s = s\<lparr>mt_fs := (mt_fs s)\<lparr>fs_openFiles := ofs\<rparr>\<rparr>"

definition mt_buffer :: "('d, 'x) mounted \<Rightarrow> adb_file \<Rightarrow> ('d, 'x) file_buffer" where
  "mt_buffer s f = of_heap (mt_openFiles s) ! af_FileBuffer f"

definition set_buffer where
  "set_buffer f buf w s =
     (set_openFiles ((mt_openFiles s)\<lparr>of_heap := (of_heap (mt_openFiles s))[af_FileBuffer f := buf]\<rparr>) s)
       \<lparr>mt_world := w\<rparr>"

text \<open>A request for an open file; one that is not open is not sent.\<close>

definition for_file where
  "for_file s h body =
     (if h < length (mt_files s)
      then (case mt_files s ! h of None \<Rightarrow> Return s | Some f \<Rightarrow> body f) else Return s)"

fun serve :: "'x goadb \<Rightarrow> request \<Rightarrow> ('d, 'x) mounted \<Rightarrow> ('d, 'x) mounted go" where
  "serve u (GetAttrReq name) s = after_device s (fs_GetAttr u name (mt_fs s) (w_dev (mt_world s)))"
| "serve u (OpenDirReq name) s = after_device s (fs_OpenDir u name (mt_fs s) (w_dev (mt_world s)))"
| "serve u (ReadlinkReq name) s = after_device s (fs_Readlink u name (mt_fs s) (w_dev (mt_world s)))"
| "serve u (AccessReq name mode) s = after_device s (fs_Access u name mode (mt_fs s) (w_dev (mt_world s)))"
| "serve u (StatFsReq name) s = after_device s (fs_StatFs u name (mt_fs s) (w_dev (mt_world s)))"
| "serve u (MkdirReq name) s = after_device s (fs_Mkdir u name (mt_fs s) (w_dev (mt_world s)))"
| "serve u (RenameReq a b) s = after_device s (fs_Rename u a b (mt_fs s) (w_dev (mt_world s)))"
| "serve u (RmdirReq name) s = after_device s (fs_Rmdir u name (mt_fs s) (w_dev (mt_world s)))"
| "serve u (UnlinkReq name) s = after_device s (fs_Unlink u name (mt_fs s) (w_dev (mt_world s)))"
| "serve u (OpenReq name flags) s = after_open s (fs_Open u name flags (mt_fs s) (mt_world s))"
| "serve u (CreateReq name flags perms) s =
     after_open s (fs_Create u name flags perms (mt_fs s) (mt_world s))"
| "serve u (ReadReq h buf off) s = for_file s h (\<lambda>f.
     go_bind (af_Read u (af_Flags f) buf off (mt_buffer s f)) (\<lambda>_. Return s))"
| "serve u (WriteReq h data off) s = for_file s h (\<lambda>f.
     go_bind (af_Write u (af_Flags f) data off (mt_buffer s f) (mt_world s)) (\<lambda>(_, _, b, w).
       Return (set_buffer f b w s)))"
| "serve u (FlushReq h) s = for_file s h (\<lambda>f.
     go_bind (af_Flush u (af_Flags f) (mt_buffer s f) (mt_world s)) (\<lambda>(_, _, b, w).
       Return (set_buffer f b w s)))"
| "serve u (FsyncReq h flags) s = for_file s h (\<lambda>f.
     go_bind (af_Fsync u flags (mt_buffer s f) (mt_world s)) (\<lambda>(_, _, b, w).
       Return (set_buffer f b w s)))"
| "serve u (TruncateReq h n) s = for_file s h (\<lambda>f.
     go_bind (af_Truncate u (af_Flags f) n (mt_buffer s f) (mt_world s)) (\<lambda>(_, _, b, w).
       Return (set_buffer f b w s)))"
| "serve u (FileGetAttrReq h) s = for_file s h (\<lambda>f.
     go_bind (af_GetAttr u zero_attr (mt_buffer s f) (mt_world s)) (\<lambda>(_, _, _, w).
       Return (s\<lparr>mt_world := w\<rparr>)))"
| "serve u (ReleaseReq h) s = for_file s h (\<lambda>f.
     go_bind (af_Release (af_FileBuffer f) (mt_openFiles s)) (\<lambda>(_, ofs).
       Return ((set_openFiles ofs s)\<lparr>mt_files := (mt_files s)[h := None]\<rparr>)))"

fun serve_all :: "'x goadb \<Rightarrow> request list \<Rightarrow> ('d, 'x) mounted \<Rightarrow> ('d, 'x) mounted go" where
  "serve_all u [] s = Return s"
| "serve_all u (r # rs) s = go_bind (serve u r s) (serve_all u rs)"

text \<open>A predicate that every request keeps holds after any session.\<close>

lemma serve_all_invariant:
  assumes "serve_all u rs s = Return s'" and "I s"
    and "\<And>r s s'. serve u r s = Return s' \<Longrightarrow> I s \<Longrightarrow> I s'"
  shows "I s'"
  using assms(1,2)
proof (induction rs arbitrary: s)
  case (Cons r rs)
  then obtain s1 where "serve u r s = Return s1" "serve_all u rs s1 = Return s'"
    by (auto elim!: go_bind_ReturnE)
  then show ?case using Cons.IH assms(3) [of r s s1] Cons.prems(2) by blast
qed simp

end
