(* ===== verification/Dir_Entry_Cache.thy ===== *)
theory Dir_Entry_Cache
  imports Device_Client
begin

text \<open>
  \<open>dir_entry_cache.go\<close> and the cached listings of \<open>caching_device_client.go\<close>. The cache of
  package go-cache is not part of the repository: its \<open>Get\<close>, \<open>Set\<close> and \<open>Delete\<close> are a record
  over its state, and its documented behaviour (what is returned was stored, and may have
  expired) is the locale \<open>go_cache\<close>. \<open>RemoveEventually\<close> starts a goroutine: the deletion it
  will do is pending in the state until the goroutine runs.
\<close>

record CachedDirEntries =
  InOrder :: "dir_entry list"
  ByName :: "string \<Rightarrow> dir_entry option"

definition NewCachedDirEntries :: "dir_entry list \<Rightarrow> CachedDirEntries" where
  "NewCachedDirEntries entries =
     \<lparr>InOrder = entries, ByName = foldl (\<lambda>m e. m(de_name e \<mapsto> e)) Map.empty entries\<rparr>"

lemma foldl_by_name:
  "foldl (\<lambda>m e. m(de_name e \<mapsto> e)) m es = m ++ map_of (rev (map (\<lambda>e. (de_name e, e)) es))"
  by (induction es arbitrary: m) (simp_all add: fun_eq_iff map_add_def split: option.splits)

lemma NewCached_InOrder [simp]: "InOrder (NewCachedDirEntries es) = es"
  by (simp add: NewCachedDirEntries_def)

lemma NewCached_ByName:
  "ByName (NewCachedDirEntries es) = map_of (rev (map (\<lambda>e. (de_name e, e)) es))"
  by (simp add: NewCachedDirEntries_def foldl_by_name)

text \<open>With distinct names, a name finds its entry and nothing else is found.\<close>

lemma NewCached_ByName_iff:
  assumes "distinct (map de_name es)"
  shows "ByName (NewCachedDirEntries es) n = Some e \<longleftrightarrow> e \<in> set es \<and> de_name e = n"
proof -
  have "distinct (map fst (rev (map (\<lambda>e. (de_name e, e)) es)))"
    using assms by (simp add: rev_map [symmetric] comp_def)
  then show ?thesis
    by (auto simp: NewCached_ByName map_of_eq_Some_iff)
qed

lemma NewCached_ByName_None:
  "ByName (NewCachedDirEntries es) n = None \<longleftrightarrow> n \<notin> de_name ` set es"
  by (auto simp: NewCached_ByName map_of_eq_None_iff image_image)

subsection \<open>go-cache\<close>

record ('c, 'v) kv_cache =
  kv_Get :: "string \<Rightarrow> 'c \<Rightarrow> 'v option \<times> 'c"
  kv_Set :: "string \<Rightarrow> 'v \<Rightarrow> 'c \<Rightarrow> 'c"
  kv_Delete :: "string \<Rightarrow> 'c \<Rightarrow> 'c"

locale go_cache =
  fixes kv :: "('c, 'v) kv_cache"
    and items :: "'c \<Rightarrow> string \<Rightarrow> 'v option"
  assumes get_law: "kv_Get kv k c = (r, c') \<Longrightarrow> (r = None \<or> r = items c k) \<and> items c' \<subseteq>\<^sub>m items c"
    and set_law: "items (kv_Set kv k v c) = (items c)(k \<mapsto> v)"
    and delete_law: "items (kv_Delete kv k c) = (items c)(k := None)"

subsection \<open>The interface DirEntryCache\<close>

text \<open>The loader runs over a state \<open>'s\<close> of its own (the device and the log entry).\<close>

record ('c, 's, 'x) DirEntryCache =
  dc_GetOrLoad :: "string \<Rightarrow> (string \<Rightarrow> 's \<Rightarrow> ('x err + CachedDirEntries) \<times> 's) \<Rightarrow> 'c \<Rightarrow> 's \<Rightarrow>
    ('x err + CachedDirEntries) \<times> bool \<times> 'c \<times> 's"
  dc_Get :: "string \<Rightarrow> 'c \<Rightarrow> CachedDirEntries option \<times> 'c"
  dc_RemoveEventually :: "string \<Rightarrow> 'c \<Rightarrow> 'c"

locale dir_cache =
  fixes dc :: "('c, 's, 'x) DirEntryCache"
    and stored :: "'c \<Rightarrow> string \<Rightarrow> CachedDirEntries option"
    and settle :: "'c \<Rightarrow> 'c"
  assumes get_stored: "dc_Get dc p c = (found, c') \<Longrightarrow> (found = None \<or> found = stored c p) \<and> stored c' \<subseteq>\<^sub>m stored c"
    and load_hit: "dc_GetOrLoad dc p load c s = (r, True, c', s') \<Longrightarrow>
        (\<exists>e. r = Inr e \<and> stored c p = Some e) \<and> s' = s \<and> stored c' \<subseteq>\<^sub>m stored c"
    and load_miss: "dc_GetOrLoad dc p load c s = (r, False, c', s') \<Longrightarrow>
        load p s = (r, s') \<and>
        (case r of Inl _ \<Rightarrow> stored c' \<subseteq>\<^sub>m stored c
         | Inr e \<Rightarrow> stored c' p = Some e \<and> stored c' |` (- {p}) \<subseteq>\<^sub>m stored c)"
    and remove_stored: "stored (dc_RemoveEventually dc p c) \<subseteq>\<^sub>m stored c"
    and remove_settled: "stored (settle (dc_RemoveEventually dc p c)) p = None"
    and settle_stored: "stored (settle c) \<subseteq>\<^sub>m stored c"
begin

text \<open>No listing appears in the cache that was not stored there or just loaded.\<close>

lemma load_stored_from:
  assumes "dc_GetOrLoad dc p load c s = (r, hit, c', s')" and "stored c' q = Some e"
  shows "stored c q = Some e \<or> (q = p \<and> \<not> hit \<and> load p s = (Inr e, s'))"
proof (cases hit)
  case True
  then show ?thesis
    using load_hit [of p load c s r c' s'] assms by (auto simp: map_le_def dom_def)
next
  case False
  then have "dc_GetOrLoad dc p load c s = (r, False, c', s')" using assms(1) by simp
  note miss = load_miss [OF this]
  show ?thesis
  proof (cases r)
    case (Inl err)
    then show ?thesis using miss assms(2) by (auto simp: map_le_def dom_def)
  next
    case (Inr e')
    then have s: "stored c' p = Some e'" "stored c' |` (- {p}) \<subseteq>\<^sub>m stored c" using miss by auto
    show ?thesis
    proof (cases "q = p")
      case True
      then show ?thesis using s(1) assms(2) miss Inr False by simp
    next
      case False
      then have "(stored c' |` (- {p})) q = Some e" using assms(2) by simp
      then show ?thesis using s(2) by (metis domI map_le_def)
    qed
  qed
qed

end

subsection \<open>realDirEntryCache\<close>

record 'c real_cache =
  rc_cache :: 'c
  rc_goroutines :: "string list"

definition rdc_Get where
  "rdc_Get kv path c =
     (case kv_Get kv path (rc_cache c) of (r, k) \<Rightarrow> (r, c\<lparr>rc_cache := k\<rparr>))"

definition rdc_GetOrLoad where
  "rdc_GetOrLoad kv path loader c s =
     (case rdc_Get kv path c of
        (Some entries, c') \<Rightarrow> (Inr entries, True, c', s)
      | (None, c') \<Rightarrow>
          (case loader path s of
             (Inl err, s') \<Rightarrow> (Inl err, False, c', s')
           | (Inr entries, s') \<Rightarrow>
               (Inr entries, False, c'\<lparr>rc_cache := kv_Set kv path entries (rc_cache c')\<rparr>, s')))"

definition rdc_RemoveEventually where
  "rdc_RemoveEventually path c = c\<lparr>rc_goroutines := rc_goroutines c @ [path]\<rparr>"

definition real_dir_cache :: "('c, CachedDirEntries) kv_cache \<Rightarrow> ('c real_cache, 's, 'x) DirEntryCache" where
  "real_dir_cache kv =
     \<lparr>dc_GetOrLoad = rdc_GetOrLoad kv, dc_Get = rdc_Get kv, dc_RemoveEventually = rdc_RemoveEventually\<rparr>"

text \<open>All pending goroutines run.\<close>

definition rdc_settle :: "('c, CachedDirEntries) kv_cache \<Rightarrow> 'c real_cache \<Rightarrow> 'c real_cache" where
  "rdc_settle kv c = \<lparr>rc_cache = fold (kv_Delete kv) (rc_goroutines c) (rc_cache c), rc_goroutines = []\<rparr>"

context go_cache begin

lemma items_fold_delete:
  "items (fold (kv_Delete kv) ps k) = (\<lambda>q. if q \<in> set ps then None else items k q)"
  by (induction ps arbitrary: k) (auto simp: delete_law fun_eq_iff)

end

locale listing_cache = go_cache kv items
  for kv :: "('c, CachedDirEntries) kv_cache"
    and items :: "'c \<Rightarrow> string \<Rightarrow> CachedDirEntries option"

sublocale listing_cache \<subseteq> real: dir_cache "real_dir_cache kv" "\<lambda>c. items (rc_cache c)" "rdc_settle kv"
proof
  fix p c found c'
  assume "dc_Get (real_dir_cache kv) p c = (found, c')"
  then show "(found = None \<or> found = items (rc_cache c) p) \<and>
      items (rc_cache c') \<subseteq>\<^sub>m items (rc_cache c)"
    using get_law [of p "rc_cache c"] by (auto simp: real_dir_cache_def rdc_Get_def split: prod.splits)
next
  fix p load c s r c' s'
  assume "dc_GetOrLoad (real_dir_cache kv) p load c s = (r, True, c', s')"
  then show "(\<exists>e. r = Inr e \<and> items (rc_cache c) p = Some e) \<and> s' = s \<and>
      items (rc_cache c') \<subseteq>\<^sub>m items (rc_cache c)"
    using get_law [of p "rc_cache c"]
    by (auto simp: real_dir_cache_def rdc_GetOrLoad_def rdc_Get_def
        split: prod.splits option.splits sum.splits)
next
  fix p load c s r c' s'
  assume a: "dc_GetOrLoad (real_dir_cache kv) p load c s = (r, False, c', s')"
  obtain found k where g: "kv_Get kv p (rc_cache c) = (found, k)" by fastforce
  then have k: "items k \<subseteq>\<^sub>m items (rc_cache c)" using get_law by blast
  have n: "found = None"
    using a g by (auto simp: real_dir_cache_def rdc_GetOrLoad_def rdc_Get_def split: option.splits sum.splits prod.splits)
  show "load p s = (r, s') \<and>
        (case r of Inl _ \<Rightarrow> items (rc_cache c') \<subseteq>\<^sub>m items (rc_cache c)
         | Inr e \<Rightarrow> items (rc_cache c') p = Some e \<and>
             items (rc_cache c') |` (- {p}) \<subseteq>\<^sub>m items (rc_cache c))"
  proof (cases "load p s")
    case (Pair r' s'')
    then show ?thesis
      using a g n k
      by (cases r') (auto simp: real_dir_cache_def rdc_GetOrLoad_def rdc_Get_def set_law map_le_def)
  qed
next
  fix p c
  show "items (rc_cache (dc_RemoveEventually (real_dir_cache kv) p c)) \<subseteq>\<^sub>m items (rc_cache c)"
    by (simp add: real_dir_cache_def rdc_RemoveEventually_def)
next
  fix p c
  show "items (rc_cache (rdc_settle kv (dc_RemoveEventually (real_dir_cache kv) p c))) p = None"
    by (simp add: real_dir_cache_def rdc_RemoveEventually_def rdc_settle_def items_fold_delete delete_law)
next
  fix c
  show "items (rc_cache (rdc_settle kv c)) \<subseteq>\<^sub>m items (rc_cache c)"
    by (auto simp: rdc_settle_def items_fold_delete map_le_def)
qed

end
