(* ===== verification/Caching_Client.thy ===== *)
theory Caching_Client
  imports Dir_Entry_Cache Go_Path
begin

text \<open>
  \<open>CachingDeviceClient\<close> of \<open>caching_device_client.go\<close>: a device client over another one and
  the shared cache of directory listings. Its state is the pair of the inner client's state
  and the cache. The methods it does not define are those of the embedded client.
\<close>

definition caching_Stat where
  "caching_Stat u inner cache name log s =
     (case s of (d, c) \<Rightarrow>
      let dir = path_dir name; base = path_base name in
      if dir = base then
        (case Stat inner name log d of (r, log', d') \<Rightarrow> (r, log', (d', c)))
      else
        (case dc_Get cache dir c of
           (Some entries, c') \<Rightarrow>
             (case ByName entries base of
                Some entry \<Rightarrow> (Inr entry, log_CacheUsed True log, (d, c'))
              | None \<Rightarrow>
                  (Inl (Errorf u FileNoExistError
                     (''name '' @ quoted base @ '' does not exist in cached directory listing'')),
                   log_CacheUsed True log, (d, c')))
         | (None, c') \<Rightarrow>
             (case Stat inner name (log_CacheUsed False log) d of
                (r, log', d') \<Rightarrow> (r, log', (d', c')))))"

text \<open>The loader that \<open>ListDirEntries\<close> passes to the cache, over the log entry and the device.\<close>

definition listing_loader where
  "listing_loader inner path s =
     (case s of (log, d) \<Rightarrow>
      case ListDirEntries inner path log d of
        (Inl err, log', d') \<Rightarrow> (Inl err, (log', d'))
      | (Inr entries, log', d') \<Rightarrow> (Inr (NewCachedDirEntries entries), (log', d')))"

definition caching_ListDirEntries where
  "caching_ListDirEntries inner cache path log s =
     (case s of (d, c) \<Rightarrow>
      case dc_GetOrLoad cache path (listing_loader inner) c (log, d) of
        (r, hit, c', (log', d')) \<Rightarrow>
          ((case r of Inl err \<Rightarrow> Inl err | Inr entries \<Rightarrow> Inr (InOrder entries)),
           log_CacheUsed hit log', (d', c')))"

text \<open>\<open>onCloseWriter\<close>: the inner writer; closing it runs the callback after the inner close.\<close>

definition onCloseWriter :: "('d, 'x) writer \<Rightarrow> ('c \<Rightarrow> 'c) \<Rightarrow> ('d \<times> 'c, 'x) writer" where
  "onCloseWriter w onClosed =
     \<lparr>w_Write = (\<lambda>b (d, c). case w_Write w b d of (r, d') \<Rightarrow> (r, (d', c))),
      w_Close = (\<lambda>(d, c). case w_Close w d of (err, d') \<Rightarrow> (err, (d', onClosed c)))\<rparr>"

definition caching_OpenWrite where
  "caching_OpenWrite inner cache name perms mtime s =
     (case s of (d, c) \<Rightarrow>
      case OpenWrite inner name perms mtime d of
        (Inl err, d') \<Rightarrow> (Inl err, (d', c))
      | (Inr w, d') \<Rightarrow>
          (Inr (onCloseWriter w (dc_RemoveEventually cache (path_dir name))), (d', c)))"

definition caching_client ::
  "'x goadb \<Rightarrow> ('d, 'x) device_client \<Rightarrow> ('c, 'x log_entry \<times> 'd, 'x) DirEntryCache \<Rightarrow>
   ('d \<times> 'c, 'x) device_client" where
  "caching_client u inner cache =
     \<lparr>OpenRead = (\<lambda>path (d, c). case OpenRead inner path d of (r, d') \<Rightarrow> (r, (d', c))),
      OpenWrite = caching_OpenWrite inner cache,
      Stat = caching_Stat u inner cache,
      ListDirEntries = caching_ListDirEntries inner cache,
      RunCommand = (\<lambda>cmd args (d, c). case RunCommand inner cmd args d of (r, d') \<Rightarrow> (r, (d', c)))\<rparr>"

text \<open>\<open>NewCachingDeviceClientFactory\<close>: each call makes an inner client and wraps it.\<close>

definition NewCachingDeviceClientFactory where
  "NewCachingDeviceClientFactory u cache factory s =
     (case s of (d, c) \<Rightarrow> case factory d of (inner, d') \<Rightarrow> (caching_client u inner cache, (d', c)))"

subsection \<open>Stat, case by case\<close>

lemma caching_Stat_root:
  "path_dir name = path_base name \<Longrightarrow>
   caching_Stat u inner cache name log (d, c) =
     (case Stat inner name log d of (r, log', d') \<Rightarrow> (r, log', (d', c)))"
  by (simp add: caching_Stat_def)

lemma caching_Stat_hit:
  assumes "path_dir name \<noteq> path_base name"
    and "dc_Get cache (path_dir name) c = (Some entries, c')"
  shows "caching_Stat u inner cache name log (d, c) =
    ((case ByName entries (path_base name) of
        Some e \<Rightarrow> Inr e
      | None \<Rightarrow> Inl (Errorf u FileNoExistError
          (''name '' @ quoted (path_base name) @ '' does not exist in cached directory listing''))),
     log_CacheUsed True log, (d, c'))"
  using assms by (simp add: caching_Stat_def Let_def split: option.splits)

lemma caching_Stat_miss:
  assumes "path_dir name \<noteq> path_base name" and "dc_Get cache (path_dir name) c = (None, c')"
  shows "caching_Stat u inner cache name log (d, c) =
    (case Stat inner name (log_CacheUsed False log) d of (r, log', d') \<Rightarrow> (r, log', (d', c')))"
  using assms by (simp add: caching_Stat_def Let_def)

subsection \<open>The log discipline carries over\<close>

text \<open>
  The loader runs the inner client, so what the cache's loader state is at the end comes from
  the inner client or is the initial one. This holds of every cache that runs its loader at
  most once, on the state it is given.
\<close>

locale caching = log_discipline c + dir_cache dc stored settle
  for c :: "('d, 'x) device_client"
    and dc :: "('c, 'x log_entry \<times> 'd, 'x) DirEntryCache"
    and stored settle
begin

lemma loader_log:
  "listing_loader c p (r, d) = (res, (r', d')) \<Longrightarrow> same_report r r'"
  using list_log [of p r d] by (auto simp: listing_loader_def split: prod.splits sum.splits)

lemma caching_stat_log:
  assumes "caching_Stat u c dc p r s = (res, r', s')"
  shows "same_report r r'"
proof -
  obtain d k where s: "s = (d, k)" by fastforce
  have hit: "same_report r (log_CacheUsed False r)" by simp
  show ?thesis
    using assms stat_log [of p r d] same_report_trans [OF hit stat_log [of p "log_CacheUsed False r" d]]
    by (auto simp: s caching_Stat_def Let_def split: prod.splits option.splits if_splits)
qed

lemma caching_list_log:
  assumes "caching_ListDirEntries c dc p r s = (res, r', s')"
  shows "same_report r r'"
proof -
  obtain d k where s: "s = (d, k)" by fastforce
  obtain res0 hit k' r0 d0 where g:
    "dc_GetOrLoad dc p (listing_loader c) k (r, d) = (res0, hit, k', (r0, d0))"
    by (metis surj_pair)
  have "same_report r r0"
  proof (cases hit)
    case True
    then have "dc_GetOrLoad dc p (listing_loader c) k (r, d) = (res0, True, k', (r0, d0))"
      using g by simp
    from load_hit [OF this] have "(r0, d0) = (r, d)" by blast
    then show ?thesis by simp
  next
    case False
    then have "listing_loader c p (r, d) = (res0, (r0, d0))"
      using load_miss [of p _ k "(r, d)" res0 k' "(r0, d0)"] g by auto
    then show ?thesis by (rule loader_log)
  qed
  then have "same_report r (log_CacheUsed hit r0)"
    using same_report_trans same_report_CacheUsed by blast
  then show ?thesis using assms g s by (simp add: caching_ListDirEntries_def)
qed

lemma caching_log: "log_discipline (caching_client u c dc)"
  by unfold_locales
    (auto simp: caching_client_def intro: caching_stat_log caching_list_log)

end

subsection \<open>Listings and lookups agree\<close>

text \<open>Every stored listing has the index that \<open>NewCachedDirEntries\<close> makes of it.\<close>

definition indexed :: "('c \<Rightarrow> string \<Rightarrow> CachedDirEntries option) \<Rightarrow> 'c \<Rightarrow> bool" where
  "indexed stored c \<longleftrightarrow> (\<forall>p e. stored c p = Some e \<longrightarrow> e = NewCachedDirEntries (InOrder e))"

lemma indexed_le: "indexed stored c \<Longrightarrow> stored c' \<subseteq>\<^sub>m stored c \<Longrightarrow> indexed stored c'"
  unfolding indexed_def by (metis domI map_le_def)

lemma find_by_name:
  assumes "distinct (map de_name es)"
  shows "ByName (NewCachedDirEntries es) n = List.find (\<lambda>e. de_name e = n) es"
proof (cases "List.find (\<lambda>e. de_name e = n) es")
  case None
  then have "n \<notin> de_name ` set es" by (auto simp: find_None_iff)
  then show ?thesis using None by (simp add: NewCached_ByName_None)
next
  case (Some e)
  then have "e \<in> set es" "de_name e = n" by (auto simp: find_Some_iff)
  then show ?thesis using Some NewCached_ByName_iff [OF assms] by simp
qed

text \<open>The cache as a client with devices of state \<open>'d\<close> uses it.\<close>

locale listing_client = dir_cache dc stored settle
  for dc :: "('c, 'x log_entry \<times> 'd, 'x) DirEntryCache"
    and stored settle
begin

lemma listing_indexed:
  assumes "caching_ListDirEntries inner dc dir log (d, k) = (res, log', (d', k'))" and "indexed stored k"
  shows "indexed stored k' \<and> (\<forall>es. res = Inr es \<longrightarrow> (\<forall>e. stored k' dir = Some e \<longrightarrow> e = NewCachedDirEntries es))"
proof -
  obtain r hit r0 where g: "dc_GetOrLoad dc dir (listing_loader inner) k (log, d) = (r, hit, k', (r0, d'))"
    and res: "res = (case r of Inl err \<Rightarrow> Inl err | Inr entries \<Rightarrow> Inr (InOrder entries))"
    using assms(1) by (auto simp: caching_ListDirEntries_def split: prod.splits)
  have from_load: "e = NewCachedDirEntries (InOrder e)" if "listing_loader inner dir (log, d) = (Inr e, s')" for e s'
    using that by (auto simp: listing_loader_def split: prod.splits sum.splits)
  have ix: "indexed stored k'"
    unfolding indexed_def
  proof (intro allI impI)
    fix q e
    assume "stored k' q = Some e"
    from load_stored_from [OF g this] show "e = NewCachedDirEntries (InOrder e)"
      using assms(2) from_load by (auto simp: indexed_def)
  qed
  have "e' = NewCachedDirEntries (InOrder e)" if "r = Inr e" "stored k' dir = Some e'" for e e'
  proof (cases hit)
    case True
    then have "stored k dir = Some e" "stored k' \<subseteq>\<^sub>m stored k"
      using load_hit [of dir "listing_loader inner" k "(log, d)" r k' "(r0, d')"] g that(1) by auto
    then have "e' = e" using that(2) by (metis domI map_le_def option.inject)
    then show ?thesis using ix that(2) by (auto simp: indexed_def)
  next
    case False
    then have "stored k' dir = Some e"
      using load_miss [of dir "listing_loader inner" k "(log, d)" r k' "(r0, d')"] g that(1) by auto
    then show ?thesis using ix that(2) by (auto simp: indexed_def)
  qed
  then show ?thesis using ix res by (auto split: sum.splits)
qed

text \<open>A lookup that hits the cache after a listing finds what the listing shows, and nothing else.\<close>

lemma Stat_after_listing:
  assumes "caching_ListDirEntries inner dc dir log (d, k) = (Inr es, log', (d', k'))" and "indexed stored k"
    and "path_dir name = dir" and "path_base name \<noteq> dir" and "distinct (map de_name es)"
    and "dc_Get dc dir k' = (Some entries, k2)"
  shows "caching_Stat u inner dc name log2 (d', k') =
    ((case List.find (\<lambda>e. de_name e = path_base name) es of
        Some e \<Rightarrow> Inr e
      | None \<Rightarrow> Inl (Errorf u FileNoExistError
          (''name '' @ quoted (path_base name) @ '' does not exist in cached directory listing''))),
     log_CacheUsed True log2, (d', k2))"
proof -
  have "stored k' dir = Some entries" using get_stored [OF assms(6)] by auto
  then have "entries = NewCachedDirEntries es" using listing_indexed [OF assms(1,2)] by blast
  then have "ByName entries (path_base name) = List.find (\<lambda>e. de_name e = path_base name) es"
    using find_by_name [OF assms(5)] by simp
  then show ?thesis
    using caching_Stat_hit [of name dc k' entries k2 u inner log2 d'] assms(3,4,6) by simp
qed

text \<open>Closing a writer drops the listing of the file's directory, once the goroutine has run.\<close>

lemma close_drops_listing:
  assumes "caching_OpenWrite inner dc name perms mtime s = (Inr W, s1)" and "w_Close W s2 = (err, s3)"
  shows "stored (settle (snd s3)) (path_dir name) = None"
  using assms remove_settled
  by (auto simp: caching_OpenWrite_def onCloseWriter_def split: prod.splits sum.splits)

end

subsection \<open>The files seen through the cache are the device's\<close>

context file_device begin

definition receiving_cached :: "('d \<times> 'c, 'x) writer \<Rightarrow> string \<Rightarrow> byte list \<Rightarrow> 'd \<times> 'c \<Rightarrow> bool" where
  "receiving_cached W p b s \<longleftrightarrow> (\<exists>w f. W = onCloseWriter w f \<and> receiving w p b (fst s))"

definition closed_cached :: "('d \<times> 'c, 'x) writer \<Rightarrow> 'd \<times> 'c \<Rightarrow> bool" where
  "closed_cached W s \<longleftrightarrow> (\<exists>w f. W = onCloseWriter w f \<and> closed w (fst s))"

lemma caching_file_device:
  "file_device (caching_client u c (dc :: ('c, 'x log_entry \<times> 'd, 'x) DirEntryCache))
     (valid \<circ> fst) (files \<circ> fst) (writable \<circ> fst) receiving_cached closed_cached"
proof
  fix s :: "'d \<times> 'c" and p b
  assume "(valid \<circ> fst) s" "(files \<circ> fst) s p = Some b"
  then show "\<exists>k s'. OpenRead (caching_client u c dc) p s =
        (Inr \<lparr>st_data = b, st_slack = replicate k 0, st_err = None\<rparr>, s') \<and>
      (valid \<circ> fst) s' \<and> (files \<circ> fst) s' = (files \<circ> fst) s \<and>
      (writable \<circ> fst) s' = (writable \<circ> fst) s"
    using open_read_law [of "fst s" p b] by (cases s) (fastforce simp: caching_client_def)
next
  fix s :: "'d \<times> 'c" and p m t
  assume "(valid \<circ> fst) s" "(writable \<circ> fst) s p"
  then show "\<exists>W s'. OpenWrite (caching_client u c dc) p m t s = (Inr W, s') \<and>
      receiving_cached W p [] s' \<and>
      (\<forall>q. q \<noteq> p \<longrightarrow> (files \<circ> fst) s' q = (files \<circ> fst) s q) \<and>
      (writable \<circ> fst) s' = (writable \<circ> fst) s"
    using open_write_law [of "fst s" p m t]
    by (cases s) (fastforce simp: caching_client_def caching_OpenWrite_def receiving_cached_def)
next
  fix W and s :: "'d \<times> 'c" and p b b'
  assume "receiving_cached W p b s"
  then obtain w f where W: "W = onCloseWriter w f" "receiving w p b (fst s)"
    by (auto simp: receiving_cached_def)
  then show "\<exists>s'. w_Write W b' s = ((int (length b'), None), s') \<and>
      receiving_cached W p (b @ b') s' \<and>
      (\<forall>q. q \<noteq> p \<longrightarrow> (files \<circ> fst) s' q = (files \<circ> fst) s q) \<and>
      (writable \<circ> fst) s' = (writable \<circ> fst) s"
    using write_law [OF W(2), of b'] by (cases s) (fastforce simp: onCloseWriter_def receiving_cached_def)
next
  fix W and s :: "'d \<times> 'c" and p b
  assume "receiving_cached W p b s"
  then obtain w f where W: "W = onCloseWriter w f" "receiving w p b (fst s)"
    by (auto simp: receiving_cached_def)
  then show "\<exists>s'. w_Close W s = (None, s') \<and> closed_cached W s' \<and> (valid \<circ> fst) s' \<and>
      (files \<circ> fst) s' = ((files \<circ> fst) s)(p \<mapsto> b) \<and>
      (writable \<circ> fst) s' = (writable \<circ> fst) s"
    using close_law [OF W(2)] by (cases s) (fastforce simp: onCloseWriter_def closed_cached_def)
next
  fix W and s :: "'d \<times> 'c"
  assume "closed_cached W s" "(valid \<circ> fst) s"
  then obtain w f where W: "W = onCloseWriter w f" "closed w (fst s)" "valid (fst s)"
    by (auto simp: closed_cached_def)
  then show "\<exists>e s'. w_Close W s = (e, s') \<and> (valid \<circ> fst) s' \<and>
      (files \<circ> fst) s' = (files \<circ> fst) s \<and> (writable \<circ> fst) s' = (writable \<circ> fst) s"
    using close_again_law [OF W(2,3)] by (cases s) (fastforce simp: onCloseWriter_def)
qed

end

end
