(* ===== verification/Reference_Device.thy ===== *)
theory Reference_Device
  imports Caching_Client
begin

text \<open>
  Concrete instances of what the repository only calls: goadb's error functions, a device that
  keeps its files in memory, and a cache whose items expire. They show that the laws of the
  interfaces can hold together, and the properties are evaluated on them. The interpretations
  are of the code's own clients over these instances: \<open>goadbDeviceClient\<close> over the device, and
  \<open>CachingDeviceClient\<close> and \<open>realDirEntryCache\<close> over those.
\<close>

subsection \<open>goadb's errors\<close>

datatype ref_error = Coded err_code string | Wrapping ref_error string

fun ref_code :: "ref_error \<Rightarrow> err_code" where
  "ref_code (Coded c m) = c"
| "ref_code (Wrapping e m) = ref_code e"

fun ref_has :: "ref_error err \<Rightarrow> err_code \<Rightarrow> bool" where
  "ref_has (Foreign x) c = (ref_code x = c)"
| "ref_has _ c = False"

text \<open>\<open>WrapErrf\<close> casts its cause to goadb's error type, and panics on any other error.\<close>

fun ref_wrap :: "ref_error err \<Rightarrow> string \<Rightarrow> ref_error err go" where
  "ref_wrap (Foreign x) m = Return (Foreign (Wrapping x m))"
| "ref_wrap _ m = Panic ''interface conversion''"

fun ref_message :: "ref_error \<Rightarrow> string" where
  "ref_message (Coded c m) = m"
| "ref_message (Wrapping e m) = m @ '' caused by '' @ ref_message e"

fun ref_chain :: "ref_error err \<Rightarrow> string" where
  "ref_chain (Foreign x) = ref_message x"
| "ref_chain (ErrText m) = m"
| "ref_chain _ = ''error''"

definition ref_util :: "ref_error goadb" where
  "ref_util =
     \<lparr>HasErrCode = ref_has, WrapErrf = ref_wrap, Errorf = (\<lambda>c m. Foreign (Coded c m)),
      ErrorWithCauseChain = ref_chain, FormatEntry = de_name, FormatAttr = (\<lambda>a. ''attr''),
      FormatStatfs = (\<lambda>s. ''statfs''), DefaultFileString = ''defaultFile''\<rparr>"

lemma ref_has_foreign: "ref_has e c \<Longrightarrow> \<exists>x. e = Foreign x"
  by (cases e) simp_all

lemma ref_wrap_Return: "ref_wrap e m = Return e' \<longleftrightarrow> (\<exists>x. e = Foreign x \<and> e' = Foreign (Wrapping x m))"
  by (cases e) auto

interpretation ref: goadb_util ref_util
  by unfold_locales (auto simp: ref_util_def ref_wrap_Return dest: ref_has_foreign)

subsection \<open>A device in memory\<close>

datatype node = FileNode "byte list" mode | LinkNode string | DirNode "string list"

record mem =
  m_nodes :: "string \<Rightarrow> node option"
  m_open :: "nat \<Rightarrow> (string \<times> mode \<times> byte list) option"
  m_next :: nat

fun node_entry :: "string \<Rightarrow> node \<Rightarrow> dir_entry" where
  "node_entry n (FileNode b m) = \<lparr>de_name = n, de_mode = m, de_size = int (length b), de_mtime = 0\<rparr>"
| "node_entry n (LinkNode t) = \<lparr>de_name = n, de_mode = ModeSymlink OR 0x1FF, de_size = 0, de_mtime = 0\<rparr>"
| "node_entry n (DirNode ns) = \<lparr>de_name = n, de_mode = ModeDir OR 0x1ED, de_size = 0, de_mtime = 0\<rparr>"

definition not_found :: "string \<Rightarrow> ref_error err" where
  "not_found p = Foreign (Coded FileNoExistError p)"

definition mem_Write :: "nat \<Rightarrow> byte list \<Rightarrow> mem \<Rightarrow> (int \<times> ref_error err option) \<times> mem" where
  "mem_Write i b d =
     (case m_open d i of
        None \<Rightarrow> ((0, Some (ErrText ''closed'')), d)
      | Some (p, m, b0) \<Rightarrow>
          ((int (length b), None), d\<lparr>m_open := (m_open d)(i \<mapsto> (p, m, b0 @ b))\<rparr>))"

definition mem_Close :: "nat \<Rightarrow> mem \<Rightarrow> ref_error err option \<times> mem" where
  "mem_Close i d =
     (case m_open d i of
        None \<Rightarrow> (Some (ErrText ''closed''), d)
      | Some (p, m, b) \<Rightarrow>
          (None, d\<lparr>m_open := (m_open d)(i := None), m_nodes := (m_nodes d)(p \<mapsto> FileNode b m)\<rparr>))"

definition mem_writer :: "nat \<Rightarrow> (mem, ref_error) writer" where
  "mem_writer i = \<lparr>w_Write = mem_Write i, w_Close = mem_Close i\<rparr>"

definition mem_OpenRead :: "string \<Rightarrow> mem \<Rightarrow> (ref_error err + ref_error stream) \<times> mem" where
  "mem_OpenRead p d =
     (case m_nodes d p of
        Some (FileNode b m) \<Rightarrow> (Inr \<lparr>st_data = b, st_slack = [], st_err = None\<rparr>, d)
      | _ \<Rightarrow> (Inl (not_found p), d))"

definition mem_writable :: "mem \<Rightarrow> string \<Rightarrow> bool" where
  "mem_writable d p =
     (case m_nodes d p of None \<Rightarrow> True | Some (FileNode b m) \<Rightarrow> True | _ \<Rightarrow> False)"

definition mem_OpenWrite where
  "mem_OpenWrite p m (t :: mtime) d =
     (if mem_writable d p
      then (Inr (mem_writer (m_next d)),
            d\<lparr>m_open := (m_open d)(m_next d \<mapsto> (p, m, [])), m_next := Suc (m_next d)\<rparr>)
      else (Inl (not_found p), d))"

definition mem_Stat :: "string \<Rightarrow> mem \<Rightarrow> (ref_error err + dir_entry) \<times> mem" where
  "mem_Stat p d =
     (case m_nodes d p of None \<Rightarrow> (Inl (not_found p), d) | Some n \<Rightarrow> (Inr (node_entry p n), d))"

definition mem_List where
  "mem_List p d =
     (case m_nodes d p of
        Some (DirNode ns) \<Rightarrow>
          (Inr (\<lambda>d'. (Inr (List.map_filter
             (\<lambda>n. map_option (node_entry n) (m_nodes d' (path_join [p, n]))) ns), d')), d)
      | _ \<Rightarrow> (Inl (not_found p), d))"

definition crlf :: string where
  "crlf = [CHR 0x0D, CHR 0x0A]"

definition mem_readlink :: "mem \<Rightarrow> string \<Rightarrow> string" where
  "mem_readlink d p =
     (case m_nodes d p of Some (LinkNode t) \<Rightarrow> t @ crlf | _ \<Rightarrow> ReadlinkInvalidArgument @ crlf)"

definition mem_RunCommand ::
  "string \<Rightarrow> string list \<Rightarrow> mem \<Rightarrow> (ref_error err + string) \<times> mem" where
  "mem_RunCommand cmd args d =
     (if cmd = ''readlink'' then (Inr (mem_readlink d (hd (args @ ['''']))), d)
      else if cmd = ''rm'' then
        (case args of
           [p] \<Rightarrow> if m_nodes d p = None then (Inr ''rm: No such file or directory'', d)
                  else (Inr '''', d\<lparr>m_nodes := (m_nodes d)(p := None)\<rparr>)
         | _ \<Rightarrow> (Inr ''usage'', d))
      else if cmd = ''mkdir'' then
        (case args of
           [p] \<Rightarrow> if m_nodes d p = None then (Inr '''', d\<lparr>m_nodes := (m_nodes d)(p \<mapsto> DirNode [])\<rparr>)
                  else (Inr ''mkdir failed'', d)
         | _ \<Rightarrow> (Inr ''usage'', d))
      else (Inr ''not found'', d))"

definition mem_adb :: "(mem, ref_error) adb_device" where
  "mem_adb =
     \<lparr>adb_OpenRead = mem_OpenRead, adb_OpenWrite = mem_OpenWrite, adb_Stat = mem_Stat,
      adb_ListDirEntries = mem_List, adb_RunCommand = mem_RunCommand\<rparr>"

definition mem_client :: "(mem, ref_error) device_client" where
  "mem_client = goadb_client ref_util mem_adb None"

lemma mem_client_simps [simp]:
  "OpenWrite mem_client p m t = mem_OpenWrite p m t"
  "RunCommand mem_client = mem_RunCommand"
  by (simp_all add: mem_client_def goadb_client_def goadb_OpenWrite_def mem_adb_def fun_eq_iff)

lemma mem_client_OpenRead [simp]: "OpenRead mem_client p d = mem_OpenRead p d"
  by (auto simp: mem_client_def goadb_client_def goadb_OpenRead_def mem_adb_def notify_def
      handleDeviceNotFound_def split: prod.splits sum.splits)

lemma mem_client_Stat [simp]:
  "Stat mem_client p log d = (case mem_Stat p d of (r, d') \<Rightarrow> (r, log, d'))"
  by (auto simp: mem_client_def goadb_client_def goadb_Stat_def mem_adb_def notify_def
      handleDeviceNotFound_def split: prod.splits sum.splits)

definition mem_files :: "mem \<Rightarrow> string \<Rightarrow> byte list option" where
  "mem_files d p = (case m_nodes d p of Some (FileNode b m) \<Rightarrow> Some b | _ \<Rightarrow> None)"

definition mem_valid :: "mem \<Rightarrow> bool" where
  "mem_valid d \<longleftrightarrow> (\<forall>i \<ge> m_next d. m_open d i = None)
     \<and> (\<forall>i p m b. m_open d i = Some (p, m, b) \<longrightarrow> mem_writable d p)"

definition mem_receiving :: "(mem, ref_error) writer \<Rightarrow> string \<Rightarrow> byte list \<Rightarrow> mem \<Rightarrow> bool" where
  "mem_receiving w p b d \<longleftrightarrow> mem_valid d \<and>
     (\<exists>i m. w = mem_writer i \<and> m_open d i = Some (p, m, b))"

definition mem_closed :: "(mem, ref_error) writer \<Rightarrow> mem \<Rightarrow> bool" where
  "mem_closed w d \<longleftrightarrow> (\<exists>i. w = mem_writer i \<and> m_open d i = None)"

lemma mem_writable_upd [simp]:
  "mem_writable (d\<lparr>m_open := x\<rparr>) = mem_writable d" "mem_writable (d\<lparr>m_next := n\<rparr>) = mem_writable d"
  "mem_files (d\<lparr>m_open := x\<rparr>) = mem_files d" "mem_files (d\<lparr>m_next := n\<rparr>) = mem_files d"
  by (simp_all add: mem_writable_def mem_files_def fun_eq_iff)

lemma mem_store_file:
  assumes "mem_writable d p"
  shows "mem_writable (d\<lparr>m_nodes := (m_nodes d)(p \<mapsto> FileNode b m)\<rparr>) = mem_writable d"
    and "mem_files (d\<lparr>m_nodes := (m_nodes d)(p \<mapsto> FileNode b m)\<rparr>) = (mem_files d)(p \<mapsto> b)"
  using assms by (auto simp: mem_writable_def mem_files_def fun_eq_iff)

interpretation mem: file_device mem_client mem_valid mem_files mem_writable mem_receiving mem_closed
proof
  fix d p b
  assume "mem_valid d" "mem_files d p = Some b"
  then show "\<exists>k d'. OpenRead mem_client p d = (Inr \<lparr>st_data = b, st_slack = replicate k 0, st_err = None\<rparr>, d') \<and>
      mem_valid d' \<and> mem_files d' = mem_files d \<and> mem_writable d' = mem_writable d"
    by (intro exI [of _ 0] exI [of _ d])
      (auto simp: mem_OpenRead_def mem_files_def split: option.splits node.splits)
next
  fix d p m t
  assume a: "mem_valid d" "mem_writable d p"
  show "\<exists>w d'. OpenWrite mem_client p m t d = (Inr w, d') \<and> mem_receiving w p [] d' \<and>
      (\<forall>q. q \<noteq> p \<longrightarrow> mem_files d' q = mem_files d q) \<and> mem_writable d' = mem_writable d"
    using a by (auto simp: mem_OpenWrite_def mem_receiving_def mem_valid_def)
next
  fix w p b b' d
  assume "mem_receiving w p b d"
  then obtain i m where w: "mem_valid d" "w = mem_writer i" "m_open d i = Some (p, m, b)"
    by (auto simp: mem_receiving_def)
  define d' where "d' = d\<lparr>m_open := (m_open d)(i \<mapsto> (p, m, b @ b'))\<rparr>"
  have wr: "mem_writable d p" using w(1,3) unfolding mem_valid_def by blast
  have "m_open d' i = Some (p, m, b @ b')" and "mem_valid d'"
    using w(1,3) wr by (simp_all add: d'_def mem_valid_def) (metis option.distinct(1))
  then have "mem_receiving w p (b @ b') d'" using w(2) by (auto simp: mem_receiving_def)
  then show "\<exists>d'. w_Write w b' d = ((int (length b'), None), d') \<and> mem_receiving w p (b @ b') d' \<and>
      (\<forall>q. q \<noteq> p \<longrightarrow> mem_files d' q = mem_files d q) \<and> mem_writable d' = mem_writable d"
    using w by (intro exI [of _ d']) (simp add: mem_writer_def mem_Write_def d'_def)
next
  fix w p b d
  assume "mem_receiving w p b d"
  then obtain i m where w: "mem_valid d" "w = mem_writer i" "m_open d i = Some (p, m, b)"
    by (auto simp: mem_receiving_def)
  then have wr: "mem_writable d p" unfolding mem_valid_def by blast
  define d0 where "d0 = d\<lparr>m_nodes := (m_nodes d)(p \<mapsto> FileNode b m)\<rparr>"
  define d' where "d' = d0\<lparr>m_open := (m_open d)(i := None)\<rparr>"
  have store: "mem_writable d' = mem_writable d" "mem_files d' = (mem_files d)(p \<mapsto> b)"
    using mem_store_file [OF wr, of b m] by (simp_all add: d'_def flip: d0_def)
  have "mem_valid d'"
    using w(1) unfolding mem_valid_def store(1) by (auto simp: d'_def d0_def split: if_splits)
  moreover have "mem_closed w d'" using w(2) by (auto simp: mem_closed_def d'_def)
  moreover have "w_Close w d = (None, d')"
    using w by (simp add: mem_writer_def mem_Close_def d'_def d0_def)
  ultimately show "\<exists>d'. w_Close w d = (None, d') \<and> mem_closed w d' \<and> mem_valid d' \<and>
      mem_files d' = (mem_files d)(p \<mapsto> b) \<and> mem_writable d' = mem_writable d"
    using store by blast
next
  fix w d
  assume "mem_closed w d" "mem_valid d"
  then show "\<exists>e d'. w_Close w d = (e, d') \<and> mem_valid d' \<and> mem_files d' = mem_files d \<and>
      mem_writable d' = mem_writable d"
    by (auto simp: mem_closed_def mem_writer_def mem_Close_def)
qed

text \<open>It keeps the permissions a file was written with.\<close>

definition mem_perms :: "mem \<Rightarrow> string \<Rightarrow> mode option" where
  "mem_perms d p = (case m_nodes d p of Some (FileNode b m) \<Rightarrow> Some m | _ \<Rightarrow> None)"

definition mem_opened_as :: "(mem, ref_error) writer \<Rightarrow> string \<Rightarrow> mode \<Rightarrow> mem \<Rightarrow> bool" where
  "mem_opened_as w p m d \<longleftrightarrow> (\<exists>i b. w = mem_writer i \<and> m_open d i = Some (p, m, b))"

interpretation mem_perm: perm_device mem_client mem_valid mem_files mem_writable mem_receiving mem_closed
    mem_perms mem_opened_as
proof
  fix p m t d w d'
  assume "OpenWrite mem_client p m t d = (Inr w, d')"
  then show "mem_opened_as w p m d'" by (auto simp: mem_OpenWrite_def mem_opened_as_def split: if_splits)
next
  fix w p m d b r d'
  assume "mem_opened_as w p m d" "w_Write w b d = (r, d')"
  then obtain i b0 where i: "w = mem_writer i" "m_open d i = Some (p, m, b0)" "mem_Write i b d = (r, d')"
    by (auto simp: mem_opened_as_def) (simp add: mem_writer_def)
  then have "m_open d' i = Some (p, m, b0 @ b)" by (auto simp: mem_Write_def)
  then show "mem_opened_as w p m d'" using i(1) by (auto simp: mem_opened_as_def)
next
  fix w p m d d'
  assume "mem_opened_as w p m d" "w_Close w d = (None, d')"
  then show "mem_perms d' p = Some m" by (auto simp: mem_opened_as_def mem_writer_def mem_Close_def mem_perms_def)
next
  fix w d e d'
  assume "mem_closed w d" "w_Close w d = (e, d')"
  then show "mem_perms d' = mem_perms d" by (auto simp: mem_closed_def mem_writer_def mem_Close_def)
qed

subsection \<open>A cache whose items expire\<close>

text \<open>Every \<open>Get\<close> advances the time by one; an item lives for \<open>ttl\<close> of them.\<close>

record ttl_cache =
  tc_items :: "string \<Rightarrow> (CachedDirEntries \<times> nat) option"
  tc_now :: nat

definition ttl_items :: "ttl_cache \<Rightarrow> string \<Rightarrow> CachedDirEntries option" where
  "ttl_items c k =
     (case tc_items c k of None \<Rightarrow> None | Some (v, t) \<Rightarrow> if tc_now c < t then Some v else None)"

definition ttl_kv :: "nat \<Rightarrow> (ttl_cache, CachedDirEntries) kv_cache" where
  "ttl_kv ttl =
     \<lparr>kv_Get = (\<lambda>k c. (ttl_items c k, c\<lparr>tc_now := Suc (tc_now c)\<rparr>)),
      kv_Set = (\<lambda>k v c. c\<lparr>tc_items := (tc_items c)(k \<mapsto> (v, tc_now c + Suc ttl))\<rparr>),
      kv_Delete = (\<lambda>k c. c\<lparr>tc_items := (tc_items c)(k := None)\<rparr>)\<rparr>"

interpretation ttl: listing_cache "ttl_kv ttl" ttl_items for ttl
  by unfold_locales
    (auto simp: ttl_kv_def ttl_items_def map_le_def fun_eq_iff split: option.splits if_splits)

interpretation goadb_caching: caching "goadb_client u adb handler" "real_dir_cache (ttl_kv ttl)"
    "\<lambda>c. ttl_items (rc_cache c)" "rdc_settle (ttl_kv ttl)" for u adb handler ttl
  by unfold_locales

interpretation ttl_listing: listing_client "real_dir_cache (ttl_kv ttl)" "\<lambda>c. ttl_items (rc_cache c)"
    "rdc_settle (ttl_kv ttl)" for ttl
  by unfold_locales

text \<open>The client the program runs on: \<open>CachingDeviceClient\<close> over \<open>goadbDeviceClient\<close>.\<close>

definition ref_client :: "nat \<Rightarrow> (mem \<times> ttl_cache real_cache, ref_error) device_client" where
  "ref_client ttl = caching_client ref_util mem_client (real_dir_cache (ttl_kv ttl))"

interpretation ref_client: log_discipline "ref_client ttl" for ttl
  unfolding ref_client_def mem_client_def by (rule goadb_caching.caching_log)

interpretation ref_files: file_device "ref_client ttl" "mem_valid \<circ> fst" "mem_files \<circ> fst"
    "mem_writable \<circ> fst" mem.receiving_cached mem.closed_cached for ttl
  unfolding ref_client_def by (rule mem.caching_file_device)

end
