(* ===== verification/Read_Only_Session.thy ===== *)
theory Read_Only_Session
  imports Mounted Reference_Device
begin

text \<open>
  A file system mounted read-only never changes a file of the device, whatever the kernel
  asks for: no open file can be written, so no buffer is ever dirty, so nothing is ever saved.
  What is relied on of the device is that reading, looking and the two commands the code runs
  for it (\<open>readlink\<close> and \<open>stat\<close>) change no file.
\<close>

locale reading_device =
  fixes c :: "('d, 'x) device_client"
    and files :: "'d \<Rightarrow> 'f"
  assumes open_read_keeps: "OpenRead c p d = (r, d') \<Longrightarrow> files d' = files d"
    and stat_keeps: "Stat c p log d = (e, log', d') \<Longrightarrow> files d' = files d"
    and list_keeps: "ListDirEntries c p log d = (es, log', d') \<Longrightarrow> files d' = files d"
    and command_keeps: "RunCommand c cmd args d = (out, d') \<Longrightarrow>
      cmd = ''readlink'' \<or> cmd = ''stat'' \<Longrightarrow> files d' = files d"
begin

lemma readLink_keeps: "readLink c p d = (r, d') \<Longrightarrow> files d' = files d"
  using command_keeps [of "''readlink''" "[p]" d]
  by (auto simp: readLink_def Let_def split: prod.splits sum.splits if_splits)

lemma readLinkRecursively_keeps:
  assumes "readLinkRecursively u c p log d = Return (res, log', d')"
  shows "files d' = files d"
proof -
  have "files d' = files d \<and> (case res of Inl _ \<Rightarrow> True | Inr (q, e') \<Rightarrow> \<not> is_symlink (de_mode e'))"
    by (rule readLinkRecursively_rule [OF assms, where I = "\<lambda>l d1. files d1 = files d"])
      (simp_all add: readLink_keeps stat_keeps)
  then show ?thesis by blast
qed

subsection \<open>Buffers that are not dirty\<close>

definition clean_buffer :: "('d, 'x) file_buffer \<Rightarrow> bool" where
  "clean_buffer f \<longleftrightarrow> fb_Client f = c \<and> \<not> fb_IsDirty f"

lemma loadFromDevice_keeps:
  assumes "loadFromDevice u f w = Return (e, f', w')" and "clean_buffer f"
  shows "files (w_dev w') = files (w_dev w) \<and> clean_buffer f'"
proof -
  obtain r d where o: "OpenRead c (fb_Path f) (w_dev w) = (r, d)" by fastforce
  have "files d = files (w_dev w)" by (rule open_read_keeps [OF o])
  moreover have "f' = f\<lparr>fb_buffer := fb_buffer f'\<rparr>" by (rule loadFromDevice_frame(1) [OF assms(1)])
  then have "clean_buffer f'" using assms(2)
    by (metis clean_buffer_def fb_IsDirty_def file_buffer.select_convs(2,8) file_buffer.surjective
        file_buffer.update_convs(7))
  moreover have "w_dev w' = d"
    using assms o
    by (auto simp: clean_buffer_def loadFromDevice_def Let_def split: sum.splits option.splits
        prod.splits elim!: go_bind_ReturnE)
  ultimately show ?thesis by simp
qed

lemma fb_Sync_keeps:
  assumes "fb_Sync u f w = Return (e, f', w')" and "clean_buffer f"
  shows "files (w_dev w') = files (w_dev w) \<and> clean_buffer f'"
  using assms loadFromDevice_keeps [of u f w e f' w']
  by (auto simp: fb_Sync_def clean_buffer_def fb_IsDirty_def)

text \<open>An open that neither creates nor truncates makes a clean buffer.\<close>

lemma NewFileBuffer_keeps:
  assumes "NewFileBuffer u flags p c t perms h log w = Return (res, log', w')"
    and "\<not> Contains flags O_CREATE" and "\<not> Contains flags O_TRUNC"
  shows "files (w_dev w') = files (w_dev w) \<and> (case res of Inl _ \<Rightarrow> True | Inr f \<Rightarrow> clean_buffer f)"
proof (cases "flag_requires_write flags \<longrightarrow> CanWrite flags")
  case False
  then show ?thesis using assms(1) NewFileBuffer_not_permitted [of flags u p c t perms h log w] by auto
next
  case True
  obtain r log1 d where s: "Stat c p log (w_dev w) = (r, log1, d)" by (metis surj_pair)
  have d: "files d = files (w_dev w)" by (rule stat_keeps [OF s])
  show ?thesis
  proof (cases r)
    case (Inl e)
    show ?thesis
    proof (cases "WrapErrf u e ''error reading file permissions''")
      case (Return e')
      from NewFileBuffer_missing [OF True s [unfolded Inl] Return] show ?thesis
        using assms d by auto
    qed (use assms(1) True s Inl in \<open>auto simp: NewFileBuffer_def fb_initialize_def getFilePermissions_def
        flag_requires_write_def Let_def split: if_splits\<close>)
  next
    case (Inr e)
    define g where "g = new_buffer p c t (effective_perms perms (Perm (de_mode e))) h"
    have g: "clean_buffer g" by (simp add: g_def new_buffer_def clean_buffer_def fb_IsDirty_def)
    have n: "NewFileBuffer u flags p c t perms h log w =
      go_bind (fb_Sync u g (w\<lparr>w_dev := d\<rparr>)) (\<lambda>(_, f, w'). Return (Inr f, log1, w'))"
      using NewFileBuffer_found [OF True s [unfolded Inr], of u t perms h] assms(3)
      by (simp add: initialize_with_new Let_def g_def go_bind_assoc case_prod_unfold)
    obtain e0 f where "fb_Sync u g (w\<lparr>w_dev := d\<rparr>) = Return (e0, f, w')" "res = Inr f"
      using assms(1) unfolding n by (auto elim!: go_bind_ReturnE)
    from fb_Sync_keeps [OF this(1) g] this(2) show ?thesis using d by simp
  qed
qed

lemma GetOrLoad_keeps:
  assumes "GetOrLoad u p flags perms log ofs w = Return (res, log', ofs', w')"
    and "\<And>d c' d'. of_ClientFactory ofs d = (c', d') \<Longrightarrow> c' = c \<and> files d' = files d"
    and "\<not> Contains flags O_CREATE" and "\<not> Contains flags O_TRUNC"
    and "\<forall>f \<in> set (of_heap ofs). clean_buffer f"
    and "\<forall>a \<in> ran (of_buffersByPath ofs). a < length (of_heap ofs)"
  shows "files (w_dev w') = files (w_dev w) \<and> of_ClientFactory ofs' = of_ClientFactory ofs \<and>
    (\<forall>f \<in> set (of_heap ofs'). clean_buffer f) \<and>
    (\<forall>a \<in> ran (of_buffersByPath ofs'). a < length (of_heap ofs')) \<and>
    length (of_heap ofs) \<le> length (of_heap ofs') \<and>
    (case res of Inl _ \<Rightarrow> True | Inr a \<Rightarrow> a < length (of_heap ofs'))"
proof (cases "of_buffersByPath ofs p")
  case (Some a)
  then have a: "a < length (of_heap ofs)" using assms(6) by (auto intro: ranI)
  then have "clean_buffer (snd (fb_IncRefCount (of_heap ofs ! a)))"
    using assms(5) by (simp add: clean_buffer_def fb_IncRefCount_def Let_def fb_IsDirty_def)
  then have "\<forall>f \<in> set ((of_heap ofs)[a := snd (fb_IncRefCount (of_heap ofs ! a))]). clean_buffer f"
    using assms(5) set_update_subset_insert [of "of_heap ofs" a] by fastforce
  then show ?thesis
    using assms(1,6) a Some by (auto simp: GetOrLoad_def of_inc_def)
next
  case None
  obtain c' d where f: "of_ClientFactory ofs (w_dev w) = (c', d)" by fastforce
  have c: "c' = c" "files d = files (w_dev w)" using assms(2) [OF f] by simp_all
  obtain r l w1 where n: "NewFileBuffer u flags p c (of_DirtyTimeout ofs) perms True log (w\<lparr>w_dev := d\<rparr>) = Return (r, l, w1)"
    using assms(1) None f c(1) by (auto simp: GetOrLoad_def elim!: go_bind_ReturnE)
  note k = NewFileBuffer_keeps [OF n assms(3,4)]
  show ?thesis
  proof (cases r)
    case (Inl e)
    then show ?thesis using assms(1,5,6) None f c n k by (auto simp: GetOrLoad_def)
  next
    case (Inr g)
    have "clean_buffer (snd (fb_IncRefCount g))"
      using k Inr by (simp add: clean_buffer_def fb_IncRefCount_def Let_def fb_IsDirty_def)
    then show ?thesis
      using assms(1,5,6) None f c n k Inr
      by (auto simp: GetOrLoad_def of_inc_def Let_def nth_append less_Suc_eq)
  qed
qed

subsection \<open>What a request leaves unchanged\<close>

definition quiet :: "('d, 'x) mounted \<Rightarrow> bool" where
  "quiet s \<longleftrightarrow> cf_ReadOnly (fs_config (mt_fs s)) \<and> set (fs_pool (mt_fs s)) \<subseteq> {c} \<and>
     (\<forall>d c' d'. of_ClientFactory (mt_openFiles s) d = (c', d') \<longrightarrow> c' = c \<and> files d' = files d) \<and>
     (\<forall>f \<in> set (of_heap (mt_openFiles s)). clean_buffer f) \<and>
     (\<forall>a \<in> ran (of_buffersByPath (mt_openFiles s)). a < length (of_heap (mt_openFiles s))) \<and>
     (\<forall>f. Some f \<in> set (mt_files s) \<longrightarrow> \<not> CanWrite (af_Flags f) \<and> af_FileBuffer f < length (of_heap (mt_openFiles s)))"

lemma with_quick_client_keeps:
  assumes "with_quick_client fs body = Return ((x, l, d'), fs')" and "set (fs_pool fs) \<subseteq> {c}"
    and "\<And>x l d'. body c = Return (x, l, d') \<Longrightarrow> files d' = files d"
  shows "files d' = files d \<and> fs_config fs' = fs_config fs \<and> fs_openFiles fs' = fs_openFiles fs \<and>
    set (fs_pool fs') \<subseteq> {c}"
  using assms
  by (auto simp: with_quick_client_def getQuickUseClient_def recycleQuickUseClient_def
      split: list.splits if_splits elim!: go_bind_ReturnE)

lemma after_device_quiet:
  assumes "after_device s m = Return s'" and "quiet s"
    and "\<And>x l d' fs'. m = Return ((x, l, d'), fs') \<Longrightarrow>
      files d' = files (w_dev (mt_world s)) \<and> fs_config fs' = fs_config (mt_fs s) \<and>
      fs_openFiles fs' = fs_openFiles (mt_fs s) \<and> set (fs_pool fs') \<subseteq> {c}"
  shows "quiet s' \<and> files (w_dev (mt_world s')) = files (w_dev (mt_world s))"
proof -
  obtain x l d' fs' where m: "m = Return ((x, l, d'), fs')"
    "s' = s\<lparr>mt_fs := fs', mt_world := (mt_world s)\<lparr>w_dev := d'\<rparr>\<rparr>"
    using assms(1) by (auto simp: after_device_def elim!: go_bind_ReturnE)
  from assms(3) [OF m(1)] show ?thesis
    using assms(2) m(2) by (simp add: quiet_def mt_openFiles_def)
qed

lemma quick_request_quiet:
  assumes "after_device s (with_quick_client (mt_fs s) body) = Return s'" and "quiet s"
    and "\<And>x l d'. body c = Return (x, l, d') \<Longrightarrow> files d' = files (w_dev (mt_world s))"
  shows "quiet s' \<and> files (w_dev (mt_world s')) = files (w_dev (mt_world s))"
proof (rule after_device_quiet [OF assms(1,2)])
  fix x l d' fs'
  assume "with_quick_client (mt_fs s) body = Return ((x, l, d'), fs')"
  moreover have "set (fs_pool (mt_fs s)) \<subseteq> {c}" using assms(2) by (simp add: quiet_def)
  ultimately show "files d' = files (w_dev (mt_world s)) \<and> fs_config fs' = fs_config (mt_fs s) \<and>
      fs_openFiles fs' = fs_openFiles (mt_fs s) \<and> set (fs_pool fs') \<subseteq> {c}"
    by (rule with_quick_client_keeps) (rule assms(3))
qed

lemma modifying_request_quiet:
  assumes "after_device s (modifying u log command (mt_fs s) (w_dev (mt_world s))) = Return s'"
    and "quiet s" and "unreported log"
  shows "quiet s' \<and> files (w_dev (mt_world s')) = files (w_dev (mt_world s))"
  by (rule after_device_quiet [OF assms(1,2)])
    (use assms(2,3) in \<open>auto simp: quiet_def modifying_refused\<close>)

lemma open_request_quiet:
  assumes "after_open s (fs_open_with u op name flags perms (mt_fs s) (mt_world s)) = Return s'" and "quiet s"
  shows "quiet s' \<and> files (w_dev (mt_world s')) = files (w_dev (mt_world s))"
proof (cases "CanWrite flags \<or> flag_requires_write flags")
  case True
  have "cf_ReadOnly (fs_config (mt_fs s))" using assms(2) by (simp add: quiet_def)
  from fs_open_with_refused [OF this True] have "s' = s"
    using assms(1) by (simp add: after_open_def)
  then show ?thesis using assms(2) by simp
next
  case False
  then have ro: "\<not> CanWrite flags" "\<not> Contains flags O_CREATE" "\<not> Contains flags O_TRUNC"
    "\<not> Contains flags (O_RDWR OR O_WRONLY OR O_CREATE OR O_TRUNC OR O_APPEND)"
    by (simp_all add: flag_requires_write_def CanWrite_iff)
  obtain p log res log' ofs' w' where g:
    "GetOrLoad u p flags perms log (mt_openFiles s) (mt_world s) = Return (res, log', ofs', w')"
    and s': "mt_fs s' = (mt_fs s)\<lparr>fs_openFiles := ofs'\<rparr>" "mt_world s' = w'"
      "mt_files s' = (case res of Inl _ \<Rightarrow> mt_files s | Inr a \<Rightarrow> mt_files s @ [Some (NewAdbFile flags a)])"
    using assms(1) ro(4)
    by (auto simp: after_open_def fs_open_with_def createFile_def mt_openFiles_def Let_def
        split: sum.splits elim!: go_bind_ReturnE)
  note q = assms(2) [unfolded quiet_def]
  have k: "files (w_dev w') = files (w_dev (mt_world s)) \<and> of_ClientFactory ofs' = of_ClientFactory (mt_openFiles s) \<and>
    (\<forall>f \<in> set (of_heap ofs'). clean_buffer f) \<and>
    (\<forall>a \<in> ran (of_buffersByPath ofs'). a < length (of_heap ofs')) \<and>
    length (of_heap (mt_openFiles s)) \<le> length (of_heap ofs') \<and>
    (case res of Inl _ \<Rightarrow> True | Inr a \<Rightarrow> a < length (of_heap ofs'))"
    by (rule GetOrLoad_keeps [OF g _ ro(2,3)]) (use q in auto)
  have files: "\<not> CanWrite (af_Flags f) \<and> af_FileBuffer f < length (of_heap ofs')"
    if "Some f \<in> set (mt_files s')" for f
    using that q k s'(3) ro(1) by (auto simp: NewAdbFile_def split: sum.splits)
  show ?thesis
    using q k files s'(1,2) by (simp add: quiet_def mt_openFiles_def)
qed

subsection \<open>Requests for open files\<close>

lemma quiet_file:
  assumes "quiet s" and "Some f \<in> set (mt_files s)"
  shows "\<not> CanWrite (af_Flags f)" and "clean_buffer (mt_buffer s f)"
    and "af_FileBuffer f < length (of_heap (mt_openFiles s))"
  using assms by (auto simp: quiet_def mt_buffer_def)

lemma set_buffer_quiet:
  assumes "quiet s" and "clean_buffer b" and "files (w_dev w) = files (w_dev (mt_world s))"
  shows "quiet (set_buffer f b w s) \<and>
    files (w_dev (mt_world (set_buffer f b w s))) = files (w_dev (mt_world s))"
proof -
  have "\<forall>g \<in> set ((of_heap (mt_openFiles s))[af_FileBuffer f := b]). clean_buffer g"
    using assms(1,2) set_update_subset_insert [of "of_heap (mt_openFiles s)" "af_FileBuffer f" b]
    by (auto simp: quiet_def)
  then show ?thesis
    using assms(1,3) by (simp add: quiet_def set_buffer_def set_openFiles_def mt_openFiles_def)
qed

lemma for_file_quiet:
  assumes "for_file s h body = Return s'" and "quiet s"
    and "\<And>f. Some f \<in> set (mt_files s) \<Longrightarrow> body f = Return s' \<Longrightarrow>
      quiet s' \<and> files (w_dev (mt_world s')) = files (w_dev (mt_world s))"
  shows "quiet s' \<and> files (w_dev (mt_world s')) = files (w_dev (mt_world s))"
  using assms by (auto simp: for_file_def split: if_splits option.splits) (metis nth_mem)+

lemma release_quiet:
  assumes "af_Release (af_FileBuffer f) (mt_openFiles s) = Return (r, ofs)" and "quiet s"
    and "Some f \<in> set (mt_files s)"
  shows "quiet ((set_openFiles ofs s)\<lparr>mt_files := (mt_files s)[h := None]\<rparr>)"
proof -
  define H where "H = of_heap (mt_openFiles s)"
  define a where "a = af_FileBuffer f"
  obtain n call g where g: "fb_DecRefCount (H ! a) = Return (n, call, g)"
    "ofs = (let o' = (mt_openFiles s)\<lparr>of_heap := H[a := g]\<rparr> in if call then release a o' else o')"
    using assms(1) by (auto simp: af_Release_def of_DecRefCount_def H_def a_def Let_def elim!: go_bind_ReturnE)
  have "clean_buffer (H ! a)" using quiet_file(2) [OF assms(2,3)] by (simp add: mt_buffer_def H_def a_def)
  then have "clean_buffer g"
    using g(1) by (auto simp: fb_DecRefCount_def Let_def clean_buffer_def fb_IsDirty_def split: if_splits)
  then have heap: "\<forall>x \<in> set (H[a := g]). clean_buffer x"
    using assms(2) set_update_subset_insert [of H a g] by (auto simp: quiet_def H_def)
  have ofs: "of_heap ofs = H[a := g]" "of_ClientFactory ofs = of_ClientFactory (mt_openFiles s)"
    "ran (of_buffersByPath ofs) \<subseteq> ran (of_buffersByPath (mt_openFiles s))"
    using g(2) by (auto simp: release_def Let_def ran_def split: if_splits)
  have "Some k \<in> set (mt_files s)" if "Some k \<in> set ((mt_files s)[h := None])" for k
    using that set_update_subset_insert [of "mt_files s" h None] by auto
  then show ?thesis
    using assms(2) heap ofs
    by (auto simp: quiet_def set_openFiles_def mt_openFiles_def H_def)
qed

lemma same_buffer_quiet:
  assumes "quiet s" and "Some f \<in> set (mt_files s)"
  shows "quiet (set_buffer f (mt_buffer s f) (mt_world s) s) \<and>
    files (w_dev (mt_world (set_buffer f (mt_buffer s f) (mt_world s) s))) = files (w_dev (mt_world s))"
  by (rule set_buffer_quiet [OF assms(1) quiet_file(2) [OF assms] refl])

lemma write_request_quiet:
  assumes "serve u (WriteReq h data off) s = Return s'" and "quiet s"
  shows "quiet s' \<and> files (w_dev (mt_world s')) = files (w_dev (mt_world s))"
  by (rule for_file_quiet [OF assms(1) [unfolded serve.simps] assms(2)])
    (use same_buffer_quiet [OF assms(2)] quiet_file(1) [OF assms(2)] in \<open>force simp: af_refused\<close>)

lemma truncate_request_quiet:
  assumes "serve u (TruncateReq h n) s = Return s'" and "quiet s"
  shows "quiet s' \<and> files (w_dev (mt_world s')) = files (w_dev (mt_world s))"
  by (rule for_file_quiet [OF assms(1) [unfolded serve.simps] assms(2)])
    (use same_buffer_quiet [OF assms(2)] quiet_file(1) [OF assms(2)] in \<open>force simp: af_refused\<close>)

lemma flush_request_quiet:
  assumes "serve u (FlushReq h) s = Return s'" and "quiet s"
  shows "quiet s' \<and> files (w_dev (mt_world s')) = files (w_dev (mt_world s))"
  by (rule for_file_quiet [OF assms(1) [unfolded serve.simps] assms(2)])
    (use same_buffer_quiet [OF assms(2)] quiet_file(1) [OF assms(2)] in \<open>force simp: af_Flush_readonly\<close>)

lemma fsync_request_quiet:
  assumes "serve u (FsyncReq h flags) s = Return s'" and "quiet s"
  shows "quiet s' \<and> files (w_dev (mt_world s')) = files (w_dev (mt_world s))"
proof (rule for_file_quiet [OF assms(1) [unfolded serve.simps] assms(2)])
  fix f
  assume f: "Some f \<in> set (mt_files s)"
    and "go_bind (af_Fsync u flags (mt_buffer s f) (mt_world s)) (\<lambda>(_, _, b, w). Return (set_buffer f b w s)) = Return s'"
  then obtain e b w where "fb_Sync u (mt_buffer s f) (mt_world s) = Return (e, b, w)" "s' = set_buffer f b w s"
    by (auto simp: af_Fsync_def Let_def elim!: go_bind_ReturnE)
  with fb_Sync_keeps [OF this(1) quiet_file(2) [OF assms(2) f]]
  show "quiet s' \<and> files (w_dev (mt_world s')) = files (w_dev (mt_world s))"
    using set_buffer_quiet [OF assms(2), of b w f] by simp
qed

lemma getAttr_keeps:
  "getAttr u p c log attr d = Return (e, a, l, d') \<Longrightarrow> files d' = files d"
  by (auto simp: getAttr_def split: prod.splits sum.splits elim!: go_bind_ReturnE dest: stat_keeps)

lemma fgetattr_request_quiet:
  assumes "serve u (FileGetAttrReq h) s = Return s'" and "quiet s"
  shows "quiet s' \<and> files (w_dev (mt_world s')) = files (w_dev (mt_world s))"
proof (rule for_file_quiet [OF assms(1) [unfolded serve.simps] assms(2)])
  fix f
  assume f: "Some f \<in> set (mt_files s)"
    and "go_bind (af_GetAttr u zero_attr (mt_buffer s f) (mt_world s)) (\<lambda>(_, _, _, w). Return (s\<lparr>mt_world := w\<rparr>)) = Return s'"
  then obtain e a l d where "getAttr u (fb_Path (mt_buffer s f)) (fb_Client (mt_buffer s f))
      (startFileOperation ''GetAttr'' [] (mt_buffer s f)) zero_attr (w_dev (mt_world s)) = Return (e, a, l, d)"
    and "s' = s\<lparr>mt_world := (mt_world s)\<lparr>w_dev := d\<rparr>\<rparr>"
    by (auto simp: af_GetAttr_def Let_def elim!: go_bind_ReturnE)
  moreover have "fb_Client (mt_buffer s f) = c"
    using quiet_file(2) [OF assms(2) f] by (simp add: clean_buffer_def)
  ultimately show "quiet s' \<and> files (w_dev (mt_world s')) = files (w_dev (mt_world s))"
    using getAttr_keeps assms(2) by (auto simp: quiet_def mt_openFiles_def)
qed

subsection \<open>Requests that look at the device\<close>

lemma looking_request_quiet:
  assumes "quiet s"
  shows "serve u (GetAttrReq n) s = Return s' \<Longrightarrow> quiet s' \<and> files (w_dev (mt_world s')) = files (w_dev (mt_world s))"
    and "serve u (OpenDirReq n) s = Return s' \<Longrightarrow> quiet s' \<and> files (w_dev (mt_world s')) = files (w_dev (mt_world s))"
    and "serve u (ReadlinkReq n) s = Return s' \<Longrightarrow> quiet s' \<and> files (w_dev (mt_world s')) = files (w_dev (mt_world s))"
  by (simp_all add: fs_GetAttr_def fs_OpenDir_def fs_Readlink_def Let_def)
    ((drule quick_request_quiet [OF _ assms];
      auto simp: Let_def split: prod.splits sum.splits elim!: go_bind_ReturnE dest: getAttr_keeps list_keeps readLink_keeps)+)

lemma access_request_quiet:
  assumes "serve u (AccessReq n m) s = Return s'" and "quiet s"
  shows "quiet s' \<and> files (w_dev (mt_world s')) = files (w_dev (mt_world s))"
proof (cases "m AND W_OK = W_OK")
  case True
  then show ?thesis
    using assms by (simp add: fs_Access_def Let_def quiet_def after_device_def mt_openFiles_def)
next
  case False
  then show ?thesis
    using assms(1)
    by (simp add: fs_Access_def Let_def)
      (drule quick_request_quiet [OF _ assms(2)];
        auto split: prod.splits sum.splits elim!: go_bind_ReturnE dest: readLinkRecursively_keeps)
qed

lemma statfs_request_quiet:
  assumes "serve u (StatFsReq n) s = Return s'" and "quiet s"
  shows "quiet s' \<and> files (w_dev (mt_world s')) = files (w_dev (mt_world s))"
  using assms(1)
  by (simp add: fs_StatFs_def Let_def)
    (drule quick_request_quiet [OF _ assms(2)];
      auto split: prod.splits sum.splits option.splits elim!: go_bind_ReturnE
        dest!: readLinkRecursively_keeps command_keeps)

text \<open>No request changes a file, and the session stays read-only.\<close>

lemma serve_quiet:
  assumes "serve u r s = Return s'" and "quiet s"
  shows "quiet s' \<and> files (w_dev (mt_world s')) = files (w_dev (mt_world s))"
proof (cases r)
  case (ReadReq h buf off)
  show ?thesis
    by (rule for_file_quiet [OF assms(1) [unfolded ReadReq serve.simps] assms(2)])
      (use assms(2) in \<open>auto elim!: go_bind_ReturnE\<close>)
next
  case (ReleaseReq h)
  show ?thesis
    by (rule for_file_quiet [OF assms(1) [unfolded ReleaseReq serve.simps] assms(2)])
      (use assms(2) release_quiet in \<open>auto simp: set_openFiles_def elim!: go_bind_ReturnE\<close>)
next
  case (OpenReq n flags)
  then show ?thesis using assms open_request_quiet by (simp add: fs_Open_def)
next
  case (CreateReq n flags perms)
  then show ?thesis using assms open_request_quiet by (simp add: fs_Create_def)
next
  case (GetAttrReq n)
  show ?thesis using assms(1) unfolding GetAttrReq by (rule looking_request_quiet(1) [OF assms(2)])
next
  case (OpenDirReq n)
  show ?thesis using assms(1) unfolding OpenDirReq by (rule looking_request_quiet(2) [OF assms(2)])
next
  case (ReadlinkReq n)
  show ?thesis using assms(1) unfolding ReadlinkReq by (rule looking_request_quiet(3) [OF assms(2)])
next
  case (AccessReq n m)
  show ?thesis using assms(1) unfolding AccessReq by (rule access_request_quiet [OF _ assms(2)])
next
  case (StatFsReq n)
  show ?thesis using assms(1) unfolding StatFsReq by (rule statfs_request_quiet [OF _ assms(2)])
next
  case (WriteReq h data off)
  show ?thesis using assms(1) unfolding WriteReq by (rule write_request_quiet [OF _ assms(2)])
next
  case (TruncateReq h n)
  show ?thesis using assms(1) unfolding TruncateReq by (rule truncate_request_quiet [OF _ assms(2)])
next
  case (FlushReq h)
  show ?thesis using assms(1) unfolding FlushReq by (rule flush_request_quiet [OF _ assms(2)])
next
  case (FsyncReq h flags)
  show ?thesis using assms(1) unfolding FsyncReq by (rule fsync_request_quiet [OF _ assms(2)])
next
  case (FileGetAttrReq h)
  show ?thesis using assms(1) unfolding FileGetAttrReq by (rule fgetattr_request_quiet [OF _ assms(2)])
next
  case (MkdirReq n)
  show ?thesis
    using assms(1) unfolding MkdirReq serve.simps fs_Mkdir_def Let_def
    by (rule modifying_request_quiet [OF _ assms(2)]) simp
next
  case (RenameReq n m)
  show ?thesis
    using assms(1) unfolding RenameReq serve.simps fs_Rename_def Let_def
    by (rule modifying_request_quiet [OF _ assms(2)]) simp
next
  case (RmdirReq n)
  show ?thesis
    using assms(1) unfolding RmdirReq serve.simps fs_Rmdir_def Let_def
    by (rule modifying_request_quiet [OF _ assms(2)]) simp
next
  case (UnlinkReq n)
  show ?thesis
    using assms(1) unfolding UnlinkReq serve.simps fs_Unlink_def Let_def
    by (rule modifying_request_quiet [OF _ assms(2)]) simp
qed

lemma serve_all_quiet:
  assumes "serve_all u rs s = Return s'" and "quiet s"
  shows "quiet s' \<and> files (w_dev (mt_world s')) = files (w_dev (mt_world s))"
proof -
  have "quiet s' \<and> files (w_dev (mt_world s')) = files (w_dev (mt_world s))"
    by (rule serve_all_invariant [OF assms(1),
          where I = "\<lambda>s1. quiet s1 \<and> files (w_dev (mt_world s1)) = files (w_dev (mt_world s))"])
      (use assms(2) serve_quiet in auto)
  then show ?thesis .
qed

text \<open>A freshly mounted read-only file system has no open file.\<close>

lemma NewAdbFileSystem_quiet:
  assumes "NewAdbFileSystem u config d = Return (Inr fs, r, d')" and "cf_ReadOnly config"
    and "\<And>d. \<exists>d'. cf_ClientFactory config d = (c, d') \<and> files d' = files d"
  shows "quiet \<lparr>mt_fs = fs, mt_files = [], mt_world = \<lparr>w_dev = d', w_clock = k\<rparr>\<rparr> \<and> files d' = files d"
proof -
  define config1 where "config1 = (if cf_ConnectionPoolSize config < 1
    then config\<lparr>cf_ConnectionPoolSize := 1\<rparr> else config)"
  define config2 where "config2 = config1\<lparr>cf_DeviceRoot := trim_suffix (cf_DeviceRoot config1) ''/''\<rparr>"
  have f2: "cf_ClientFactory config2 = cf_ClientFactory config" by (simp add: config2_def config1_def)
  obtain d1 where c: "cf_ClientFactory config d = (c, d1)" "files d1 = files d" using assms(3) by blast
  define fs0 where "fs0 = \<lparr>fs_config = config2, fs_pool = [c],
    fs_openFiles = NewOpenFiles (cf_ClientFactory config2) 0\<rparr>"
  have r0: "pool_ready fs0"
    by (simp add: pool_ready_def fs0_def config2_def config1_def)
  have "go_bind (fs_initialize u fs0 d1) (\<lambda>(err, r, d2, fs').
      case err of Some e \<Rightarrow> Return (Inl e, r, d2) | None \<Rightarrow> Return (Inr fs', r, d2)) =
      NewAdbFileSystem u config d"
    unfolding NewAdbFileSystem_def Let_def
    by (fold config1_def) (fold config2_def, simp add: c f2 fs0_def)
  also have "\<dots> = Return (Inr fs, r, d')" by (rule assms)
  finally obtain err where i: "fs_initialize u fs0 d1 = Return (err, r, d', fs)"
    by (auto split: option.splits elim!: go_bind_ReturnE)
  have "files d' = files d1"
    using i r0
    by (auto simp: fs_initialize_def pool_client_def fs0_def Let_def split: if_splits sum.splits
        elim!: go_bind_ReturnE dest: readLinkRecursively_keeps)
  moreover from fs_initialize_ready [OF i r0] have "fs_openFiles fs = NewOpenFiles (cf_ClientFactory config) 0"
    "cf_ReadOnly (fs_config fs)" "fs_pool fs = [c]"
    using assms(2) by (simp_all add: fs0_def f2) (simp add: config2_def config1_def)
  moreover have "c' = c \<and> files d2' = files d2" if "cf_ClientFactory config d2 = (c', d2')" for d2 c' d2'
    using that assms(3) [of d2] by auto
  ultimately show ?thesis using c(2) by (simp add: quiet_def mt_openFiles_def NewOpenFiles_def)
qed

end

subsection \<open>The clients that are used\<close>

text \<open>A cache of listings in front of the device changes no file either.\<close>

locale caching_reading = reading_device c files + dir_cache dc stored settle
  for c :: "('d, 'x) device_client"
    and files :: "'d \<Rightarrow> 'f"
    and dc :: "('c, 'x log_entry \<times> 'd, 'x) DirEntryCache"
    and stored settle
begin

lemma loader_keeps: "listing_loader c p (l, d) = (r, (l', d')) \<Longrightarrow> files d' = files d"
  using list_keeps [of p l d] by (auto simp: listing_loader_def split: prod.splits sum.splits)

lemma caching_list_keeps:
  assumes "caching_ListDirEntries c dc p l (d, k) = (r, l', (d', k'))"
  shows "files d' = files d"
proof -
  obtain r0 hit k0 l0 where g: "dc_GetOrLoad dc p (listing_loader c) k (l, d) = (r0, hit, k0, (l0, d'))"
    using assms by (auto simp: caching_ListDirEntries_def split: prod.splits)
  show ?thesis
  proof (cases hit)
    case True
    with load_hit [of p "listing_loader c" k "(l, d)" r0 k0 "(l0, d')"] g show ?thesis by simp
  next
    case False
    with load_miss [of p "listing_loader c" k "(l, d)" r0 k0 "(l0, d')"] g
    show ?thesis by (auto intro: loader_keeps)
  qed
qed

lemma caching_reading_device: "reading_device (caching_client u c dc) (files \<circ> fst)"
proof
  fix p s r s'
  assume "OpenRead (caching_client u c dc) p s = (r, s')"
  then show "(files \<circ> fst) s' = (files \<circ> fst) s"
    by (cases s) (auto simp: caching_client_def split: prod.splits dest: open_read_keeps)
next
  fix p log s e log' s'
  assume "Stat (caching_client u c dc) p log s = (e, log', s')"
  then show "(files \<circ> fst) s' = (files \<circ> fst) s"
    by (cases s) (auto simp: caching_client_def caching_Stat_def Let_def
        split: prod.splits if_splits option.splits dest: stat_keeps)
next
  fix p log s es log' s'
  assume "ListDirEntries (caching_client u c dc) p log s = (es, log', s')"
  then show "(files \<circ> fst) s' = (files \<circ> fst) s"
    by (cases s; cases s') (auto simp: caching_client_def dest: caching_list_keeps)
next
  fix cmd args s out s'
  assume "RunCommand (caching_client u c dc) cmd args s = (out, s')" "cmd = ''readlink'' \<or> cmd = ''stat''"
  then show "(files \<circ> fst) s' = (files \<circ> fst) s"
    by (cases s) (auto simp: caching_client_def split: prod.splits dest: command_keeps)
qed

end

lemma mem_client_List:
  "ListDirEntries mem_client p log d = (es, log', d') \<Longrightarrow> d' = d"
  by (auto simp: mem_client_def goadb_client_def goadb_ListDirEntries_def mem_adb_def mem_List_def
      handleDeviceNotFound_def split: prod.splits sum.splits if_splits option.splits node.splits)

interpretation mem_reading: reading_device mem_client mem_files
  by unfold_locales
    (auto simp: mem_OpenRead_def mem_Stat_def mem_RunCommand_def split: option.splits node.splits
      dest: mem_client_List)

interpretation ref_reading: caching_reading mem_client mem_files "real_dir_cache (ttl_kv ttl)"
    "\<lambda>c. ttl_items (rc_cache c)" "rdc_settle (ttl_kv ttl)" for ttl
  by unfold_locales

lemma ref_client_reading: "reading_device (ref_client ttl) (mem_files \<circ> fst)"
  unfolding ref_client_def by (rule ref_reading.caching_reading_device)

end
