(* ===== verification/File_Session.thy ===== *)
theory File_Session
  imports Adb_File
begin

text \<open>
  The contract of \<open>AdbFile\<close> and \<open>FileBuffer\<close> together: all open files of a path behave like
  one shared sequence of bytes, with the permissions of each open file's flags, whatever is
  written back to the device in between. \<open>spec_op\<close> is that abstract file, \<open>run_op\<close> calls the
  method of \<open>adb_file.go\<close>, and the buffer with the world refines the bytes.
\<close>

datatype file_op = ReadOp nat nat | WriteOp "byte list" nat | TruncateOp nat | FlushOp | FsyncOp int

datatype reply = ReadReply read_result status | WriteReply int status | StatusReply status

subsection \<open>The abstract file\<close>

fun spec_op :: "flags \<Rightarrow> file_op \<Rightarrow> byte list \<Rightarrow> reply \<times> byte list" where
  "spec_op flags (ReadOp n off) c =
     (if CanRead flags then (ReadReply (ReadResultData (take n (drop off c))) (fuseStatus OK), c)
      else (ReadReply (ErrorReadResult (fuseStatus EPERM)) (fuseStatus EPERM), c))"
| "spec_op flags (WriteOp data off) c =
     (if CanWrite flags then (WriteReply (int (length data)) (fuseStatus OK), overwrite c off data)
      else (WriteReply 0 (fuseStatus EPERM), c))"
| "spec_op flags (TruncateOp n) c =
     (if CanWrite flags then (StatusReply (fuseStatus OK), take n c @ replicate (n - length c) 0)
      else (StatusReply (fuseStatus EPERM), c))"
| "spec_op flags FlushOp c = (StatusReply (fuseStatus OK), c)"
| "spec_op flags (FsyncOp k) c = (StatusReply (fuseStatus OK), c)"

text \<open>
  The sizes for which the buffer's arithmetic is exact, and no truncation that shrinks the file
  to a size other than 0, since those lose data.
\<close>

fun allowed_op :: "file_op \<Rightarrow> byte list \<Rightarrow> bool" where
  "allowed_op (WriteOp data off) c \<longleftrightarrow> int off + int (length data) \<le> buffer_limit \<and> length data < 2 ^ 32"
| "allowed_op (TruncateOp n) c \<longleftrightarrow> n = 0 \<or> length c \<le> n \<and> int n \<le> buffer_limit"
| "allowed_op _ c \<longleftrightarrow> True"

fun spec_ops :: "(flags \<times> file_op) list \<Rightarrow> byte list \<Rightarrow> reply list \<times> byte list" where
  "spec_ops [] c = ([], c)"
| "spec_ops ((flags, op) # ops) c =
     (let (r, c1) = spec_op flags op c; (rs, c2) = spec_ops ops c1 in (r # rs, c2))"

fun allowed_ops :: "(flags \<times> file_op) list \<Rightarrow> byte list \<Rightarrow> bool" where
  "allowed_ops [] c \<longleftrightarrow> True"
| "allowed_ops ((flags, op) # ops) c \<longleftrightarrow> allowed_op op c \<and> allowed_ops ops (snd (spec_op flags op c))"

subsection \<open>The methods\<close>

fun run_op ::
  "'x goadb \<Rightarrow> flags \<Rightarrow> file_op \<Rightarrow> ('d, 'x) file_buffer \<Rightarrow> 'd world \<Rightarrow>
   (reply \<times> ('d, 'x) file_buffer \<times> 'd world) go" where
  "run_op u flags (ReadOp n off) f w =
     go_bind (af_Read u flags (replicate n 0) (int off) f) (\<lambda>(res, st, _). Return (ReadReply res st, f, w))"
| "run_op u flags (WriteOp data off) f w =
     go_bind (af_Write u flags data (int off) f w) (\<lambda>((n, st), _, f', w'). Return (WriteReply n st, f', w'))"
| "run_op u flags (TruncateOp n) f w =
     go_bind (af_Truncate u flags n f w) (\<lambda>(st, _, f', w'). Return (StatusReply st, f', w'))"
| "run_op u flags FlushOp f w =
     go_bind (af_Flush u flags f w) (\<lambda>(st, _, f', w'). Return (StatusReply st, f', w'))"
| "run_op u flags (FsyncOp k) f w =
     go_bind (af_Fsync u k f w) (\<lambda>(st, _, f', w'). Return (StatusReply st, f', w'))"

fun run_ops ::
  "'x goadb \<Rightarrow> (flags \<times> file_op) list \<Rightarrow> ('d, 'x) file_buffer \<Rightarrow> 'd world \<Rightarrow>
   (reply list \<times> ('d, 'x) file_buffer \<times> 'd world) go" where
  "run_ops u [] f w = Return ([], f, w)"
| "run_ops u ((flags, op) # ops) f w =
     go_bind (run_op u flags op f w) (\<lambda>(r, f1, w1).
     go_bind (run_ops u ops f1 w1) (\<lambda>(rs, f2, w2). Return (r # rs, f2, w2)))"

subsection \<open>The simulation\<close>

text \<open>
  The buffer holds the bytes, and so does the device unless the buffer is dirty. The parameters
  are those of \<open>file_device\<close>, so that the relation can be stated outside of it.
\<close>

definition holds_bytes where
  "holds_bytes c valid files writable f w bytes \<longleftrightarrow>
     fb_Client f = c \<and> valid (w_dev w) \<and> writable (w_dev w) (fb_Path f) \<and>
     good_slice (fb_buffer f) \<and> good_clock (w_clock w) \<and> fb_Contents f = bytes \<and>
     (fb_IsDirty f \<or> files (w_dev w) (fb_Path f) = Some bytes)"

text \<open>Whether the buffer may be dirty after an operation that found it so or not.\<close>

fun spec_unsaved :: "flags \<Rightarrow> file_op \<Rightarrow> bool \<Rightarrow> bool" where
  "spec_unsaved flags (ReadOp n off) d = d"
| "spec_unsaved flags (WriteOp data off) d = (d \<or> CanWrite flags)"
| "spec_unsaved flags (TruncateOp n) d = (d \<and> \<not> CanWrite flags)"
| "spec_unsaved flags FlushOp d = (d \<and> \<not> CanWrite flags)"
| "spec_unsaved flags (FsyncOp k) d = False"

context file_device begin

abbreviation holds where "holds \<equiv> holds_bytes c valid files writable"

text \<open>From one state of buffer and world to another: same file, same bytes, other paths alone.\<close>

abbreviation moves_to where
  "moves_to f w f' w' b \<equiv> holds f' w' b \<and> same_file f f' \<and>
     keeps_others files writable (fb_Path f) (w_dev w) (w_dev w')"

lemma holds_save:
  assumes "holds f w b"
  shows "\<exists>f' w'. saveToDevice u f w = Return (None, f', w') \<and> moves_to f w f' w' b \<and> \<not> fb_IsDirty f'"
proof -
  obtain d' where "saveToDevice u f w = Return (None, f\<lparr>fb_dirty := dirty_new\<rparr>, w\<lparr>w_dev := d'\<rparr>)"
    "valid d'" "files d' = (files (w_dev w))(fb_Path f \<mapsto> fb_Contents f)" "writable d' = writable (w_dev w)"
    using saveToDevice_store [of f w u] assms by (auto simp: holds_bytes_def)
  then show ?thesis using assms by (auto simp: holds_bytes_def fb_Contents_def keeps_others_def fb_IsDirty_def)
qed

lemma holds_load:
  assumes "holds f w b" and "\<not> fb_IsDirty f"
  shows "\<exists>f' w'. loadFromDevice u f w = Return (None, f', w') \<and> moves_to f w f' w' b \<and> \<not> fb_IsDirty f'"
proof -
  obtain buf d' where "loadFromDevice u f w = Return (None, f\<lparr>fb_buffer := buf\<rparr>, w\<lparr>w_dev := d'\<rparr>)"
    "good_slice buf" "gbs_data buf = b" "valid d'" "files d' = files (w_dev w)"
    "writable d' = writable (w_dev w)"
    using loadFromDevice_fetch [of f w b u] assms by (auto simp: holds_bytes_def)
  then show ?thesis using assms by (auto simp: holds_bytes_def fb_Contents_def fb_IsDirty_def keeps_others_def)
qed

lemma holds_Sync:
  assumes "holds f w b"
  shows "\<exists>f' w'. fb_Sync u f w = Return (None, f', w') \<and> moves_to f w f' w' b \<and> \<not> fb_IsDirty f'"
  using holds_save [OF assms] holds_load [OF assms] by (auto simp: fb_Sync_def fb_IsDirty_def)

lemma holds_Flush:
  assumes "holds f w b"
  shows "\<exists>f' w'. fb_Flush u f w = Return (None, f', w') \<and> moves_to f w f' w' b \<and> \<not> fb_IsDirty f'"
  using holds_save [OF assms] assms by (auto simp: fb_Flush_def fb_IsDirty_def)

lemma holds_SetSize:
  assumes "holds f w b" and "n = 0 \<or> length b \<le> n \<and> int n \<le> buffer_limit"
  shows "\<exists>f' w'. fb_SetSize (int n) f w = Return (f', w') \<and>
    moves_to f w f' w' (take n b @ replicate (n - length b) 0)"
proof -
  have "fb_Size f = int (length b)"
    using assms(1) by (auto simp: holds_bytes_def fb_Size_def fb_Contents_def gbs_len_def gbs_data_def good_slice_def wf_slice_def gbs_cap_def)
  then obtain f' w' where s: "fb_SetSize (int n) f w = Return (f', w')"
    "fb_Contents f' = take n b @ replicate (n - length b) 0" "good_slice (fb_buffer f')"
    "fb_IsDirty f'" "same_file f f'" "w_dev w' = w_dev w" "good_clock (w_clock w')"
    using fb_SetSize_contents [of f w "int n"] assms by (auto simp: holds_bytes_def)
  then show ?thesis
    using assms(1) same_file_fields [OF s(5)] by (auto simp: holds_bytes_def)
qed

lemma run_op_refines:
  assumes "holds f w b" and "allowed_op op b"
  shows "\<exists>f' w'. run_op u flags op f w = Return (fst (spec_op flags op b), f', w') \<and>
    moves_to f w f' w' (snd (spec_op flags op b)) \<and>
    (fb_IsDirty f' \<longrightarrow> spec_unsaved flags op (fb_IsDirty f))"
proof (cases op)
  case (ReadOp n off)
  then show ?thesis
    using assms af_Read_bytes [of flags f "int off" u "replicate n 0"] af_refused(1) [of flags u "replicate n 0" "int off" f]
    by (cases "CanRead flags") (auto simp: holds_bytes_def)
next
  case (WriteOp data off)
  show ?thesis
  proof (cases "CanWrite flags")
    case True
    then obtain r f' w' where s: "af_Write u flags data (int off) f w = Return ((int (length data), fuseStatus OK), r, f', w')"
      "fb_Contents f' = overwrite b off data" "good_slice (fb_buffer f')" "same_file f f'" "valid (w_dev w')"
      "good_clock (w_clock w')" "writable (w_dev w') = writable (w_dev w)"
      "fb_IsDirty f' \<or> files (w_dev w') (fb_Path f) = Some (fb_Contents f')"
      "keeps_others files writable (fb_Path f) (w_dev w) (w_dev w')"
      using assms af_Write_contents [of flags f "int off" w data u] write_ready_good [of f "int off"] WriteOp
      by (auto simp: holds_bytes_def)
    then have "holds f' w' (overwrite b off data)"
      using assms(1) by (simp add: holds_bytes_def same_file_fields [OF s(4)])
    then show ?thesis using True WriteOp s(1,4,9) by simp
  next
    case False
    then show ?thesis using WriteOp assms(1) af_refused(2) [OF False, of u data "int off" f w] by simp
  qed
next
  case (TruncateOp n)
  show ?thesis
  proof (cases "CanWrite flags")
    case True
    obtain f1 w1 where s: "fb_SetSize (int n) f w = Return (f1, w1)"
      "moves_to f w f1 w1 (take n b @ replicate (n - length b) 0)"
      using holds_SetSize [OF assms(1), of n] assms(2) TruncateOp by auto
    obtain f2 w2 where y: "fb_Sync u f1 w1 = Return (None, f2, w2)"
      "moves_to f1 w1 f2 w2 (take n b @ replicate (n - length b) 0)" "\<not> fb_IsDirty f2"
      using holds_Sync s(2) by blast
    have k: "keeps_others files writable (fb_Path f) (w_dev w) (w_dev w2)"
      using s(2) y(2) same_file_fields(1) [of f f1] by (auto intro: keeps_others_trans)
    have "wrap64 (int n) = int n" using assms(2) TruncateOp by (auto simp: buffer_limit_def)
    then show ?thesis
      using True TruncateOp s y k same_file_trans [of f f1 f2] by (simp add: af_Truncate_def Let_def)
  next
    case False
    then show ?thesis using TruncateOp assms(1) af_refused(3) [OF False, of u n f w] by simp
  qed
next
  case FlushOp
  show ?thesis
  proof (cases "CanWrite flags")
    case True
    then show ?thesis using FlushOp holds_Flush [OF assms(1), of u] by (auto simp: af_Flush_def Let_def)
  next
    case False
    then show ?thesis using FlushOp assms(1) af_Flush_readonly [OF False, of u f w] by simp
  qed
next
  case (FsyncOp k)
  then show ?thesis using holds_Sync [OF assms(1), of u] by (auto simp: af_Fsync_def Let_def)
qed

lemma run_ops_refines:
  "holds f w b \<Longrightarrow> allowed_ops ops b \<Longrightarrow>
   \<exists>f' w'. run_ops u ops f w = Return (fst (spec_ops ops b), f', w') \<and>
     holds f' w' (snd (spec_ops ops b)) \<and> same_file f f'"
proof (induction ops arbitrary: f w b)
  case (Cons a ops)
  obtain flags op where a: "a = (flags, op)" by fastforce
  obtain f1 w1 where s: "run_op u flags op f w = Return (fst (spec_op flags op b), f1, w1)"
    "holds f1 w1 (snd (spec_op flags op b))" "same_file f f1"
    using run_op_refines [OF Cons.prems(1), of op u flags] Cons.prems(2) a by auto
  obtain f2 w2 where t: "run_ops u ops f1 w1 = Return (fst (spec_ops ops (snd (spec_op flags op b))), f2, w2)"
    "holds f2 w2 (snd (spec_ops ops (snd (spec_op flags op b))))" "same_file f1 f2"
    using Cons.IH [OF s(2)] Cons.prems(2) a by auto
  show ?case
    using s(1) t(1,2) same_file_trans [OF s(3) t(3)] a by (auto simp: Let_def split: prod.splits)
qed simp

end

end
