(* ===== verification/Write_Session.thy ===== *)
theory Write_Session
  imports Mounted File_Session Reference_Device
begin

text \<open>
  A file system mounted for writing behaves like a store of files: a map from device paths to
  bytes and a list of open handles. This is the contract of all the parts together
  (\<open>AdbFileSystem\<close>, \<open>OpenFiles\<close>, \<open>AdbFile\<close>, \<open>FileBuffer\<close>, \<open>GrowableByteSlice\<close>): for one request
  after the other, the buffers, their reference counts and the files on the device together
  represent the store. The device is one that stores files and whose \<open>Stat\<close> is up to date.
\<close>

subsection \<open>The device\<close>

locale stat_device =
  file_device c valid files writable receiving closed + log_discipline c + goadb_util u
  for c :: "('d, 'x) device_client" and valid files writable receiving closed and u :: "'x goadb" +
  assumes stat_found:
      "valid d \<Longrightarrow> files d p = Some b \<Longrightarrow>
       \<exists>e r' d'. Stat c p r d = (Inr e, r', d') \<and> valid d' \<and> files d' = files d \<and> writable d' = writable d"
    and stat_missing:
      "valid d \<Longrightarrow> writable d p \<Longrightarrow> files d p = None \<Longrightarrow>
       \<exists>e r' d'. Stat c p r d = (Inl e, r', d') \<and> HasErrCode u e FileNoExistError \<and>
         (\<forall>m. \<exists>e'. WrapErrf u e m = Return e') \<and>
         valid d' \<and> files d' = files d \<and> writable d' = writable d"

interpretation mem_stat: stat_device mem_client mem_valid mem_files mem_writable mem_receiving mem_closed ref_util
proof (intro stat_device.intro stat_device_axioms.intro)
  show "file_device mem_client mem_valid mem_files mem_writable mem_receiving mem_closed"
    by (rule mem.file_device_axioms)
  show "log_discipline mem_client" unfolding mem_client_def by (rule goadb_log)
  show "goadb_util ref_util" by (rule ref.goadb_util_axioms)
next
  fix d p b and r :: "ref_error log_entry"
  assume "mem_valid d" "mem_files d p = Some b"
  then show "\<exists>e r' d'. Stat mem_client p r d = (Inr e, r', d') \<and> mem_valid d' \<and>
      mem_files d' = mem_files d \<and> mem_writable d' = mem_writable d"
    by (auto simp: mem_Stat_def mem_files_def split: option.splits)
next
  fix d p and r :: "ref_error log_entry"
  assume "mem_valid d" "mem_writable d p" "mem_files d p = None"
  then have "Stat mem_client p r d = (Inl (not_found p), r, d)"
    by (auto simp: mem_Stat_def mem_files_def mem_writable_def split: option.splits node.splits)
  moreover have "HasErrCode ref_util (not_found p) FileNoExistError"
    by (simp add: ref_util_def not_found_def)
  moreover have "\<exists>e'. WrapErrf ref_util (not_found p) m = Return e'" for m
    by (simp add: ref_util_def not_found_def)
  ultimately show "\<exists>e r' d'. Stat mem_client p r d = (Inl e, r', d') \<and> HasErrCode ref_util e FileNoExistError \<and>
      (\<forall>m. \<exists>e'. WrapErrf ref_util e m = Return e') \<and>
      mem_valid d' \<and> mem_files d' = mem_files d \<and> mem_writable d' = mem_writable d"
    using \<open>mem_valid d\<close> by blast
qed

subsection \<open>A new buffer over such a device\<close>

text \<open>When an open is refused.\<close>

definition open_refused :: "flags \<Rightarrow> byte list option \<Rightarrow> bool" where
  "open_refused flags file \<longleftrightarrow>
     flag_requires_write flags \<and> \<not> CanWrite flags \<or> file = None \<and> \<not> Contains flags O_CREATE"

text \<open>The bytes a file has after it was opened.\<close>

definition opened_bytes :: "flags \<Rightarrow> byte list option \<Rightarrow> byte list" where
  "opened_bytes flags file = (case file of None \<Rightarrow> [] | Some b \<Rightarrow> if Contains flags O_TRUNC then [] else b)"

lemma requires_write_create [simp]:
  "Contains flags O_CREATE \<Longrightarrow> flag_requires_write flags" "Contains flags O_TRUNC \<Longrightarrow> flag_requires_write flags"
  by (simp_all add: flag_requires_write_def)

context stat_device begin

lemma NewFileBuffer_refused:
  assumes "valid (w_dev w)" and "writable (w_dev w) p" and "open_refused flags (files (w_dev w) p)"
  shows "\<exists>e log' d'. NewFileBuffer u flags p c t perms h log w = Return (Inl e, log', w\<lparr>w_dev := d'\<rparr>) \<and>
    same_report log log' \<and> valid d' \<and> files d' = files (w_dev w) \<and> writable d' = writable (w_dev w)"
proof (cases "flag_requires_write flags \<and> \<not> CanWrite flags")
  case True
  then have "NewFileBuffer u flags p c t perms h log w = Return (Inl ErrNotPermitted, log, w\<lparr>w_dev := w_dev w\<rparr>)"
    by (simp add: NewFileBuffer_not_permitted)
  then show ?thesis using assms(1) by fastforce
next
  case False
  then have fl: "flag_requires_write flags \<longrightarrow> CanWrite flags" and none: "files (w_dev w) p = None"
    and nc: "\<not> Contains flags O_CREATE" using assms(3) by (auto simp: open_refused_def)
  obtain e log' d' e' where st: "Stat c p log (w_dev w) = (Inl e, log', d')"
    "WrapErrf u e ''error reading file permissions'' = Return e'"
    "valid d'" "files d' = files (w_dev w)" "writable d' = writable (w_dev w)"
    using stat_missing [OF assms(1,2) none, of log] by blast
  have "NewFileBuffer u flags p c t perms h log w = Return (Inl e', log', w\<lparr>w_dev := d'\<rparr>)"
    using NewFileBuffer_missing [OF fl st(1,2), of t perms h] nc by simp
  then show ?thesis using st(3-5) stat_log [OF st(1)] by blast
qed

lemma NewFileBuffer_opened:
  assumes "valid (w_dev w)" and "writable (w_dev w) p" and "good_clock (w_clock w)"
    and "\<not> open_refused flags (files (w_dev w) p)"
    and b: "b = opened_bytes flags (files (w_dev w) p)"
  shows "\<exists>f log' w'. NewFileBuffer u flags p c t perms h log w = Return (Inr f, log', w') \<and>
    same_report log log' \<and> holds f w' b \<and> \<not> fb_IsDirty f \<and> fb_Path f = p \<and>
    files (w_dev w') = (files (w_dev w))(p \<mapsto> b) \<and> writable (w_dev w') = writable (w_dev w)"
proof (cases "files (w_dev w) p")
  case None
  then have fl: "CanWrite flags" "Contains flags O_CREATE" using assms(4) by (auto simp: open_refused_def)
  obtain e log' d e' where st: "Stat c p log (w_dev w) = (Inl e, log', d)"
    "WrapErrf u e ''error reading file permissions'' = Return e'" "HasErrCode u e' FileNoExistError"
    "valid d" "files d = files (w_dev w)" "writable d = writable (w_dev w)"
    using stat_missing [OF assms(1,2) None, of log] wrap_code by blast
  have "writable d p" using st(6) assms(2) by simp
  from NewFileBuffer_create [OF fl st(1-4) this assms(3), of t perms h]
  obtain f w' where n: "NewFileBuffer u flags p c t perms h log w = Return (Inr f, log', w')"
    and f: "fb_Contents f = []" "good_slice (fb_buffer f)" "\<not> fb_IsDirty f" "fb_Path f = p" "fb_Client f = c"
    and w': "valid (w_dev w')" "files (w_dev w') = (files d)(p \<mapsto> [])" "writable (w_dev w') = writable d"
      "good_clock (w_clock w')"
    by blast
  have "b = []" using None b by (simp add: opened_bytes_def)
  then have "holds f w' b" using f w' \<open>writable d p\<close> by (simp add: holds_bytes_def)
  then show ?thesis
    using n f w' st(5,6) stat_log [OF st(1)] \<open>b = []\<close>
    by (intro exI [of _ f] exI [of _ log'] exI [of _ w']) simp
next
  case (Some b0)
  then have fl: "flag_requires_write flags \<longrightarrow> CanWrite flags" using assms(4) by (auto simp: open_refused_def)
  obtain e log' d where st: "Stat c p log (w_dev w) = (Inr e, log', d)"
    "valid d" "files d = files (w_dev w)" "writable d = writable (w_dev w)"
    using stat_found [OF assms(1) Some, of log] by blast
  have wr: "writable d p" and fi: "files d p = Some b0" using st(3,4) assms(2) Some by simp_all
  have "\<exists>f w'. NewFileBuffer u flags p c t perms h log w = Return (Inr f, log', w') \<and>
    fb_Contents f = b \<and> good_slice (fb_buffer f) \<and> \<not> fb_IsDirty f \<and> fb_Path f = p \<and> fb_Client f = c \<and>
    valid (w_dev w') \<and> files (w_dev w') = (files d)(p \<mapsto> b) \<and> writable (w_dev w') = writable d \<and>
    good_clock (w_clock w')"
  proof (cases "Contains flags O_TRUNC")
    case True
    then have "b = []" using Some b by (simp add: opened_bytes_def)
    then show ?thesis using NewFileBuffer_truncate [OF fl True st(1,2) wr assms(3), of u t perms h] by blast
  next
    case False
    then have "b = b0" using Some b by (simp add: opened_bytes_def)
    moreover have "(files d)(p \<mapsto> b0) = files d" using fi by auto
    ultimately show ?thesis
      using NewFileBuffer_open_existing [OF fl False st(1,2) fi, of u t perms h] assms(3) by metis
  qed
  then show ?thesis using st(3,4) stat_log [OF st(1)] wr by (auto simp: holds_bytes_def)
qed

end

subsection \<open>The store\<close>

text \<open>
  \<open>st_unsaved\<close> has the paths that may have bytes the device does not have. A handle is the path
  and the flags it was opened with; a released one is \<^term>\<open>None\<close>.
\<close>

record store =
  st_files :: "string \<Rightarrow> byte list option"
  st_unsaved :: "string set"
  st_handles :: "(string \<times> flags) option list"

definition uses :: "string \<Rightarrow> store \<Rightarrow> nat" where
  "uses p st = length (filter (\<lambda>h. map_option fst h = Some p) (st_handles st))"

definition handle :: "nat \<Rightarrow> store \<Rightarrow> (string \<times> flags) option" where
  "handle h st = (if h < length (st_handles st) then st_handles st ! h else None)"

definition spec_open :: "string \<Rightarrow> flags \<Rightarrow> store \<Rightarrow> store" where
  "spec_open p flags st =
     (if open_refused flags (st_files st p) then st
      else st\<lparr>st_files := (st_files st)(p \<mapsto> opened_bytes flags (st_files st p)),
        st_handles := st_handles st @ [Some (p, flags)]\<rparr>)"

definition spec_file :: "string \<Rightarrow> flags \<Rightarrow> file_op \<Rightarrow> store \<Rightarrow> store" where
  "spec_file p flags op st =
     st\<lparr>st_files := (st_files st)(p \<mapsto> snd (spec_op flags op (the (st_files st p)))),
       st_unsaved := (if spec_unsaved flags op (p \<in> st_unsaved st) then insert p (st_unsaved st)
         else st_unsaved st - {p})\<rparr>"

text \<open>The operation a request asks an open file for.\<close>

fun file_request :: "request \<Rightarrow> (nat \<times> file_op) option" where
  "file_request (ReadReq h buf off) = Some (h, ReadOp (length buf) (nat off))"
| "file_request (WriteReq h data off) = Some (h, WriteOp data (nat off))"
| "file_request (TruncateReq h n) = Some (h, TruncateOp n)"
| "file_request (FlushReq h) = Some (h, FlushOp)"
| "file_request (FsyncReq h k) = Some (h, FsyncOp k)"
| "file_request r = None"

fun request_offset :: "request \<Rightarrow> int" where
  "request_offset (ReadReq h buf off) = off"
| "request_offset (WriteReq h data off) = off"
| "request_offset r = 0"

definition spec_file_request :: "request \<Rightarrow> store \<Rightarrow> store" where
  "spec_file_request r st =
     (case file_request r of
        None \<Rightarrow> st
      | Some (h, op) \<Rightarrow>
          (case handle h st of None \<Rightarrow> st | Some (p, flags) \<Rightarrow> spec_file p flags op st))"

text \<open>\<open>resolve\<close> maps the names of the kernel to paths of the device.\<close>

fun spec_request :: "(string \<Rightarrow> string) \<Rightarrow> request \<Rightarrow> store \<Rightarrow> store" where
  "spec_request resolve (OpenReq name flags) st = spec_open (resolve name) flags st"
| "spec_request resolve (CreateReq name raw perms) st = spec_open (resolve name) (create_flags raw) st"
| "spec_request resolve (ReleaseReq h) st =
     (if h < length (st_handles st) then st\<lparr>st_handles := (st_handles st)[h := None]\<rparr> else st)"
| "spec_request resolve r st = spec_file_request r st"

fun spec_requests :: "(string \<Rightarrow> string) \<Rightarrow> request list \<Rightarrow> store \<Rightarrow> store" where
  "spec_requests resolve [] st = st"
| "spec_requests resolve (r # rs) st = spec_requests resolve rs (spec_request resolve r st)"

text \<open>
  The sessions of the contract. A file that is open already is not opened again with flags that
  would change it (the code then shares its buffer and ignores the flags); the last handle of a
  path is released after a flush, as the kernel does. \<open>paths\<close> are the paths where the device
  can store files.
\<close>

definition allowed_open :: "string set \<Rightarrow> string \<Rightarrow> flags \<Rightarrow> store \<Rightarrow> bool" where
  "allowed_open paths p flags st \<longleftrightarrow> p \<in> paths \<and> int (uses p st) + 1 < 2 ^ 31 \<and>
     (0 < uses p st \<longrightarrow> \<not> Contains flags O_TRUNC \<and> (flag_requires_write flags \<longrightarrow> CanWrite flags))"

definition allowed_file_request :: "request \<Rightarrow> store \<Rightarrow> bool" where
  "allowed_file_request r st \<longleftrightarrow>
     (case file_request r of
        None \<Rightarrow> False
      | Some (h, op) \<Rightarrow> 0 \<le> request_offset r \<and>
          (case handle h st of None \<Rightarrow> True | Some (p, flags) \<Rightarrow> allowed_op op (the (st_files st p))))"

fun allowed_request :: "(string \<Rightarrow> string) \<Rightarrow> string set \<Rightarrow> request \<Rightarrow> store \<Rightarrow> bool" where
  "allowed_request resolve paths (OpenReq name flags) st = allowed_open paths (resolve name) flags st"
| "allowed_request resolve paths (CreateReq name raw perms) st =
     allowed_open paths (resolve name) (create_flags raw) st"
| "allowed_request resolve paths (ReleaseReq h) st =
     (case handle h st of None \<Rightarrow> True | Some (p, flags) \<Rightarrow> uses p st = 1 \<longrightarrow> p \<notin> st_unsaved st)"
| "allowed_request resolve paths r st = allowed_file_request r st"

fun allowed_session :: "(string \<Rightarrow> string) \<Rightarrow> string set \<Rightarrow> request list \<Rightarrow> store \<Rightarrow> bool" where
  "allowed_session resolve paths [] st = True"
| "allowed_session resolve paths (r # rs) st \<longleftrightarrow>
     allowed_request resolve paths r st \<and> allowed_session resolve paths rs (spec_request resolve r st)"

subsection \<open>How a mounted file system represents a store\<close>

abbreviation path_map :: "('d, 'x) mounted \<Rightarrow> string \<Rightarrow> nat option" where
  "path_map s \<equiv> of_buffersByPath (mt_openFiles s)"

abbreviation buffers :: "('d, 'x) mounted \<Rightarrow> ('d, 'x) file_buffer list" where
  "buffers s \<equiv> of_heap (mt_openFiles s)"

abbreviation device :: "('d, 'x) mounted \<Rightarrow> 'd" where
  "device s \<equiv> w_dev (mt_world s)"

text \<open>The buffer of a path that is open.\<close>

definition shared_buffer where
  "shared_buffer c valid files writable w b st p \<longleftrightarrow>
     fb_Path b = p \<and> fb_has_handler b \<and> fb_refCount b = int (uses p st) \<and>
     0 < uses p st \<and> int (uses p st) < 2 ^ 31 \<and>
     (\<exists>bytes. st_files st p = Some bytes \<and> holds_bytes c valid files writable b w bytes) \<and>
     (fb_IsDirty b \<longrightarrow> p \<in> st_unsaved st)"

definition path_represents where
  "path_represents c valid files writable s st p \<longleftrightarrow>
     (case path_map s p of
        None \<Rightarrow> uses p st = 0 \<and> st_files st p = files (device s) p
      | Some a \<Rightarrow> a < length (buffers s) \<and>
          shared_buffer c valid files writable (mt_world s) (buffers s ! a) st p)"

definition handle_represents :: "('d, 'x) mounted \<Rightarrow> adb_file option \<Rightarrow> (string \<times> flags) option \<Rightarrow> bool" where
  "handle_represents s f h \<longleftrightarrow>
     rel_option (\<lambda>f (p, flags). af_Flags f = flags \<and> path_map s p = Some (af_FileBuffer f)) f h"

definition represents where
  "represents c valid files writable paths s st \<longleftrightarrow>
     (\<forall>d. of_ClientFactory (mt_openFiles s) d = (c, d)) \<and> \<not> cf_ReadOnly (fs_config (mt_fs s)) \<and>
     valid (device s) \<and> good_clock (w_clock (mt_world s)) \<and> (\<forall>p \<in> paths. writable (device s) p) \<and>
     list_all2 (handle_represents s) (mt_files s) (st_handles st) \<and>
     (\<forall>p. path_represents c valid files writable s st p)"

lemma mounted_updates [simp]:
  "mt_openFiles (set_openFiles ofs s) = ofs" "mt_files (set_openFiles ofs s) = mt_files s"
  "mt_world (set_openFiles ofs s) = mt_world s" "fs_config (mt_fs (set_openFiles ofs s)) = fs_config (mt_fs s)"
  "mt_openFiles (s\<lparr>mt_files := x\<rparr>) = mt_openFiles s" "mt_openFiles (s\<lparr>mt_world := w\<rparr>) = mt_openFiles s"
  by (simp_all add: set_openFiles_def mt_openFiles_def)

lemma set_buffer_simps [simp]:
  "mt_files (set_buffer f b w s) = mt_files s" "mt_world (set_buffer f b w s) = w"
  "path_map (set_buffer f b w s) = path_map s" "fs_config (mt_fs (set_buffer f b w s)) = fs_config (mt_fs s)"
  "buffers (set_buffer f b w s) = (buffers s)[af_FileBuffer f := b]"
  "of_ClientFactory (mt_openFiles (set_buffer f b w s)) = of_ClientFactory (mt_openFiles s)"
  by (simp_all add: set_buffer_def)

lemma of_inc_simps [simp]:
  "of_buffersByPath (of_inc a ofs) = of_buffersByPath ofs" "of_ClientFactory (of_inc a ofs) = of_ClientFactory ofs"
  "of_heap (of_inc a ofs) = (of_heap ofs)[a := snd (fb_IncRefCount (of_heap ofs ! a))]"
  by (simp_all add: of_inc_def)

subsection \<open>Counting handles\<close>

lemma length_filter_update:
  "i < length xs \<Longrightarrow> length (filter P (xs[i := x])) + (if P (xs ! i) then 1 else 0) =
     length (filter P xs) + (if P x then 1 else 0)"
proof (induction xs arbitrary: i)
  case (Cons y xs)
  show ?case
  proof (cases i)
    case (Suc j)
    then show ?thesis using Cons.IH [of j] Cons.prems by auto
  qed simp
qed simp

lemma uses_append [simp]:
  "uses q (st\<lparr>st_handles := hs @ [Some (p, flags)]\<rparr>) = uses q (st\<lparr>st_handles := hs\<rparr>) + (if p = q then 1 else 0)"
  by (simp add: uses_def)

lemma uses_same [simp]:
  "uses q (st\<lparr>st_files := m\<rparr>) = uses q st" "uses q (st\<lparr>st_unsaved := x\<rparr>) = uses q st"
  "uses q (st\<lparr>st_files := m, st_handles := hs\<rparr>) = uses q (st\<lparr>st_handles := hs\<rparr>)"
  "uses q (st\<lparr>st_handles := st_handles st\<rparr>) = uses q st"
  by (simp_all add: uses_def)

lemma uses_release:
  assumes "handle h st = Some (p, flags)"
  shows "uses q (st\<lparr>st_handles := (st_handles st)[h := None]\<rparr>) + (if q = p then 1 else 0) = uses q st"
  using assms length_filter_update [of h "st_handles st" "\<lambda>h. map_option fst h = Some q" None]
  by (auto simp: uses_def handle_def split: if_splits)

lemma uses_handle:
  assumes "uses p st = 0" and "h < length (st_handles st)" and "st_handles st ! h = Some (q, flags)"
  shows "q \<noteq> p"
proof
  assume "q = p"
  then have "st_handles st ! h \<in> set (filter (\<lambda>h. map_option fst h = Some p) (st_handles st))"
    using nth_mem [OF assms(2)] assms(3) by simp
  then show False using assms(1) by (auto simp: uses_def filter_empty_conv)
qed

subsection \<open>What a request to one path leaves as it is\<close>

context file_device begin

lemma holds_other:
  assumes "holds g w b" and "keeps_others files writable p (w_dev w) (w_dev w')" and "fb_Path g \<noteq> p"
    and "valid (w_dev w')" and "good_clock (w_clock w')"
  shows "holds g w' b"
  using assms by (simp add: holds_bytes_def keeps_others_def)

lemma path_represents_other:
  assumes "path_represents c valid files writable s st q" and "q \<noteq> p"
    and "path_map s' q = path_map s q"
    and "\<And>a. path_map s q = Some a \<Longrightarrow> a < length (buffers s') \<and> buffers s' ! a = buffers s ! a"
    and "st_files st' q = st_files st q" and "uses q st' = uses q st"
    and "q \<in> st_unsaved st \<longrightarrow> q \<in> st_unsaved st'"
    and "keeps_others files writable p (device s) (device s')"
    and "valid (device s')" and "good_clock (w_clock (mt_world s'))"
  shows "path_represents c valid files writable s' st' q"
proof (cases "path_map s q")
  case None
  then show ?thesis using assms(1-3,5,6,8) by (simp add: path_represents_def keeps_others_def)
next
  case (Some a)
  then have b: "shared_buffer c valid files writable (mt_world s) (buffers s ! a) st q"
    using assms(1) by (simp add: path_represents_def)
  then have "holds (buffers s ! a) (mt_world s') (the (st_files st q))"
    using holds_other [OF _ assms(8) _ assms(9,10)] assms(2) by (auto simp: shared_buffer_def)
  with b have "shared_buffer c valid files writable (mt_world s') (buffers s ! a) st' q"
    using assms(5-7) by (auto simp: shared_buffer_def)
  then show ?thesis using Some assms(3) assms(4) [OF Some] by (simp add: path_represents_def)
qed

text \<open>Two open paths have different buffers.\<close>

lemma path_represents_distinct:
  assumes "\<forall>p. path_represents c valid files writable s st p"
    and "path_map s p = Some a" and "path_map s q = Some a'" and "q \<noteq> p"
  shows "a' \<noteq> a"
proof
  assume "a' = a"
  moreover have "fb_Path (buffers s ! a) = p"
    using assms(1) [THEN spec, of p] assms(2) by (simp add: path_represents_def shared_buffer_def)
  moreover have "fb_Path (buffers s ! a') = q"
    using assms(1) [THEN spec, of q] assms(3) by (simp add: path_represents_def shared_buffer_def)
  ultimately show False using assms(4) by simp
qed

end

subsection \<open>Requests to an open file\<close>

text \<open>Such a request calls the operation on the shared buffer and stores it back.\<close>

lemma serve_file_request:
  assumes "file_request r = Some (h, op)" and "\<forall>n off. op \<noteq> ReadOp n off" and "0 \<le> request_offset r"
    and "h < length (mt_files s)" and "mt_files s ! h = Some f"
  shows "serve u r s = go_bind (run_op u (af_Flags f) op (mt_buffer s f) (mt_world s))
    (\<lambda>(_, b, w). Return (set_buffer f b w s))"
  using assms
  by (cases r) (auto simp: for_file_def go_bind_assoc split_def)

context file_device begin

text \<open>Storing back a buffer that was moved from one state to the next.\<close>

lemma represents_set_buffer:
  assumes r: "represents c valid files writable paths s st" and m: "path_map s p = Some (af_FileBuffer f)"
    and b: "holds b' w' bytes" "same_file (mt_buffer s f) b'"
      "keeps_others files writable p (device s) (w_dev w')"
    and u: "fb_IsDirty b' \<longrightarrow> p \<in> unsaved" "unsaved - {p} = st_unsaved st - {p}"
  shows "represents c valid files writable paths (set_buffer f b' w' s)
    (st\<lparr>st_files := (st_files st)(p \<mapsto> bytes), st_unsaved := unsaved\<rparr>)"
proof -
  let ?s = "set_buffer f b' w' s" and ?st = "st\<lparr>st_files := (st_files st)(p \<mapsto> bytes), st_unsaved := unsaved\<rparr>"
  let ?a = "af_FileBuffer f"
  have all: "\<forall>p. path_represents c valid files writable s st p" using r by (simp add: represents_def)
  have a: "?a < length (buffers s)" "shared_buffer c valid files writable (mt_world s) (buffers s ! ?a) st p"
    using all [THEN spec, of p] m by (simp_all add: path_represents_def)
  have w': "valid (w_dev w')" "good_clock (w_clock w')" using b(1) by (simp_all add: holds_bytes_def)
  have "path_represents c valid files writable ?s ?st q" for q
  proof (cases "q = p")
    case True
    have "shared_buffer c valid files writable w' b' ?st p"
      using a(2) b(1) u(1) same_file_fields [OF b(2) [unfolded mt_buffer_def]] by (simp add: shared_buffer_def)
    then show ?thesis using True m a(1) by (simp add: path_represents_def)
  next
    case False
    show ?thesis
    proof (rule path_represents_other [OF all [THEN spec] False])
      fix a' assume a': "path_map s q = Some a'"
      then have "a' < length (buffers s)" using all [THEN spec, of q] by (simp add: path_represents_def)
      then show "a' < length (buffers ?s) \<and> buffers ?s ! a' = buffers s ! a'"
        using path_represents_distinct [OF all m a' False] by simp
    next
      show "q \<in> st_unsaved st \<longrightarrow> q \<in> st_unsaved ?st" using u(2) False by auto
    qed (use False b(3) w' in simp_all)
  qed
  moreover have "handle_represents ?s = handle_represents s"
    by (simp add: handle_represents_def fun_eq_iff)
  moreover have "\<forall>p \<in> paths. writable (w_dev w') p"
    using r b(3) by (simp add: represents_def keeps_others_def)
  ultimately show ?thesis using r w' by (simp add: represents_def)
qed

lemma handle_open:
  assumes "represents c valid files writable paths s st"
  shows "length (mt_files s) = length (st_handles st)"
    and "handle h st = Some (p, flags) \<Longrightarrow> \<exists>f. mt_files s ! h = Some f \<and> af_Flags f = flags \<and>
      path_map s p = Some (af_FileBuffer f) \<and>
      shared_buffer c valid files writable (mt_world s) (mt_buffer s f) st p"
    and "h < length (mt_files s) \<Longrightarrow> handle h st = None \<Longrightarrow> mt_files s ! h = None"
proof -
  have all: "list_all2 (handle_represents s) (mt_files s) (st_handles st)"
    using assms by (simp add: represents_def)
  then show len: "length (mt_files s) = length (st_handles st)" by (rule list_all2_lengthD)
  show "\<exists>f. mt_files s ! h = Some f \<and> af_Flags f = flags \<and> path_map s p = Some (af_FileBuffer f) \<and>
      shared_buffer c valid files writable (mt_world s) (mt_buffer s f) st p"
    if h: "handle h st = Some (p, flags)"
  proof -
    have "h < length (st_handles st)" "st_handles st ! h = Some (p, flags)"
      using h by (simp_all add: handle_def split: if_splits)
    then have "handle_represents s (mt_files s ! h) (Some (p, flags))"
      using list_all2_nthD2 [OF all] by metis
    then obtain f where f: "mt_files s ! h = Some f" "af_Flags f = flags" "path_map s p = Some (af_FileBuffer f)"
      by (auto simp: handle_represents_def option_rel_Some2)
    moreover have "path_represents c valid files writable s st p" using assms by (simp add: represents_def)
    ultimately show ?thesis by (auto simp: path_represents_def mt_buffer_def)
  qed
  show "mt_files s ! h = None" if "h < length (mt_files s)" "handle h st = None"
    using list_all2_nthD [OF all that(1)] that len
    by (simp add: handle_def handle_represents_def split: if_splits)
qed

lemma file_request_refines:
  assumes "represents c valid files writable paths s st" and "allowed_file_request r st"
  shows "\<exists>s'. serve u r s = Return s' \<and> represents c valid files writable paths s' (spec_file_request r st) \<and>
    fs_config (mt_fs s') = fs_config (mt_fs s)"
proof -
  obtain h op where e: "file_request r = Some (h, op)"
    using assms(2) by (cases "file_request r") (auto simp: allowed_file_request_def)
  have ho: "file_request r = Some (h, op)" "0 \<le> request_offset r"
    "case handle h st of None \<Rightarrow> True | Some (p, flags) \<Rightarrow> allowed_op op (the (st_files st p))"
    using assms(2) e by (simp_all add: allowed_file_request_def)
  show ?thesis
  proof (cases "handle h st")
    case None
    then have "h < length (mt_files s) \<longrightarrow> mt_files s ! h = None" using handle_open(3) [OF assms(1)] by blast
    then have "serve u r s = Return s" using ho(1) by (cases r) (auto simp: for_file_def)
    then show ?thesis using None ho(1) assms(1) by (simp add: spec_file_request_def)
  next
    case (Some pf)
    obtain p flags where pf: "pf = (p, flags)" by fastforce
    have spec: "spec_file_request r st = spec_file p flags op st"
      using Some pf ho(1) by (simp add: spec_file_request_def)
    obtain f where f: "mt_files s ! h = Some f" "af_Flags f = flags" "path_map s p = Some (af_FileBuffer f)"
      "shared_buffer c valid files writable (mt_world s) (mt_buffer s f) st p"
      using handle_open(2) [OF assms(1)] Some pf by blast
    then obtain bytes where b: "st_files st p = Some bytes" "holds (mt_buffer s f) (mt_world s) bytes"
      by (auto simp: shared_buffer_def)
    have h: "h < length (mt_files s)"
      using Some handle_open(1) [OF assms(1)] by (simp add: handle_def split: if_splits)
    show ?thesis
    proof (cases "\<exists>n off. op = ReadOp n off")
      case True
      then obtain buf off where rd: "r = ReadReq h buf off" "op = ReadOp (length buf) (nat off)"
        using ho(1) by (cases r) auto
      have "\<exists>x. af_Read u flags buf off (mt_buffer s f) = Return x"
        using af_Read_bytes [of flags "mt_buffer s f" off u buf] af_refused(1) [of flags u buf off "mt_buffer s f"]
          b(2) ho(2) rd(1) by (cases "CanRead flags") (auto simp: holds_bytes_def)
      then have "serve u r s = Return s"
        using rd(1) h f(1,2) by (auto simp: for_file_def)
      moreover have "(st_files st)(p \<mapsto> bytes) = st_files st" using b(1) by auto
      then have "spec_file p flags op st = st"
        using rd(2) b(1) by (cases st) (auto simp: spec_file_def insert_absorb)
      ultimately show ?thesis using spec assms(1) by simp
    next
      case False
      have ok: "allowed_op op bytes" using ho(3) Some pf b(1) by simp
      obtain b' w' where o: "run_op u flags op (mt_buffer s f) (mt_world s) = Return (fst (spec_op flags op bytes), b', w')"
        "holds b' w' (snd (spec_op flags op bytes))" "same_file (mt_buffer s f) b'"
        "keeps_others files writable (fb_Path (mt_buffer s f)) (device s) (w_dev w')"
        "fb_IsDirty b' \<longrightarrow> spec_unsaved flags op (fb_IsDirty (mt_buffer s f))"
        using run_op_refines [OF b(2) ok, of u flags] by blast
      have p: "fb_Path (mt_buffer s f) = p" "fb_IsDirty (mt_buffer s f) \<longrightarrow> p \<in> st_unsaved st"
        using f(4) by (simp_all add: shared_buffer_def)
      have sv: "serve u r s = Return (set_buffer f b' w' s)"
        using serve_file_request [OF ho(1) _ ho(2) h f(1), of u] False o(1) f(2) by auto
      have "fb_IsDirty b' \<longrightarrow> spec_unsaved flags op (p \<in> st_unsaved st)"
        using o(5) p(2) by (cases op) auto
      with represents_set_buffer [OF assms(1) f(3) o(2,3) o(4) [unfolded p(1)],
          of "if spec_unsaved flags op (p \<in> st_unsaved st) then insert p (st_unsaved st) else st_unsaved st - {p}"]
      have "represents c valid files writable paths (set_buffer f b' w' s) (spec_file p flags op st)"
        using b(1) by (auto simp: spec_file_def)
      then show ?thesis using sv spec by simp
    qed
  qed
qed

end

subsection \<open>Opening\<close>

lemma fs_open_with_opened:
  assumes "GetOrLoad u p flags perms (StartOperation op p) (fs_openFiles fs) w = Return (Inr a, log, ofs, w')"
    and "same_report (StartOperation op p) log" and "\<not> cf_ReadOnly (fs_config fs)"
    and "p = convertClientPathToDevicePath fs name"
  shows "\<exists>r. fs_open_with u op name flags perms fs w =
    Return ((Some (NewAdbFile flags a), fuseStatus OK), r, fs\<lparr>fs_openFiles := ofs\<rparr>, w')"
proof -
  have "le_result log = []" "unreported log" using same_report_fields [OF assms(2)] by simp_all
  then show ?thesis
    using assms(1,3,4) by (simp add: fs_open_with_def createFile_def Let_def log_Result_def)
qed

lemma fs_open_with_error:
  assumes "GetOrLoad u p flags perms (StartOperation op p) (fs_openFiles fs) w = Return (Inl e, log, ofs, w')"
    and "same_report (StartOperation op p) log" and "\<not> cf_ReadOnly (fs_config fs)"
    and "p = convertClientPathToDevicePath fs name"
  shows "\<exists>st r. fs_open_with u op name flags perms fs w = Return ((None, st), r, fs\<lparr>fs_openFiles := ofs\<rparr>, w')"
proof -
  have "unreported log" using same_report_fields [OF assms(2)] by simp
  then show ?thesis
    using assms(1,3,4) by (simp add: fs_open_with_def createFile_def Let_def)
qed

text \<open>The state after an open that gave a handle.\<close>

definition opened where
  "opened s ofs flags a w =
     s\<lparr>mt_fs := (mt_fs s)\<lparr>fs_openFiles := ofs\<rparr>, mt_world := w, mt_files := mt_files s @ [Some (NewAdbFile flags a)]\<rparr>"

lemma opened_simps [simp]:
  "mt_openFiles (opened s ofs flags a w) = ofs" "mt_world (opened s ofs flags a w) = w"
  "mt_files (opened s ofs flags a w) = mt_files s @ [Some (NewAdbFile flags a)]"
  "fs_config (mt_fs (opened s ofs flags a w)) = fs_config (mt_fs s)"
  by (simp_all add: opened_def mt_openFiles_def)

lemma same_openFiles [simp]: "(mt_fs s)\<lparr>fs_openFiles := mt_openFiles s\<rparr> = mt_fs s"
  by (simp add: mt_openFiles_def)

lemma handles_append:
  assumes "list_all2 (handle_represents s) fs hs" and "\<And>p a. path_map s p = Some a \<Longrightarrow> path_map s' p = Some a"
    and "af_Flags f = flags" and "path_map s' p = Some (af_FileBuffer f)"
  shows "list_all2 (handle_represents s') (fs @ [Some f]) (hs @ [Some (p, flags)])"
proof -
  have "handle_represents s f' h \<Longrightarrow> handle_represents s' f' h" for f' h
    using assms(2) by (cases f'; cases h) (auto simp: handle_represents_def)
  then have "list_all2 (handle_represents s') fs hs" using assms(1) by (rule list_all2_mono [rotated])
  then show ?thesis using assms(3,4) by (simp add: list_all2_append handle_represents_def list_all2_lengthD)
qed

context file_device begin

lemma represents_share:
  assumes r: "represents c valid files writable paths s st" and m: "path_map s p = Some a"
    and ok: "allowed_open paths p flags st"
  shows "represents c valid files writable paths
    (opened s (of_inc a (mt_openFiles s)) flags a (mt_world s)) (spec_open p flags st)"
proof -
  let ?s = "opened s (of_inc a (mt_openFiles s)) flags a (mt_world s)"
  have all: "\<forall>p. path_represents c valid files writable s st p" using r by (simp add: represents_def)
  have a: "a < length (buffers s)" "shared_buffer c valid files writable (mt_world s) (buffers s ! a) st p"
    using all [THEN spec, of p] m by (simp_all add: path_represents_def)
  then obtain bytes where b: "st_files st p = Some bytes" by (auto simp: shared_buffer_def)
  have "0 < uses p st" using a(2) by (simp add: shared_buffer_def)
  then have fl: "\<not> Contains flags O_TRUNC" "flag_requires_write flags \<longrightarrow> CanWrite flags"
    using ok by (simp_all add: allowed_open_def)
  have "(st_files st)(p \<mapsto> bytes) = st_files st" using b by auto
  then have st: "spec_open p flags st = st\<lparr>st_handles := st_handles st @ [Some (p, flags)]\<rparr>" (is "_ = ?st")
    using b fl by (auto simp: spec_open_def open_refused_def opened_bytes_def)
  have w: "valid (device s)" "good_clock (w_clock (mt_world s))" using r by (simp_all add: represents_def)
  have "path_represents c valid files writable ?s ?st q" for q
  proof (cases "q = p")
    case True
    have "wrap32 (fb_refCount (buffers s ! a) + 1) = int (uses p st) + 1"
      using a(2) ok by (simp add: shared_buffer_def allowed_open_def)
    then have "shared_buffer c valid files writable (mt_world s) (snd (fb_IncRefCount (buffers s ! a))) ?st p"
      using a(2) ok
      by (auto simp: shared_buffer_def fb_IncRefCount_def Let_def holds_bytes_def fb_Contents_def
          fb_IsDirty_def allowed_open_def)
    then show ?thesis using True m a(1) by (simp add: path_represents_def)
  next
    case False
    show ?thesis
    proof (rule path_represents_other [OF all [THEN spec] False])
      fix a' assume a': "path_map s q = Some a'"
      then have "a' < length (buffers s)" using all [THEN spec, of q] by (simp add: path_represents_def)
      then show "a' < length (buffers ?s) \<and> buffers ?s ! a' = buffers s ! a'"
        using path_represents_distinct [OF all m a' False] by simp
    qed (use False w in simp_all)
  qed
  moreover have "list_all2 (handle_represents ?s) (mt_files ?s) (st_handles ?st)"
    using r m handles_append [of s "mt_files s" "st_handles st" ?s "NewAdbFile flags a" flags p]
    by (simp add: represents_def NewAdbFile_def)
  ultimately show ?thesis using r unfolding st by (simp add: represents_def)
qed

lemma represents_fresh:
  assumes r: "represents c valid files writable paths s st" and m: "path_map s p = None"
    and ok: "allowed_open paths p flags st" and "\<not> open_refused flags (st_files st p)"
    and f: "holds f w' (opened_bytes flags (st_files st p))" "\<not> fb_IsDirty f"
      "fb_Path f = p" "fb_has_handler f" "fb_refCount f = 0"
    and d: "files (w_dev w') = (files (device s))(p \<mapsto> opened_bytes flags (st_files st p))"
      "writable (w_dev w') = writable (device s)"
  shows "represents c valid files writable paths
    (opened s ((mt_openFiles s)\<lparr>of_heap := buffers s @ [snd (fb_IncRefCount f)],
        of_buffersByPath := (path_map s)(p \<mapsto> length (buffers s))\<rparr>) flags (length (buffers s)) w')
    (spec_open p flags st)"
    (is "represents _ _ _ _ _ ?s _")
proof -
  let ?b = "opened_bytes flags (st_files st p)"
  have all: "\<forall>p. path_represents c valid files writable s st p" using r by (simp add: represents_def)
  have u: "uses p st = 0" using all [THEN spec, of p] m by (simp add: path_represents_def)
  have st: "spec_open p flags st = st\<lparr>st_files := (st_files st)(p \<mapsto> ?b), st_handles := st_handles st @ [Some (p, flags)]\<rparr>"
    (is "_ = ?st") using assms(4) by (simp add: spec_open_def)
  have w: "valid (w_dev w')" "good_clock (w_clock w')" using f(1) by (simp_all add: holds_bytes_def)
  have k: "keeps_others files writable p (device s) (w_dev w')" using d by (simp add: keeps_others_def)
  have "path_represents c valid files writable ?s ?st q" for q
  proof (cases "q = p")
    case True
    have "shared_buffer c valid files writable w' (snd (fb_IncRefCount f)) ?st p"
      using f u by (auto simp: shared_buffer_def fb_IncRefCount_def Let_def holds_bytes_def fb_Contents_def fb_IsDirty_def)
    then show ?thesis using True by (simp add: path_represents_def)
  next
    case False
    show ?thesis
    proof (rule path_represents_other [OF all [THEN spec] False])
      fix a' assume "path_map s q = Some a'"
      then have "a' < length (buffers s)" using all [THEN spec, of q] by (simp add: path_represents_def)
      then show "a' < length (buffers ?s) \<and> buffers ?s ! a' = buffers s ! a'" by (simp add: nth_append)
    qed (use False w k in simp_all)
  qed
  moreover have "list_all2 (handle_represents ?s) (mt_files ?s) (st_handles ?st)"
  proof -
    have "list_all2 (handle_represents s) (mt_files s) (st_handles st)" using r by (simp add: represents_def)
    moreover have "path_map ?s q = Some a" if "path_map s q = Some a" for q a using that m by auto
    ultimately show ?thesis
      using handles_append [of s "mt_files s" "st_handles st" ?s "NewAdbFile flags (length (buffers s))" flags p]
      by (simp add: NewAdbFile_def)
  qed
  ultimately show ?thesis using r w d(2) unfolding st by (simp add: represents_def)
qed

text \<open>A change of the device that shows nowhere.\<close>

lemma represents_same_files:
  assumes r: "represents c valid files writable paths s st"
    and "valid d'" "files d' = files (device s)" "writable d' = writable (device s)"
  shows "represents c valid files writable paths
    (s\<lparr>mt_world := (mt_world s)\<lparr>w_dev := d'\<rparr>\<rparr>) st"
    (is "represents _ _ _ _ _ ?s _")
proof -
  have o: "mt_openFiles ?s = mt_openFiles s" by simp
  have w: "good_clock (w_clock (mt_world s))" using r by (simp add: represents_def)
  have b: "shared_buffer c valid files writable (mt_world ?s) b st p"
    if "shared_buffer c valid files writable (mt_world s) b st p" for b p
    using that assms(2-4) by (auto simp: shared_buffer_def holds_bytes_def)
  have "path_represents c valid files writable ?s st p" for p
  proof -
    have "path_represents c valid files writable s st p" using r by (simp add: represents_def)
    then show ?thesis using b assms(3) by (cases "path_map s p") (simp_all add: path_represents_def)
  qed
  moreover have "handle_represents ?s = handle_represents s" by (simp add: handle_represents_def o fun_eq_iff)
  ultimately show ?thesis using r assms(2-4) by (simp add: represents_def)
qed

end

context stat_device begin

lemma open_refines:
  assumes r: "represents c valid files writable paths s st" and ok: "allowed_open paths p flags st"
    and p: "p = convertClientPathToDevicePath (mt_fs s) name"
  shows "\<exists>s'. after_open s (fs_open_with u op name flags perms (mt_fs s) (mt_world s)) = Return s' \<and>
    represents c valid files writable paths s' (spec_open p flags st) \<and> fs_config (mt_fs s') = fs_config (mt_fs s)"
proof (cases "path_map s p")
  case (Some a)
  have ro: "\<not> cf_ReadOnly (fs_config (mt_fs s))" using r by (simp add: represents_def)
  have "GetOrLoad u p flags perms (StartOperation op p) (fs_openFiles (mt_fs s)) (mt_world s) =
      Return (Inr a, StartOperation op p, of_inc a (mt_openFiles s), mt_world s)"
    using Some by (simp add: GetOrLoad_open mt_openFiles_def)
  from fs_open_with_opened [OF this same_report_refl ro p] obtain l where
    "fs_open_with u op name flags perms (mt_fs s) (mt_world s) = Return ((Some (NewAdbFile flags a), fuseStatus OK), l,
      (mt_fs s)\<lparr>fs_openFiles := of_inc a (mt_openFiles s)\<rparr>, mt_world s)" by blast
  then have "after_open s (fs_open_with u op name flags perms (mt_fs s) (mt_world s)) =
      Return (opened s (of_inc a (mt_openFiles s)) flags a (mt_world s))"
    by (simp add: after_open_def opened_def)
  then show ?thesis using represents_share [OF r Some ok] by simp
next
  case None
  have ro: "\<not> cf_ReadOnly (fs_config (mt_fs s))" and fac: "of_ClientFactory (fs_openFiles (mt_fs s)) (device s) = (c, device s)"
    and pm: "path_represents c valid files writable s st p"
    and w: "valid (device s)" "writable (device s) p" "good_clock (w_clock (mt_world s))"
    using r ok by (simp_all add: represents_def allowed_open_def flip: mt_openFiles_def)
  have fi: "st_files st p = files (device s) p" using pm None by (simp add: path_represents_def)
  have nm: "of_buffersByPath (fs_openFiles (mt_fs s)) p = None" using None by (simp add: mt_openFiles_def)
  show ?thesis
  proof (cases "open_refused flags (st_files st p)")
    case True
    obtain e log' d' where n: "NewFileBuffer u flags p c (of_DirtyTimeout (fs_openFiles (mt_fs s))) perms True
        (StartOperation op p) (mt_world s) = Return (Inl e, log', (mt_world s)\<lparr>w_dev := d'\<rparr>)"
      "same_report (StartOperation op p) log'" "valid d'" "files d' = files (device s)" "writable d' = writable (device s)"
      using NewFileBuffer_refused [OF w(1,2) True [unfolded fi]] by blast
    have "GetOrLoad u p flags perms (StartOperation op p) (fs_openFiles (mt_fs s)) (mt_world s) =
        Return (Inl e, log', mt_openFiles s, (mt_world s)\<lparr>w_dev := d'\<rparr>)"
      using n(1) nm fac by (simp add: GetOrLoad_def mt_openFiles_def)
    from fs_open_with_error [OF this n(2) ro p] obtain t l where
      "fs_open_with u op name flags perms (mt_fs s) (mt_world s) = Return ((None, t), l,
        (mt_fs s)\<lparr>fs_openFiles := mt_openFiles s\<rparr>, (mt_world s)\<lparr>w_dev := d'\<rparr>)" by blast
    then have "after_open s (fs_open_with u op name flags perms (mt_fs s) (mt_world s)) =
        Return (s\<lparr>mt_world := (mt_world s)\<lparr>w_dev := d'\<rparr>\<rparr>)"
      by (simp add: after_open_def)
    then show ?thesis using represents_same_files [OF r n(3-5)] True by (simp add: spec_open_def)
  next
    case False
    obtain f log' w' where n: "NewFileBuffer u flags p c (of_DirtyTimeout (fs_openFiles (mt_fs s))) perms True
        (StartOperation op p) (mt_world s) = Return (Inr f, log', w')"
      "same_report (StartOperation op p) log'"
      and f: "holds f w' (opened_bytes flags (st_files st p))" "\<not> fb_IsDirty f" "fb_Path f = p"
      and d: "files (w_dev w') = (files (device s))(p \<mapsto> opened_bytes flags (st_files st p))"
        "writable (w_dev w') = writable (device s)"
      using NewFileBuffer_opened [OF w False [unfolded fi] refl] unfolding fi by blast
    let ?ofs = "(mt_openFiles s)\<lparr>of_heap := buffers s @ [snd (fb_IncRefCount f)],
        of_buffersByPath := (path_map s)(p \<mapsto> length (buffers s))\<rparr>"
    have "NewFileBuffer u flags p c (of_DirtyTimeout (fs_openFiles (mt_fs s))) perms True
        (StartOperation op p) ((mt_world s)\<lparr>w_dev := device s\<rparr>) = Return (Inr f, log', w')"
      using n(1) by simp
    from GetOrLoad_new [OF nm fac this] have
      "GetOrLoad u p flags perms (StartOperation op p) (fs_openFiles (mt_fs s)) (mt_world s) =
        Return (Inr (length (buffers s)), log', ?ofs, w')"
      by (simp add: mt_openFiles_def)
    from fs_open_with_opened [OF this n(2) ro p] obtain l where
      "fs_open_with u op name flags perms (mt_fs s) (mt_world s) =
        Return ((Some (NewAdbFile flags (length (buffers s))), fuseStatus OK), l, (mt_fs s)\<lparr>fs_openFiles := ?ofs\<rparr>, w')" by blast
    then have "after_open s (fs_open_with u op name flags perms (mt_fs s) (mt_world s)) =
        Return (opened s ?ofs flags (length (buffers s)) w')"
      by (simp add: after_open_def opened_def)
    moreover have "fb_has_handler f" using NewFileBuffer_fields(3) [OF n(1)] by simp
    ultimately show ?thesis
      using represents_fresh [OF r None ok False f _ NewFileBuffer_fields(2) [OF n(1)] d] by simp
  qed
qed

end

subsection \<open>Closing\<close>

lemma DecRefCount_counted:
  assumes "fb_refCount (of_heap ofs ! a) = int n" and "0 < n" and "int n < 2 ^ 31"
    and "fb_has_handler (of_heap ofs ! a)" and "a < length (of_heap ofs)"
  shows "of_DecRefCount a ofs = Return (int n - 1,
    ofs\<lparr>of_heap := (of_heap ofs)[a := (of_heap ofs ! a)\<lparr>fb_refCount := int n - 1\<rparr>],
      of_buffersByPath := (if n = 1 then (of_buffersByPath ofs)(fb_Path (of_heap ofs ! a) := None)
        else of_buffersByPath ofs)\<rparr>)"
proof -
  have "wrap32 (int n - 1) = int n - 1" using assms(2,3) by simp
  then show ?thesis
    using assms by (auto simp: of_DecRefCount_def fb_DecRefCount_def release_def fb_RefCount_def Let_def)
qed

context file_device begin

lemma release_handle:
  assumes r: "represents c valid files writable paths s st" and h: "handle h st = Some (p, flags)"
    and ok: "uses p st = 1 \<longrightarrow> p \<notin> st_unsaved st"
  shows "\<exists>s'. serve u (ReleaseReq h) s = Return s' \<and>
    represents c valid files writable paths s' (st\<lparr>st_handles := (st_handles st)[h := None]\<rparr>) \<and>
    fs_config (mt_fs s') = fs_config (mt_fs s)"
proof -
  let ?st = "st\<lparr>st_handles := (st_handles st)[h := None]\<rparr>"
  obtain f where f: "mt_files s ! h = Some f" "path_map s p = Some (af_FileBuffer f)"
    "shared_buffer c valid files writable (mt_world s) (mt_buffer s f) st p"
    using handle_open(2) [OF r h] by blast
  let ?a = "af_FileBuffer f"
  have all: "\<forall>p. path_represents c valid files writable s st p" using r by (simp add: represents_def)
  have a: "?a < length (buffers s)" using all [THEN spec, of p] f(2) by (simp add: path_represents_def)
  have hl: "h < length (st_handles st)" using h by (simp add: handle_def split: if_splits)
  then have hf: "h < length (mt_files s)" using handle_open(1) [OF r] by simp
  have b: "fb_refCount (buffers s ! ?a) = int (uses p st)" "0 < uses p st" "int (uses p st) < 2 ^ 31"
    "fb_has_handler (buffers s ! ?a)" "fb_Path (buffers s ! ?a) = p"
    using f(3) by (simp_all add: shared_buffer_def mt_buffer_def)
  define b' where "b' = (buffers s ! ?a)\<lparr>fb_refCount := int (uses p st) - 1\<rparr>"
  define ofs where "ofs = (mt_openFiles s)\<lparr>of_heap := (buffers s)[?a := b'],
      of_buffersByPath := (if uses p st = 1 then (path_map s)(p := None) else path_map s)\<rparr>"
  define s' where "s' = (set_openFiles ofs s)\<lparr>mt_files := (mt_files s)[h := None]\<rparr>"
  have "of_DecRefCount ?a (mt_openFiles s) = Return (int (uses p st) - 1, ofs)"
    using DecRefCount_counted [OF b(1-4) a] b(5) by (simp add: ofs_def b'_def)
  then have sv: "serve u (ReleaseReq h) s = Return s'"
    using hf f(1) by (simp add: for_file_def af_Release_def s'_def)
  have s': "mt_openFiles s' = ofs" "mt_world s' = mt_world s" "mt_files s' = (mt_files s)[h := None]"
    "fs_config (mt_fs s') = fs_config (mt_fs s)"
    by (simp_all add: s'_def)
  have u: "uses q ?st + (if q = p then 1 else 0) = uses q st" for q by (rule uses_release [OF h])
  have w: "valid (device s)" "good_clock (w_clock (mt_world s))" using r by (simp_all add: represents_def)
  have paths: "path_represents c valid files writable s' ?st q" for q
  proof (cases "q = p")
    case True
    show ?thesis
    proof (cases "uses p st = 1")
      case one: True
      then have "files (device s) p = st_files st p"
        using f(3) ok by (auto simp: shared_buffer_def holds_bytes_def)
      moreover have "uses p ?st = 0" using u [of p] one by simp
      ultimately show ?thesis using True one s' by (simp add: path_represents_def ofs_def)
    next
      case False
      have "shared_buffer c valid files writable (mt_world s) b' ?st p"
        using f(3) u [of p] False b(2)
        by (auto simp: shared_buffer_def b'_def mt_buffer_def holds_bytes_def fb_Contents_def fb_IsDirty_def)
      then show ?thesis using True False s' f(2) a by (simp add: path_represents_def ofs_def)
    qed
  next
    case False
    show ?thesis
    proof (rule path_represents_other [OF all [THEN spec] False])
      fix a' assume a': "path_map s q = Some a'"
      then have "a' < length (buffers s)" using all [THEN spec, of q] by (simp add: path_represents_def)
      then show "a' < length (buffers s') \<and> buffers s' ! a' = buffers s ! a'"
        using path_represents_distinct [OF all f(2) a' False] s' by (simp add: ofs_def)
    qed (use False w s' u [of q] in \<open>simp_all add: ofs_def\<close>)
  qed
  have "list_all2 (handle_represents s') (mt_files s') (st_handles ?st)"
  proof (rule list_all2_all_nthI)
    show "length (mt_files s') = length (st_handles ?st)" using handle_open(1) [OF r] s' by simp
    fix i assume i: "i < length (mt_files s')"
    show "handle_represents s' (mt_files s' ! i) (st_handles ?st ! i)"
    proof (cases "i = h")
      case True
      then show ?thesis using i s' handle_open(1) [OF r] by (simp add: handle_represents_def)
    next
      case False
      have i': "i < length (mt_files s)" using i s' by simp
      have "handle_represents s (mt_files s ! i) (st_handles st ! i)"
        using r i' by (auto simp: represents_def dest: list_all2_nthD)
      moreover have "q \<noteq> p" if "uses p st = 1" "st_handles st ! i = Some (q, fl)" for q fl
        using uses_handle [of p ?st i q fl] u [of p] that i' handle_open(1) [OF r] False by simp
      ultimately show ?thesis
        using False s' by (cases "st_handles st ! i") (auto simp: handle_represents_def ofs_def option_rel_Some2)
    qed
  qed
  then have "represents c valid files writable paths s' ?st"
    using r paths s' by (simp add: represents_def ofs_def)
  then show ?thesis using sv s'(4) by blast
qed

lemma release_refines:
  assumes r: "represents c valid files writable paths s st" and "allowed_request resolve paths (ReleaseReq h) st"
  shows "\<exists>s'. serve u (ReleaseReq h) s = Return s' \<and>
    represents c valid files writable paths s' (spec_request resolve (ReleaseReq h) st) \<and>
    fs_config (mt_fs s') = fs_config (mt_fs s)"
proof (cases "handle h st")
  case None
  then have "h < length (mt_files s) \<longrightarrow> mt_files s ! h = None" using handle_open(3) [OF r] by blast
  then have "serve u (ReleaseReq h) s = Return s" by (simp add: for_file_def)
  moreover have "spec_request resolve (ReleaseReq h) st = st"
    using None list_update_id [of "st_handles st" h] by (cases st) (auto simp: handle_def list_update_same_conv split: if_splits)
  ultimately show ?thesis using r by simp
next
  case (Some pf)
  then obtain p flags where h: "handle h st = Some (p, flags)" by (cases pf) simp
  then have "h < length (st_handles st)" by (simp add: handle_def split: if_splits)
  then show ?thesis using release_handle [OF r h, of u] assms(2) h by simp
qed

end

subsection \<open>Sessions\<close>

context stat_device begin

lemma request_refines:
  assumes r: "represents c valid files writable paths s st"
    and ok: "allowed_request (convertClientPathToDevicePath (mt_fs s)) paths q st"
  shows "\<exists>s'. serve u q s = Return s' \<and>
    represents c valid files writable paths s' (spec_request (convertClientPathToDevicePath (mt_fs s)) q st) \<and>
    fs_config (mt_fs s') = fs_config (mt_fs s)"
proof -
  have plain: ?thesis if "\<forall>resolve. spec_request resolve q st = spec_file_request q st" "allowed_file_request q st"
    using file_request_refines [OF r that(2), of u] that(1) by simp
  show ?thesis
  proof (cases q)
    case (OpenReq name flags)
    then show ?thesis using open_refines [OF r _ refl, of name flags "''Open''" DontSetPerms] ok by (simp add: fs_Open_def)
  next
    case (CreateReq name raw perms)
    then show ?thesis
      using open_refines [OF r _ refl, of name "create_flags raw" "''Create''" perms] ok by (simp add: fs_Create_def)
  next
    case (ReleaseReq h)
    then show ?thesis using release_refines [OF r, of _ h u] ok by blast
  qed (use ok plain in \<open>simp_all add: allowed_file_request_def\<close>)
qed

lemma session_refines:
  assumes "represents c valid files writable paths s st"
    and "allowed_session (convertClientPathToDevicePath (mt_fs s)) paths rs st"
  shows "\<exists>s'. serve_all u rs s = Return s' \<and>
    represents c valid files writable paths s' (spec_requests (convertClientPathToDevicePath (mt_fs s)) rs st)"
  using assms
proof (induction rs arbitrary: s st)
  case (Cons q rs)
  let ?resolve = "convertClientPathToDevicePath (mt_fs s)"
  obtain s1 where s1: "serve u q s = Return s1" "represents c valid files writable paths s1 (spec_request ?resolve q st)"
    "fs_config (mt_fs s1) = fs_config (mt_fs s)"
    using request_refines [OF Cons.prems(1), of q] Cons.prems(2) by auto
  have "convertClientPathToDevicePath (mt_fs s1) = ?resolve"
    using s1(3) by (simp add: convertClientPathToDevicePath_def fun_eq_iff)
  with Cons.IH [OF s1(2)] Cons.prems(2) s1(1) show ?case by simp
qed simp

text \<open>What a represented store says about the device and the open files.\<close>

lemma represents_device:
  assumes "represents c valid files writable paths s st" and "uses p st = 0"
  shows "files (device s) p = st_files st p"
proof -
  have "path_represents c valid files writable s st p" using assms(1) by (simp add: represents_def)
  then show ?thesis
    using assms(2) by (cases "path_map s p") (simp_all add: path_represents_def shared_buffer_def)
qed

lemma represents_handle:
  assumes "represents c valid files writable paths s st" and "handle h st = Some (p, flags)"
  shows "\<exists>f bytes. mt_files s ! h = Some f \<and> af_Flags f = flags \<and> st_files st p = Some bytes \<and>
    fb_Contents (mt_buffer s f) = bytes \<and> wf_slice (fb_buffer (mt_buffer s f)) \<and>
    (p \<notin> st_unsaved st \<longrightarrow> files (device s) p = Some bytes)"
  using handle_open(2) [OF assms] by (auto simp: shared_buffer_def holds_bytes_def)

end

text \<open>A file system that was just mounted represents the files of the device.\<close>

lemma mounted_represents:
  assumes "fs_openFiles fs = NewOpenFiles (\<lambda>d. (c, d)) t" and "\<not> cf_ReadOnly (fs_config fs)"
    and "valid d" and "good_clock k" and "\<forall>p \<in> paths. writable d p"
  shows "represents c valid files writable paths
    \<lparr>mt_fs = fs, mt_files = [], mt_world = \<lparr>w_dev = d, w_clock = k\<rparr>\<rparr>
    \<lparr>st_files = files d, st_unsaved = {}, st_handles = []\<rparr>"
  using assms
  by (simp add: represents_def path_represents_def mt_openFiles_def NewOpenFiles_def uses_def)

end
