(* ===== verification/Client_Pool.thy ===== *)
theory Client_Pool
  imports Filesystem_Handlers
begin

text \<open>
  The client pool under concurrent requests: goroutines that take a client, hold it while
  their handler runs and put it back, in any interleaving. A goroutine whose channel operation
  is \<^term>\<open>Blocked\<close> waits.
\<close>

inductive pool_step ::
  "('d, 'x) filesystem \<times> ('d, 'x) device_client list \<Rightarrow>
   ('d, 'x) filesystem \<times> ('d, 'x) device_client list \<Rightarrow> bool" where
  take_client: "getQuickUseClient fs = Return (c, fs') \<Longrightarrow> pool_step (fs, held) (fs', c # held)"
| put_client: "i < length held \<Longrightarrow> recycleQuickUseClient (held ! i) fs = Return fs' \<Longrightarrow>
    pool_step (fs, held) (fs', take i held @ drop (Suc i) held)"

inductive_cases pool_stepE: "pool_step s s'"

inductive pool_reachable ::
  "('d, 'x) filesystem \<Rightarrow> ('d, 'x) filesystem \<times> ('d, 'x) device_client list \<Rightarrow> bool"
  for fs0 :: "('d, 'x) filesystem" where
  pool_init: "pool_reachable fs0 (fs0, [])"
| pool_next: "pool_reachable fs0 s \<Longrightarrow> pool_step s s' \<Longrightarrow> pool_reachable fs0 s'"

text \<open>Clients are neither made nor lost: the pool and the holders have as many as at the start.\<close>

definition pool_total :: "('d, 'x) filesystem \<times> ('d, 'x) device_client list \<Rightarrow> nat" where
  "pool_total s = length (fs_pool (fst s)) + length (snd s)"

lemma pool_step_total:
  "pool_step s s' \<Longrightarrow> pool_total s' = pool_total s \<and> fs_config (fst s') = fs_config (fst s)"
  by (induction rule: pool_step.induct)
    (auto simp: pool_total_def getQuickUseClient_def recycleQuickUseClient_def
      split: list.splits if_splits)

lemma pool_reachable_total:
  "pool_reachable fs0 s \<Longrightarrow>
   pool_total s = length (fs_pool fs0) \<and> fs_config (fst s) = fs_config fs0"
proof (induction rule: pool_reachable.induct)
  case pool_init
  then show ?case by (simp add: pool_total_def)
next
  case (pool_next s s')
  then show ?case using pool_step_total [of s s'] by simp
qed

lemma pool_single:
  assumes "pool_ready fs0" and "pool_reachable fs0 s"
  shows "length (snd s) \<le> 1"
    and "snd s = [] \<or> getQuickUseClient (fst s) = Blocked"
    and "snd s = [] \<longrightarrow> pool_ready (fst s)"
proof -
  have t: "length (fs_pool (fst s)) + length (snd s) = 1" "fs_config (fst s) = fs_config fs0"
    using pool_reachable_total [OF assms(2)] assms(1) by (simp_all add: pool_total_def pool_ready_def)
  then show "length (snd s) \<le> 1" by simp
  show "snd s = [] \<or> getQuickUseClient (fst s) = Blocked"
  proof (cases "snd s")
    case (Cons c cs)
    then have "fs_pool (fst s) = []" using t(1) by simp
    then show ?thesis by (simp add: getQuickUseClient_def)
  qed simp
  show "snd s = [] \<longrightarrow> pool_ready (fst s)"
    using t assms(1) by (auto simp: pool_ready_def)
qed

text \<open>Putting a client back never blocks.\<close>

lemma pool_put_Return:
  assumes "pool_ready fs0" and "pool_reachable fs0 (fs, held)" and "held \<noteq> []"
  shows "recycleQuickUseClient c fs = Return (fs\<lparr>fs_pool := [c]\<rparr>)"
proof -
  have t: "length (fs_pool fs) + length held = 1" "fs_config fs = fs_config fs0"
    using pool_reachable_total [OF assms(2)] assms(1) by (simp_all add: pool_total_def pool_ready_def)
  then have "fs_pool fs = []" using assms(3) by (cases held) simp_all
  then show ?thesis using t assms(1) by (simp add: recycleQuickUseClient_def pool_ready_def)
qed

end
