(* ===== verification/Open_Files_Sharing.thy ===== *)
theory Open_Files_Sharing
  imports Open_Files Reference_Device
begin

text \<open>
  When all open files of a path share one buffer: whenever an open of the path waits for the
  releases of it that are pending. The code does not wait, and an interleaving in which a late
  \<open>release\<close> drops the map entry of a newer buffer is run at the end.
\<close>

definition exclusive :: "('d, 'x) machine \<Rightarrow> bool" where
  "exclusive s \<longleftrightarrow>
     (\<forall>a \<in># ms_handles s + ms_pending s. ms_paths s (fb_Path (ms_buffer s a)) = Some a) \<and>
     (\<forall>a \<in># ms_pending s. a \<notin># ms_handles s \<and> count (ms_pending s) a = 1)"

lemma exclusiveD:
  assumes "exclusive s"
  shows "a \<in># ms_handles s \<Longrightarrow> ms_paths s (fb_Path (ms_buffer s a)) = Some a"
    and "a \<in># ms_pending s \<Longrightarrow> ms_paths s (fb_Path (ms_buffer s a)) = Some a"
    and "a \<in># ms_pending s \<Longrightarrow> a \<notin># ms_handles s"
    and "a \<in># ms_pending s \<Longrightarrow> count (ms_pending s) a = 1"
  using assms by (auto simp: exclusive_def)

lemma exclusive_open:
  assumes "counted s" and "mapped s" and "exclusive s"
    and "GetOrLoad u p flags perms log (ms_files s) w = Return (Inr a, log', fs', w')"
    and "\<forall>b \<in># ms_pending s. fb_Path (ms_buffer s b) \<noteq> p"
  shows "exclusive (s\<lparr>ms_files := fs', ms_handles := add_mset a (ms_handles s)\<rparr>)"
  using assms(4)
proof (cases rule: GetOrLoad_cases)
  case shared
  have a: "a < length (of_heap (ms_files s))" "fb_Path (ms_buffer s a) = p"
    using assms(2) shared(1) by (simp_all add: mapped_def)
  have path: "fb_Path (of_heap fs' ! b) = fb_Path (ms_buffer s b)" for b
    using a(1) shared(2) by (simp add: of_inc_def nth_list_update fb_IncRefCount_def Let_def)
  have paths: "of_buffersByPath fs' = ms_paths s" by (simp add: shared(2) of_inc_def)
  show ?thesis
    using assms(3,5) a(2) shared(1) unfolding exclusive_def by (auto simp: path paths)
next
  case (fresh f)
  have path: "fb_Path (of_heap fs' ! b) = (if b = a then p else fb_Path (ms_buffer s b))"
    if "b \<le> length (of_heap (ms_files s))" for b
    using that fresh(2,3,6) by (auto simp: nth_append fb_IncRefCount_def Let_def)
  have old: "b < length (of_heap (ms_files s)) \<and> b \<noteq> a" if "b \<in># ms_handles s + ms_pending s" for b
    using counted_valid [OF assms(1), of b] that fresh(2) by auto
  have other: "fb_Path (ms_buffer s b) \<noteq> p" if "b \<in># ms_handles s + ms_pending s" for b
    using exclusiveD(1,2) [OF assms(3), of b] that fresh(1) by auto
  show ?thesis
    unfolding exclusive_def
  proof (intro conjI ballI)
    fix b
    assume b: "b \<in># ms_handles (s\<lparr>ms_files := fs', ms_handles := add_mset a (ms_handles s)\<rparr>) +
      ms_pending (s\<lparr>ms_files := fs', ms_handles := add_mset a (ms_handles s)\<rparr>)"
    show "ms_paths (s\<lparr>ms_files := fs', ms_handles := add_mset a (ms_handles s)\<rparr>)
        (fb_Path (ms_buffer (s\<lparr>ms_files := fs', ms_handles := add_mset a (ms_handles s)\<rparr>) b)) = Some b"
    proof (cases "b = a")
      case True
      then show ?thesis using path [of a] fresh(2,6) by simp
    next
      case False
      then have "b \<in># ms_handles s + ms_pending s" using b by auto
      then show ?thesis
        using path [of b] old [of b] other [of b] exclusiveD(1,2) [OF assms(3), of b] fresh(6) by auto
    qed
  next
    fix b
    assume "b \<in># ms_pending (s\<lparr>ms_files := fs', ms_handles := add_mset a (ms_handles s)\<rparr>)"
    then show "b \<notin># ms_handles (s\<lparr>ms_files := fs', ms_handles := add_mset a (ms_handles s)\<rparr>)"
      and "count (ms_pending (s\<lparr>ms_files := fs', ms_handles := add_mset a (ms_handles s)\<rparr>)) b = 1"
      using exclusiveD(3,4) [OF assms(3), of b] old [of b] by auto
  qed
qed

lemma exclusive_use:
  assumes "exclusive s" and "same_file (ms_buffer s a) f" and "a < length (of_heap (ms_files s))"
  shows "exclusive (s\<lparr>ms_files := (ms_files s)\<lparr>of_heap := (of_heap (ms_files s))[a := f]\<rparr>\<rparr>)"
proof -
  have "fb_Path ((of_heap (ms_files s))[a := f] ! b) = fb_Path (ms_buffer s b)" for b
    using same_file_fields(1) [OF assms(2)] assms(3) by (simp add: nth_list_update)
  then show ?thesis using assms(1) by (simp add: exclusive_def)
qed

lemma exclusive_decrement:
  assumes "counted s" and "exclusive s" and "a \<in># ms_handles s"
    and "fb_DecRefCount (ms_buffer s a) = Return (n, call, f)"
  shows "exclusive (s\<lparr>ms_files := (ms_files s)\<lparr>of_heap := (of_heap (ms_files s))[a := f]\<rparr>,
         ms_handles := ms_handles s - {#a#},
         ms_pending := (if call then add_mset a (ms_pending s) else ms_pending s)\<rparr>)"
proof -
  have f: "f = ms_buffer s a\<lparr>fb_refCount := int (count (ms_handles s) a - 1)\<rparr>"
    "call \<longleftrightarrow> count (ms_handles s) a = 1"
    using decrement_Return [OF assms(1,3)] assms(4) by auto
  have a: "a < length (of_heap (ms_files s))" using assms(1,3) by (rule counted_valid)
  have path: "fb_Path ((of_heap (ms_files s))[a := f] ! b) = fb_Path (ms_buffer s b)" for b
    using a f(1) by (simp add: nth_list_update)
  have np: "a \<notin># ms_pending s" using exclusiveD(3) [OF assms(2)] assms(3) by blast
  have gone: "a \<notin># ms_handles s - {#a#}" if call
    using that f(2) by (simp add: in_diff_count)
  show ?thesis
    using assms(2,3) np gone unfolding exclusive_def
    by (auto simp: path not_in_iff dest: in_diffD)
qed

lemma exclusive_release:
  assumes "counted s" and "exclusive s" and "a \<in># ms_pending s"
  shows "exclusive (s\<lparr>ms_files := release a (ms_files s), ms_pending := ms_pending s - {#a#}\<rparr>)"
proof -
  have a: "a < length (of_heap (ms_files s))" using assms(1,3) by (rule counted_valid)
  note ex = exclusiveD [OF assms(2)]
  have "fb_RefCount (ms_buffer s a) = 0"
    using countedD(1) [OF assms(1) a] ex(3) [OF assms(3)] by (simp add: fb_RefCount_def not_in_iff)
  then have r: "of_buffersByPath (release a (ms_files s)) = (ms_paths s)(fb_Path (ms_buffer s a) := None)"
    by (simp add: release_def)
  have gone: "a \<notin># ms_pending s - {#a#}" using ex(4) [OF assms(3)] by (simp add: in_diff_count)
  have other: "fb_Path (ms_buffer s b) \<noteq> fb_Path (ms_buffer s a)"
    if "b \<noteq> a" "b \<in># ms_handles s + ms_pending s" for b
    using that ex(1,2) [of b] ex(2) [OF assms(3)] by auto
  have "ms_paths s (fb_Path (ms_buffer s b)) = Some b \<and> fb_Path (ms_buffer s b) \<noteq> fb_Path (ms_buffer s a)"
    if "b \<in># ms_handles s + (ms_pending s - {#a#})" for b
  proof -
    have "b \<noteq> a" and "b \<in># ms_handles s + ms_pending s"
      using that gone ex(3) [OF assms(3)] by (auto dest: in_diffD)
    then show ?thesis using other ex(1,2) [of b] by auto
  qed
  moreover have "b \<notin># ms_handles s \<and> count (ms_pending s - {#a#}) b = 1"
    if "b \<in># ms_pending s - {#a#}" for b
    using that ex(3,4) [of b] gone by (auto dest: in_diffD)
  ultimately show ?thesis by (simp add: exclusive_def r)
qed

lemma reachable_exclusive: "reachable u True s \<Longrightarrow> exclusive s"
proof (induction rule: reachable.induct)
  case (init factory timeout)
  then show ?case by (simp add: exclusive_def machine_init_def)
next
  case (next_step s s')
  have c: "counted s" "mapped s" using reachable_counted [OF next_step.hyps(1)] by simp_all
  from next_step.hyps(2) show ?case
  proof cases
    case (open_ok p flags perms log w a log' fs' w')
    then show ?thesis using exclusive_open [OF c next_step.IH] by simp
  next
    case (use_file a f)
    then show ?thesis using exclusive_use [OF next_step.IH] counted_valid(1) [OF c(1)] by simp
  next
    case (decrement a n call f)
    then show ?thesis using exclusive_decrement [OF c(1) next_step.IH] by simp
  next
    case (run_release a)
    then show ?thesis using exclusive_release [OF c(1) next_step.IH] by simp
  qed
qed

subsection \<open>A late release\<close>

text \<open>Opening a file of the reference device that no buffer holds.\<close>

definition mem_open_files :: "(string \<Rightarrow> nat option) \<Rightarrow> (mem, ref_error) file_buffer list \<Rightarrow> (mem, ref_error) open_files" where
  "mem_open_files m h =
     (NewOpenFiles (\<lambda>d. (mem_client, d)) 0)\<lparr>of_buffersByPath := m, of_heap := h\<rparr>"

lemma mem_open_files_simps [simp]:
  "of_buffersByPath (mem_open_files m h) = m" "of_heap (mem_open_files m h) = h"
  "(mem_open_files m h)\<lparr>of_heap := h'\<rparr> = mem_open_files m h'"
  "(mem_open_files m h)\<lparr>of_buffersByPath := m'\<rparr> = mem_open_files m' h"
  by (simp_all add: mem_open_files_def)

definition race_buffer :: "string \<Rightarrow> byte list \<Rightarrow> mode \<Rightarrow> int \<Rightarrow> (mem, ref_error) file_buffer" where
  "race_buffer p b m n =
     (new_buffer p mem_client DefaultDirtyTimeout (Perm m) True)
       \<lparr>fb_buffer := \<lparr>backing = b, used = length b\<rparr>, fb_refCount := n\<rparr>"

lemma GetOrLoad_mem:
  assumes "M p = None" and "m_nodes (w_dev w) p = Some (FileNode b m)"
  shows "GetOrLoad ref_util p O_RDONLY 0 log (mem_open_files M h) w =
    Return (Inr (length h), log, mem_open_files (M(p \<mapsto> length h)) (h @ [race_buffer p b m 1]), w)"
proof -
  have st: "Stat mem_client p log (w_dev w) = (Inr (node_entry p (FileNode b m)), log, w_dev w)"
    using assms(2) by (simp add: mem_Stat_def)
  have fl: "flag_requires_write O_RDONLY \<longrightarrow> CanWrite O_RDONLY" "\<not> Contains O_RDONLY O_TRUNC"
    by (simp_all add: flag_requires_write_def Contains_def flag_defs)
  have "NewFileBuffer ref_util O_RDONLY p mem_client DefaultDirtyTimeout 0 True log w =
    Return (Inr (race_buffer p b m 0), log, w)"
    using assms(2) fl(2)
    by (simp add: NewFileBuffer_found [OF fl(1) st] initialize_with_new)
      (simp add: fb_Sync_def loadFromDevice_def race_buffer_def new_buffer_def effective_perms_def
        DontSetPerms_def mem_OpenRead_def gbs_read_from_def Let_def)
  moreover have "of_ClientFactory (mem_open_files M h) d = (mem_client, d)" for d
    by (simp add: mem_open_files_def NewOpenFiles_def)
  moreover have "of_DirtyTimeout (mem_open_files M h) = DefaultDirtyTimeout"
    by (simp add: mem_open_files_def NewOpenFiles_def)
  moreover have "snd (fb_IncRefCount (race_buffer p b m 0)) = race_buffer p b m 1"
    by (simp add: race_buffer_def fb_IncRefCount_def Let_def)
  ultimately show ?thesis
    using GetOrLoad_new [of "mem_open_files M h" p w mem_client "w_dev w" ref_util O_RDONLY 0 log] assms(1)
    by simp
qed

lemma race_buffer_count:
  "fb_DecRefCount (race_buffer p b m 1) = Return (0, True, race_buffer p b m 0)"
  "snd (fb_IncRefCount (race_buffer p b m 0)) = race_buffer p b m 1"
  "fb_RefCount (race_buffer p b m n) = n" "fb_Path (race_buffer p b m n) = p"
  by (simp_all add: race_buffer_def new_buffer_def fb_DecRefCount_def fb_IncRefCount_def fb_RefCount_def Let_def)

abbreviation mem_state where
  "mem_state m h hs ps \<equiv> \<lparr>ms_files = mem_open_files m h, ms_handles = hs, ms_pending = ps\<rparr>"

text \<open>The steps of the interleaving, each over any state of the reference device's files.\<close>

lemma race_open_new:
  assumes "reachable ref_util waits (mem_state M h hs ps)" and "M p = None" and "size hs < max_handles"
    and "waits \<longrightarrow> ps = {#}"
  shows "reachable ref_util waits
    (mem_state (M(p \<mapsto> length h)) (h @ [race_buffer p b m 1]) (add_mset (length h) hs) ps)"
proof -
  define w :: "mem world" where "w = \<lparr>w_dev = \<lparr>m_nodes = [p \<mapsto> FileNode b m], m_open = \<lambda>_. None, m_next = 0\<rparr>,
    w_clock = \<lparr>readings = \<lambda>n. 1, ticks = 0\<rparr>\<rparr>"
  have "GetOrLoad ref_util p O_RDONLY 0 (StartOperation ''Open'' p) (mem_open_files M h) w =
    Return (Inr (length h), StartOperation ''Open'' p,
      mem_open_files (M(p \<mapsto> length h)) (h @ [race_buffer p b m 1]), w)"
    by (rule GetOrLoad_mem) (simp_all add: assms(2) w_def)
  then show ?thesis
    using next_step [OF assms(1) open_ok] assms(3,4) by fastforce
qed

lemma race_open_shared:
  assumes "reachable ref_util waits (mem_state M h hs ps)" and "M p = Some a"
    and "h ! a = race_buffer p b m 0" and "size hs < max_handles" and "waits \<longrightarrow> ps = {#}"
  shows "reachable ref_util waits (mem_state M (h[a := race_buffer p b m 1]) (add_mset a hs) ps)"
proof -
  have "GetOrLoad ref_util p O_RDONLY 0 (StartOperation ''Open'' p) (mem_open_files M h) w =
    Return (Inr a, StartOperation ''Open'' p, mem_open_files M (h[a := race_buffer p b m 1]), w)"
    for w :: "mem world"
    using assms(2,3) by (simp add: GetOrLoad_open of_inc_def race_buffer_count)
  then show ?thesis
    using next_step [OF assms(1) open_ok] assms(4,5) by fastforce
qed

lemma race_decrement:
  assumes "reachable ref_util waits (mem_state M h (add_mset a hs) ps)" and "h ! a = race_buffer p b m 1"
  shows "reachable ref_util waits (mem_state M (h[a := race_buffer p b m 0]) hs (add_mset a ps))"
  using next_step [OF assms(1) decrement [of a]] assms(2) race_buffer_count(1) [of p b m] by simp

lemma race_release:
  assumes "reachable ref_util waits (mem_state M h hs (add_mset a ps))" and "h ! a = race_buffer p b m 0"
  shows "reachable ref_util waits (mem_state (M(p := None)) h hs ps)"
  using next_step [OF assms(1) run_release [of a]] assms(2) by (simp add: release_def race_buffer_count)

text \<open>
  Two closes of one buffer leave two pending releases; the first drops the map entry, a new
  open maps a new buffer, and the second release drops that entry.
\<close>

lemma race_trace:
  fixes p b m
  defines "B \<equiv> race_buffer p b m"
  shows "reachable ref_util False
    (mem_state [p \<mapsto> 2] [B 0, B 1, B 1] {#2, 1#} {#})"
proof -
  have sz: "0 < max_handles" "1 < max_handles" by (simp_all add: max_handles_def)
  have "reachable ref_util False (mem_state Map.empty [] {#} {#})"
    using init [of ref_util False "\<lambda>d. (mem_client, d)" 0]
    by (simp add: machine_init_def mem_open_files_def NewOpenFiles_def)
  from race_open_new [OF this, of p b m]
  have "reachable ref_util False (mem_state [p \<mapsto> 0] [B 1] {#0#} {#})" using sz by (simp add: B_def)
  from race_decrement [OF this]
  have "reachable ref_util False (mem_state [p \<mapsto> 0] [B 0] {#} {#0#})" by (simp add: B_def)
  from race_open_shared [OF this, of p]
  have "reachable ref_util False (mem_state [p \<mapsto> 0] [B 1] {#0#} {#0#})" using sz by (simp add: B_def)
  from race_decrement [OF this]
  have "reachable ref_util False (mem_state [p \<mapsto> 0] [B 0] {#} {#0, 0#})" by (simp add: B_def)
  from race_release [OF this, of p b m]
  have "reachable ref_util False (mem_state Map.empty [B 0] {#} {#0#})" by (simp add: B_def)
  from race_open_new [OF this, of p b m]
  have "reachable ref_util False (mem_state [p \<mapsto> 1] [B 0, B 1] {#1#} {#0#})" using sz by (simp add: B_def)
  from race_release [OF this, of p b m]
  have "reachable ref_util False (mem_state Map.empty [B 0, B 1] {#1#} {#})" by (simp add: B_def)
  from race_open_new [OF this, of p b m]
  show ?thesis using sz by (simp add: B_def numeral_2_eq_2)
qed

text \<open>Two opens of one path share the buffer, also when opens wait.\<close>

lemma shared_trace:
  fixes p b m
  defines "B \<equiv> race_buffer p b m"
  shows "reachable ref_util waits (mem_state [p \<mapsto> 0] [B 2] {#0, 0#} {#})"
proof -
  have sz: "0 < max_handles" "1 < max_handles" by (simp_all add: max_handles_def)
  have "reachable ref_util waits (mem_state Map.empty [] {#} {#})"
    using init [of ref_util waits "\<lambda>d. (mem_client, d)" 0]
    by (simp add: machine_init_def mem_open_files_def NewOpenFiles_def)
  from race_open_new [OF this, of p b m]
  have 1: "reachable ref_util waits (mem_state [p \<mapsto> 0] [B 1] {#0#} {#})" using sz by (simp add: B_def)
  have "GetOrLoad ref_util p O_RDONLY 0 (StartOperation ''Open'' p) (mem_open_files [p \<mapsto> 0] [B 1]) w =
    Return (Inr 0, StartOperation ''Open'' p, mem_open_files [p \<mapsto> 0] [B 2], w)"
    for w :: "mem world"
    by (simp add: GetOrLoad_open of_inc_def B_def race_buffer_def fb_IncRefCount_def Let_def)
  then show ?thesis using next_step [OF 1 open_ok] sz by fastforce
qed

end
