(* ===== verification/Mountpoint.thy ===== *)
theory Mountpoint
  imports Go_Path
begin

text \<open>
  The directories of the host: \<open>internal/cli/mountpoint.go\<close>, \<open>internal/cli/paths.go\<close> and
  \<open>checkValidMountpoint\<close> of \<open>cmd/adbfs/main.go\<close>. The operating system is a record of the
  calls the code makes, over the state \<open>'h\<close> of the host.
\<close>

text \<open>The errors of package \<open>os\<close>: the sentinel \<open>os.ErrNotExist\<close>, or a \<open>*PathError\<close>.\<close>

datatype host_error = ErrNotExist | PathError string string "64 word" | HostErrorText string

record 'h host =
  os_Stat :: "string \<Rightarrow> 'h \<Rightarrow> host_error + bool"
  os_Mkdir :: "string \<Rightarrow> 32 word \<Rightarrow> 'h \<Rightarrow> host_error option \<times> 'h"
  os_Remove :: "string \<Rightarrow> 'h \<Rightarrow> host_error option \<times> 'h"

record device_info =
  di_Serial :: string
  di_Model :: string

subsection \<open>Directory names\<close>

text \<open>
  The pattern \<open>[^-[:alnum:]]+\<close>: runs of bytes other than ASCII letters, digits and the minus
  sign. Compiled as POSIX, a negated class does not match a line break.
\<close>

definition is_alnum :: "char \<Rightarrow> bool" where
  "is_alnum c \<longleftrightarrow>
     (let n = of_char c :: nat in (48 \<le> n \<and> n \<le> 57) \<or> (65 \<le> n \<and> n \<le> 90) \<or> (97 \<le> n \<and> n \<le> 122))"

definition is_special :: "char \<Rightarrow> bool" where
  "is_special c \<longleftrightarrow> \<not> is_alnum c \<and> c \<noteq> CHR ''-'' \<and> c \<noteq> CHR 0x0A"

text \<open>\<open>in_run\<close> says that the byte before was special, so that its run has its underscore.\<close>

fun clean_name :: "bool \<Rightarrow> string \<Rightarrow> string" where
  "clean_name in_run [] = []"
| "clean_name in_run (c # cs) =
     (if is_special c then (if in_run then clean_name True cs else CHR ''_'' # clean_name True cs)
      else c # clean_name False cs)"

definition buildDirNameForDevice :: "device_info \<Rightarrow> string" where
  "buildDirNameForDevice info = clean_name False (di_Model info @ ''-'' @ di_Serial info)"

definition MountpointPerm :: "32 word" where
  "MountpointPerm = 0x1C0"

text \<open>\<open>doesFileExist\<close> compares the error of \<open>os.Stat\<close> with the sentinel.\<close>

definition doesFileExist :: "'h host \<Rightarrow> string \<Rightarrow> 'h \<Rightarrow> bool" where
  "doesFileExist os path h \<longleftrightarrow> (case os_Stat os path h of Inl err \<Rightarrow> err = ErrNotExist | Inr _ \<Rightarrow> False)"

definition NewMountpointForDevice ::
  "'h host \<Rightarrow> device_info \<Rightarrow> string \<Rightarrow> 'h \<Rightarrow> string \<times> host_error option \<times> 'h" where
  "NewMountpointForDevice os info mountRoot h =
     (let dirName = buildDirNameForDevice info; mountpoint = path_join [mountRoot, dirName] in
      if doesFileExist os mountpoint h then
        (mountpoint, Some (HostErrorText (''directory exists: '' @ mountpoint)), h)
      else
        case os_Mkdir os mountpoint MountpointPerm h of (err, h') \<Rightarrow> (mountpoint, err, h'))"

subsection \<open>Mount roots\<close>

text \<open>\<open>firstExistentDir\<close>; \<^term>\<open>None\<close> is \<open>log.Fatalln\<close>, which ends the process.\<close>

fun firstExistentDir :: "'h host \<Rightarrow> string list \<Rightarrow> 'h \<Rightarrow> string option" where
  "firstExistentDir os [] h = None"
| "firstExistentDir os (p # ps) h =
     (case os_Stat os p h of
        Inl err \<Rightarrow> firstExistentDir os ps h
      | Inr isDir \<Rightarrow> if \<not> isDir then firstExistentDir os ps h else Some p)"

text \<open>\<open>home\<close>, given the home directory of the current user if it is found.\<close>

definition home :: "string option \<Rightarrow> string \<Rightarrow> string" where
  "home homeDir relPath = (case homeDir of None \<Rightarrow> '''' | Some d \<Rightarrow> path_join [d, relPath])"

definition mountRootsByOS :: "string option \<Rightarrow> string \<Rightarrow> string list" where
  "mountRootsByOS homeDir goos =
     (if goos = ''darwin'' then [home homeDir ''/mnt'', ''/Volumes'']
      else if goos = ''linux'' then [home homeDir ''/mnt'', ''/mnt'']
      else [])"

definition FindDefaultMountRoot :: "'h host \<Rightarrow> string option \<Rightarrow> string \<Rightarrow> 'h \<Rightarrow> string option" where
  "FindDefaultMountRoot os homeDir goos h = firstExistentDir os (mountRootsByOS homeDir goos) h"

text \<open>\<open>initializeMountRoot\<close>: \<^term>\<open>None\<close> is a fatal error, which ends the process.\<close>

definition initializeMountRoot :: "'h host \<Rightarrow> string option \<Rightarrow> string \<Rightarrow> string \<Rightarrow> 'h \<Rightarrow> string option" where
  "initializeMountRoot os homeDir goos mountRoot h =
     (case (if mountRoot = '''' then FindDefaultMountRoot os homeDir goos h else Some mountRoot) of
        None \<Rightarrow> None
      | Some root \<Rightarrow>
          if root = '''' then None
          else (case os_Stat os root h of
                  Inl err \<Rightarrow> None
                | Inr isDir \<Rightarrow> if isDir then Some root else None))"

definition checkValidMountpoint :: "'h host \<Rightarrow> string \<Rightarrow> 'h \<Rightarrow> host_error option" where
  "checkValidMountpoint os path h =
     (case os_Stat os path h of
        Inl err \<Rightarrow> Some err
      | Inr isDir \<Rightarrow>
          if \<not> isDir then Some (HostErrorText (''path is not a directory:'' @ path)) else None)"

subsection \<open>Cleaned names\<close>

lemma clean_name_chars:
  "c \<in> set (clean_name r s) \<Longrightarrow> is_alnum c \<or> c = CHR ''-'' \<or> c = CHR 0x0A \<or> c = CHR ''_''"
  by (induction r s rule: clean_name.induct) (auto simp: is_special_def split: if_splits)

text \<open>A name without special bytes is kept; runs of them are one underscore each.\<close>

lemma clean_name_plain: "\<forall>c \<in> set s. \<not> is_special c \<Longrightarrow> clean_name r s = s"
  by (induction s arbitrary: r) auto

lemma clean_name_run:
  "list_all is_special s \<Longrightarrow> s \<noteq> [] \<Longrightarrow> clean_name False (s @ t) = CHR ''_'' # clean_name True t"
proof (induction s)
  case Nil
  then show ?case by simp
next
  case (Cons a s)
  have "clean_name True (s @ t) = clean_name True t" if "list_all is_special s" for s
    using that by (induction s) auto
  with Cons show ?case by simp
qed

lemma clean_name_no_double:
  "clean_name r s = xs @ [CHR ''_'', CHR ''_''] @ ys \<Longrightarrow> False"
proof (induction r s arbitrary: xs rule: clean_name.induct)
  case (2 r c cs)
  have run: "clean_name True cs \<noteq> CHR ''_'' # zs" for cs zs
    by (induction cs) (auto simp: is_special_def is_alnum_def)
  show ?case
  proof (cases "is_special c")
    case True
    then show ?thesis using 2 run by (cases xs) (auto split: if_splits)
  next
    case False
    then have "c \<noteq> CHR ''_''" by (auto simp: is_special_def is_alnum_def)
    then show ?thesis using 2 False by (cases xs) auto
  qed
qed simp

lemma dir_name_no_slash: "CHR ''/'' \<notin> set (buildDirNameForDevice info)"
proof
  assume "CHR ''/'' \<in> set (buildDirNameForDevice info)"
  from clean_name_chars [OF this [unfolded buildDirNameForDevice_def]] show False
    by (simp add: is_alnum_def)
qed

lemma minus_in_dir_name: "CHR ''-'' \<in> set (buildDirNameForDevice info)"
proof -
  have "CHR ''-'' \<in> set (clean_name r s)" if "CHR ''-'' \<in> set s" for r s
    using that by (induction r s rule: clean_name.induct) (auto simp: is_special_def)
  then show ?thesis by (simp add: buildDirNameForDevice_def)
qed

text \<open>So the name is one normal path element: a mount point is a child of the mount root.\<close>

lemma dir_name_normal: "normal_elem (buildDirNameForDevice info)"
proof -
  have "s \<noteq> ''.'' \<and> s \<noteq> ''..'' \<and> s \<noteq> ''''" if "CHR ''-'' \<in> set s" for s
    using that by auto
  then show ?thesis using dir_name_no_slash minus_in_dir_name by (simp add: normal_elem_def)
qed

lemma mountpoint_child:
  assumes "list_all normal_elem ms"
  shows "fst (NewMountpointForDevice os info (abs_path ms) h) = abs_path (ms @ [buildDirNameForDevice info])"
proof -
  let ?n = "buildDirNameForDevice info"
  have n: "normal_elem ?n" by (rule dir_name_normal)
  have ne: "abs_path ms \<noteq> []" "?n \<noteq> []" using n by (simp_all add: abs_path_def normal_elem_def)
  have "path_join [abs_path ms, ?n] = path_clean (CHR ''/'' # (join_with ''/'' ms @ CHR ''/'' # ?n))"
    using ne by (simp add: path_join_def abs_path_def)
  also have "\<dots> = abs_path (clean_elems True [] (split_on (CHR ''/'') (join_with ''/'' ms) @ [?n]))"
  proof -
    have "split_on (CHR ''/'') ?n = [?n]"
      using split_join [of "[?n]" "CHR ''/''"] normal_elem_no_slash [OF n] by simp
    then show ?thesis by (simp add: path_clean_rooted split_on_append)
  qed
  also have "\<dots> = abs_path (ms @ [?n])"
    using n by (simp add: clean_elems_append split_abs_path [OF assms] normal_elem_def)
  finally show ?thesis by (simp add: NewMountpointForDevice_def Let_def split: prod.splits)
qed

text \<open>
  \<open>os.Stat\<close> reports its errors as \<open>*PathError\<close>: the check for an existing directory never
  finds one.
\<close>

lemma doesFileExist_never:
  assumes "\<And>e. os_Stat os path h = Inl e \<Longrightarrow> \<exists>op p n. e = PathError op p n"
  shows "\<not> doesFileExist os path h"
  using assms by (auto simp: doesFileExist_def split: sum.splits)

subsection \<open>Mount roots that exist\<close>

lemma firstExistentDir_dir:
  "firstExistentDir os ps h = Some p \<Longrightarrow> p \<in> set ps \<and> os_Stat os p h = Inr True"
  by (induction ps) (auto split: sum.splits if_splits)

lemma firstExistentDir_None:
  "firstExistentDir os ps h = None \<longleftrightarrow> (\<forall>p \<in> set ps. os_Stat os p h \<noteq> Inr True)"
  by (induction ps) (auto split: sum.splits if_splits)

lemma initializeMountRoot_dir:
  "initializeMountRoot os homeDir goos r h = Some root \<Longrightarrow>
   os_Stat os root h = Inr True \<and> (r \<noteq> '''' \<longrightarrow> root = r)"
  by (auto simp: initializeMountRoot_def split: option.splits sum.splits if_splits)

end
