(* ===== verification/Command_Line.thy ===== *)
theory Command_Line
  imports Go_Strconv
begin

text \<open>
  The configuration of the two programs and the arguments that pass it from one to the other:
  \<open>formatFlag\<close> of \<open>internal/cli/cli.go\<close>, \<open>BaseConfig\<close> and \<open>AdbfsConfig\<close> with their
  \<open>AsArgs\<close>, and \<open>NewMountProcess\<close> of \<open>cmd/adbfs-automount/main.go\<close>. Parsing the arguments is
  kingpin's, which is not part of the repository; what a reader of them finds is \<open>flag_text\<close> and
  \<open>flag_bool\<close>.
\<close>

subsection \<open>Durations\<close>

text \<open>
  \<open>time.Duration.String\<close>: hours, minutes and seconds with a fraction without trailing zeros;
  below a second the unit is ns, us (printed with U+00B5) or ms.
\<close>

definition pad_digits :: "nat \<Rightarrow> nat \<Rightarrow> string" where
  "pad_digits w n = (let s = show_nat n in replicate (w - length s) (CHR ''0'') @ s)"

text \<open>The fraction \<open>n / 10^w\<close> with its point, empty when it is zero.\<close>

definition show_fraction :: "nat \<Rightarrow> nat \<Rightarrow> string" where
  "show_fraction w n =
     (let ds = rev (dropWhile (\<lambda>c. c = CHR ''0'') (rev (pad_digits w n)))
      in if n = 0 then '''' else CHR ''.'' # ds)"

definition micro_sign :: string where
  "micro_sign = [CHR 0xC2, CHR 0xB5]"

definition show_positive_duration :: "nat \<Rightarrow> string" where
  "show_positive_duration u =
     (if u < 10 ^ 9 then
        (if u = 0 then ''0s''
         else if u < 10 ^ 3 then show_nat u @ ''ns''
         else if u < 10 ^ 6 then show_nat (u div 10 ^ 3) @ show_fraction 3 (u mod 10 ^ 3) @ micro_sign @ ''s''
         else show_nat (u div 10 ^ 6) @ show_fraction 6 (u mod 10 ^ 6) @ ''ms'')
      else
        let secs = u div 10 ^ 9; frac = show_fraction 9 (u mod 10 ^ 9);
            mins = secs div 60; hours = mins div 60
        in (if hours > 0 then show_nat hours @ ''h'' else '''') @
           (if mins > 0 then show_nat (mins mod 60) @ ''m'' else '''') @
           show_nat (secs mod 60) @ frac @ ''s'')"

definition show_duration :: "int \<Rightarrow> string" where
  "show_duration d =
     (if d < 0 then CHR ''-'' # show_positive_duration (nat (- d)) else show_positive_duration (nat d))"

subsection \<open>Flags\<close>

datatype flag_value = FlagBool bool | FlagInt int | FlagString string | FlagDuration int

fun format_value :: "flag_value \<Rightarrow> string" where
  "format_value (FlagBool b) = (if b then ''true'' else ''false'')"
| "format_value (FlagInt n) = itoa n"
| "format_value (FlagString s) = s"
| "format_value (FlagDuration d) = show_duration d"

definition formatFlag :: "string \<Rightarrow> flag_value \<Rightarrow> string" where
  "formatFlag name value =
     (case value of
        FlagBool b \<Rightarrow> if b then ''--'' @ name else ''--no-'' @ name
      | _ \<Rightarrow> ''--'' @ name @ ''='' @ format_value value)"

record base_config =
  bc_AdbPort :: int
  bc_ConnectionPoolSize :: int
  bc_LogLevel :: string
  bc_Verbose :: bool
  bc_CacheTtl :: int
  bc_ServeDebug :: bool
  bc_DeviceRoot :: string
  bc_ReadOnly :: bool
  bc_PathToAdb :: string

record adbfs_config =
  ac_Base :: base_config
  ac_DeviceSerial :: string
  ac_Mountpoint :: string

definition base_AsArgs :: "base_config \<Rightarrow> string list" where
  "base_AsArgs c =
     [formatFlag ''port'' (FlagInt (bc_AdbPort c)),
      formatFlag ''pool'' (FlagInt (bc_ConnectionPoolSize c)),
      formatFlag ''log'' (FlagString (bc_LogLevel c)),
      formatFlag ''cachettl'' (FlagDuration (bc_CacheTtl c)),
      formatFlag ''debug'' (FlagBool (bc_ServeDebug c)),
      formatFlag ''verbose'' (FlagBool (bc_Verbose c)),
      formatFlag ''device-root'' (FlagString (bc_DeviceRoot c)),
      formatFlag ''readonly'' (FlagBool (bc_ReadOnly c)),
      formatFlag ''adb'' (FlagString (bc_PathToAdb c))]"

definition adbfs_AsArgs :: "adbfs_config \<Rightarrow> string list" where
  "adbfs_AsArgs c =
     base_AsArgs (ac_Base c) @
     [formatFlag ''device'' (FlagString (ac_DeviceSerial c)),
      formatFlag ''mountpoint'' (FlagString (ac_Mountpoint c))]"

text \<open>\<open>ServerConfig\<close> of \<open>base_config.go\<close>: the port and the path of adb.\<close>

definition ServerConfig :: "base_config \<Rightarrow> int \<times> string" where
  "ServerConfig c = (bc_AdbPort c, bc_PathToAdb c)"

subsection \<open>Reading the arguments back\<close>

text \<open>The value of the first argument \<open>--name=value\<close>, and the boolean flag of that name.\<close>

definition flag_text :: "string \<Rightarrow> string list \<Rightarrow> string option" where
  "flag_text name args =
     map_option (drop (length name + 3)) (List.find (\<lambda>a. has_prefix a (''--'' @ name @ ''='')) args)"

definition flag_bool :: "string \<Rightarrow> string list \<Rightarrow> bool option" where
  "flag_bool name args =
     (if ''--'' @ name \<in> set args then Some True
      else if ''--no-'' @ name \<in> set args then Some False else None)"

lemma flag_text_hit [simp]:
  "flag_text name ((CHR ''-'' # CHR ''-'' # name @ CHR ''='' # v) # args) = Some v"
  by (simp add: flag_text_def has_prefix_def eval_nat_numeral)

lemma flag_text_skip: "\<not> has_prefix a (''--'' @ name @ ''='') \<Longrightarrow> flag_text name (a # args) = flag_text name args"
  by (simp add: flag_text_def)

lemma adbfs_AsArgs_text:
  "flag_text ''port'' (adbfs_AsArgs c) = Some (itoa (bc_AdbPort (ac_Base c)))"
  "flag_text ''pool'' (adbfs_AsArgs c) = Some (itoa (bc_ConnectionPoolSize (ac_Base c)))"
  "flag_text ''log'' (adbfs_AsArgs c) = Some (bc_LogLevel (ac_Base c))"
  "flag_text ''cachettl'' (adbfs_AsArgs c) = Some (show_duration (bc_CacheTtl (ac_Base c)))"
  "flag_text ''device-root'' (adbfs_AsArgs c) = Some (bc_DeviceRoot (ac_Base c))"
  "flag_text ''adb'' (adbfs_AsArgs c) = Some (bc_PathToAdb (ac_Base c))"
  "flag_text ''device'' (adbfs_AsArgs c) = Some (ac_DeviceSerial c)"
  "flag_text ''mountpoint'' (adbfs_AsArgs c) = Some (ac_Mountpoint c)"
  by (simp_all add: adbfs_AsArgs_def base_AsArgs_def formatFlag_def flag_text_def has_prefix_def)

lemma adbfs_AsArgs_bool:
  "flag_bool ''debug'' (adbfs_AsArgs c) = Some (bc_ServeDebug (ac_Base c))"
  "flag_bool ''verbose'' (adbfs_AsArgs c) = Some (bc_Verbose (ac_Base c))"
  "flag_bool ''readonly'' (adbfs_AsArgs c) = Some (bc_ReadOnly (ac_Base c))"
  by (auto simp: adbfs_AsArgs_def base_AsArgs_def formatFlag_def flag_bool_def)

subsection \<open>The mount process\<close>

text \<open>\<open>exec.Cmd\<close>: the first element of \<open>Args\<close> is the name the program is run under.\<close>

record exec_cmd =
  cmd_Path :: string
  cmd_Args :: "string list"

definition NewMountProcess :: "string \<Rightarrow> adbfs_config \<Rightarrow> exec_cmd" where
  "NewMountProcess pathToAdbfs config = \<lparr>cmd_Path = pathToAdbfs, cmd_Args = adbfs_AsArgs config\<rparr>"

definition CommandLine :: "exec_cmd \<Rightarrow> string" where
  "CommandLine cmd = cmd_Path cmd @ '' '' @ join_with '' '' (cmd_Args cmd)"

text \<open>The arguments the started program parses.\<close>

definition process_arguments :: "exec_cmd \<Rightarrow> string list" where
  "process_arguments cmd = tl (cmd_Args cmd)"

lemma mount_process_port: "flag_text ''port'' (process_arguments (NewMountProcess path c)) = None"
  by (auto simp: process_arguments_def NewMountProcess_def adbfs_AsArgs_def base_AsArgs_def
      formatFlag_def flag_text_def has_prefix_def)

lemma mount_process_other:
  "name \<noteq> ''port'' \<Longrightarrow> CHR ''='' \<notin> set name \<Longrightarrow>
   flag_text name (process_arguments (NewMountProcess path c)) = flag_text name (adbfs_AsArgs c)"
proof -
  assume n: "name \<noteq> ''port''" "CHR ''='' \<notin> set name"
  have "\<not> has_prefix (formatFlag ''port'' (FlagInt v)) (''--'' @ name @ ''='')" for v
  proof
    assume "has_prefix (formatFlag ''port'' (FlagInt v)) (''--'' @ name @ ''='')"
    then obtain t where "''port'' @ ''='' @ itoa v = name @ ''='' @ t"
      by (auto simp: has_prefix_iff formatFlag_def)
    moreover have "takeWhile (\<lambda>x. x \<noteq> CHR ''='') (''port'' @ ''='' @ itoa v) = ''port''" by simp
    moreover have "takeWhile (\<lambda>x. x \<noteq> CHR ''='') (name @ ''='' @ t) = name"
      using n(2) by (simp add: takeWhile_append)
    ultimately show False using n(1) by simp
  qed
  then show ?thesis
    by (simp add: process_arguments_def NewMountProcess_def adbfs_AsArgs_def base_AsArgs_def flag_text_skip)
qed

lemma mount_process_bool:
  "flag_bool ''debug'' (process_arguments (NewMountProcess path c)) = Some (bc_ServeDebug (ac_Base c))"
  "flag_bool ''verbose'' (process_arguments (NewMountProcess path c)) = Some (bc_Verbose (ac_Base c))"
  "flag_bool ''readonly'' (process_arguments (NewMountProcess path c)) = Some (bc_ReadOnly (ac_Base c))"
  by (auto simp: process_arguments_def NewMountProcess_def adbfs_AsArgs_def base_AsArgs_def formatFlag_def flag_bool_def)

end
