(* ===== verification/Adbfs_Main.thy ===== *)
theory Adbfs_Main
  imports Dirty_Clock Mountpoint Command_Line
begin

text \<open>
  \<open>cmd/adbfs/main.go\<close>: one mounted device. The two atomic flags and the server are global
  variables, used by \<open>main\<close>, by the goroutine that watches for the device to disconnect and by
  the device clients that find it gone. Functions run between atomic operations, so a call of
  \<open>handleDeviceDisconnected\<close> is two steps: the check, and \<open>unmountServer\<close>.
\<close>

record mount_state =
  mn_server :: bool
  mn_mounted :: int
  mn_unmounted :: int
  mn_unmounts :: nat

definition initial_mount_state :: mount_state where
  "initial_mount_state = \<lparr>mn_server = False, mn_mounted = 0, mn_unmounted = 0, mn_unmounts = 0\<rparr>"

text \<open>\<open>mn_unmounts\<close> counts the calls of \<open>server.Unmount()\<close>.\<close>

definition unmountServer :: "mount_state \<Rightarrow> mount_state go" where
  "unmountServer s =
     (if \<not> mn_server s then Panic ''attempted to unmount server before creating it''
      else if \<not> atomic_value (mn_mounted s) then Panic ''attempted to unmount server before mounting it''
      else
        case atomic_cas False True (mn_unmounted s) of
          (True, b) \<Rightarrow> Return (s\<lparr>mn_unmounted := b, mn_unmounts := Suc (mn_unmounts s)\<rparr>)
        | (False, b) \<Rightarrow> Return s)"

definition disconnected_check :: "mount_state \<Rightarrow> bool" where
  "disconnected_check s \<longleftrightarrow> \<not> (\<not> atomic_value (mn_mounted s) \<or> atomic_value (mn_unmounted s))"

definition handleDeviceDisconnected :: "mount_state \<Rightarrow> mount_state go" where
  "handleDeviceDisconnected s = (if disconnected_check s then unmountServer s else Return s)"

subsection \<open>At most one unmount\<close>

text \<open>
  \<open>threads\<close> is the number of goroutines between the check of \<open>handleDeviceDisconnected\<close> and its
  unmount, and the deferred unmount of \<open>main\<close> counts as one once the file system is mounted.
\<close>

inductive mount_step :: "mount_state \<times> nat \<Rightarrow> mount_state \<times> nat \<Rightarrow> bool" where
  create_server: "mount_step (s, n) (s\<lparr>mn_server := True\<rparr>, n)"
| set_mounted: "mn_server s \<Longrightarrow>
    mount_step (s, n) (s\<lparr>mn_mounted := snd (atomic_cas False True (mn_mounted s))\<rparr>, Suc n)"
| disconnected: "disconnected_check s \<Longrightarrow> mount_step (s, n) (s, Suc n)"
| run_unmount: "unmountServer s = Return s' \<Longrightarrow> mount_step (s, Suc n) (s', n)"

inductive mount_reachable :: "mount_state \<times> nat \<Rightarrow> bool" where
  mount_init: "mount_reachable (initial_mount_state, 0)"
| mount_next: "mount_reachable s \<Longrightarrow> mount_step s s' \<Longrightarrow> mount_reachable s'"

definition mount_inv :: "mount_state \<times> nat \<Rightarrow> bool" where
  "mount_inv s \<longleftrightarrow>
     mn_mounted (fst s) \<in> {0, 1} \<and> mn_unmounted (fst s) \<in> {0, 1} \<and>
     (mn_mounted (fst s) = 1 \<longrightarrow> mn_server (fst s)) \<and>
     (0 < snd s \<longrightarrow> mn_mounted (fst s) = 1) \<and>
     int (mn_unmounts (fst s)) = mn_unmounted (fst s)"

lemma mount_step_inv: "mount_step s s' \<Longrightarrow> mount_inv s \<Longrightarrow> mount_inv s'"
  by (induction rule: mount_step.induct)
    (auto simp: mount_inv_def atomic_cas_def bool_int_def disconnected_check_def atomic_value_def
      unmountServer_def split: if_splits)

lemma mount_reachable_inv: "mount_reachable s \<Longrightarrow> mount_inv s"
proof (induction rule: mount_reachable.induct)
  case mount_init
  then show ?case by (simp add: mount_inv_def initial_mount_state_def)
next
  case (mount_next s s')
  then show ?case using mount_step_inv by blast
qed

lemma unmount_Return:
  assumes "mount_inv (s, Suc n)"
  shows "unmountServer s = Return (s\<lparr>mn_unmounted := 1, mn_unmounts := 1\<rparr>)"
proof -
  have i: "mn_mounted s = 1" "mn_server s" "mn_unmounted s = 0 \<or> mn_unmounted s = 1"
    "int (mn_unmounts s) = mn_unmounted s"
    using assms by (auto simp: mount_inv_def)
  from i(3) show ?thesis
  proof
    assume "mn_unmounted s = 0"
    then show ?thesis using i by (simp add: unmountServer_def atomic_value_def atomic_cas_def bool_int_def)
  next
    assume u: "mn_unmounted s = 1"
    then have "mn_unmounts s = 1" using i(4) by simp
    then have "s\<lparr>mn_unmounted := 1, mn_unmounts := 1\<rparr> = s" using u by (cases s) simp
    then show ?thesis using i u by (simp add: unmountServer_def atomic_value_def atomic_cas_def bool_int_def)
  qed
qed

subsection \<open>Watching for the device\<close>

text \<open>A device event; goadb's \<open>CameOnline\<close> and \<open>WentOffline\<close> are fields.\<close>

record device_event =
  ev_Serial :: string
  ev_CameOnline :: bool
  ev_WentOffline :: bool

text \<open>
  \<open>watchForDeviceDisconnected\<close>: \<open>events\<close> are what the watcher's channel delivers before it is
  closed. The \<open>break\<close> at the closed channel leaves the \<open>select\<close>, and the loop goes on. The loop
  may not end, so it runs with fuel: \<^term>\<open>None\<close> when it is used up.
\<close>

fun watchForDeviceDisconnected :: "nat \<Rightarrow> string \<Rightarrow> device_event list \<Rightarrow> mount_state \<Rightarrow> mount_state go option" where
  "watchForDeviceDisconnected 0 serial events s = None"
| "watchForDeviceDisconnected (Suc fuel) serial [] s = watchForDeviceDisconnected fuel serial [] s"
| "watchForDeviceDisconnected (Suc fuel) serial (e # es) s =
     (if ev_Serial e = serial \<and> ev_WentOffline e then
        (case handleDeviceDisconnected s of
           Return s' \<Rightarrow> watchForDeviceDisconnected fuel serial es s'
         | Panic m \<Rightarrow> Some (Panic m)
         | Blocked \<Rightarrow> Some Blocked)
      else watchForDeviceDisconnected fuel serial es s)"

lemma handleDeviceDisconnected_Return:
  "mn_mounted s = 1 \<Longrightarrow> mn_server s \<Longrightarrow> \<exists>s'. handleDeviceDisconnected s = Return s' \<and>
    mn_mounted s' = 1 \<and> mn_server s'"
  by (auto simp: handleDeviceDisconnected_def disconnected_check_def unmountServer_def atomic_value_def
      split: prod.splits bool.splits)

text \<open>The watcher of a mounted file system never returns, with any amount of fuel.\<close>

lemma watch_closed: "watchForDeviceDisconnected fuel serial [] s = None"
  by (induction fuel) simp_all

lemma watch_never_returns:
  "mn_mounted s = 1 \<Longrightarrow> mn_server s \<Longrightarrow> watchForDeviceDisconnected fuel serial events s = None"
proof (induction events arbitrary: fuel s)
  case Nil
  then show ?case by (simp add: watch_closed)
next
  case (Cons e es)
  then obtain s' where "handleDeviceDisconnected s = Return s'" "mn_mounted s' = 1" "mn_server s'"
    using handleDeviceDisconnected_Return by blast
  with Cons show ?case by (cases fuel) simp_all
qed

subsection \<open>main\<close>

text \<open>What \<open>startServer\<close>'s \<open>select\<close> gets first.\<close>

datatype start_event = ServerReady | ServerDone | StartTimedOut

definition StartTimeout :: int where
  "StartTimeout = 5 * 10 ^ 9"

definition startServer :: "start_event \<Rightarrow> string option" where
  "startServer e =
     (case e of
        ServerReady \<Rightarrow> None
      | ServerDone \<Rightarrow> Some ''unknown error''
      | StartTimedOut \<Rightarrow> Some (''server failed to start after'' @ show_duration StartTimeout))"

datatype os_signal = Interrupt | Kill | OtherSignal

datatype main_event = GotSignal os_signal | ServerFinished

text \<open>The loop at the end of \<open>main\<close>; \<^term>\<open>None\<close> while it still waits.\<close>

fun main_loop :: "main_event list \<Rightarrow> main_event list option" where
  "main_loop [] = None"
| "main_loop (e # es) =
     (case e of
        GotSignal sig \<Rightarrow> if sig = Kill \<or> sig = Interrupt then Some es else main_loop es
      | ServerFinished \<Rightarrow> Some es)"

text \<open>
  What the calls of \<open>main\<close> to the outside give: the absolute mount point, the errors of the adb
  server, of making the file system and of mounting it, and how the server starts.
\<close>

record main_env =
  me_abs :: "string \<Rightarrow> string + string"
  me_server_error :: "string option"
  me_filesystem_error :: "string option"
  me_mount_error :: "string option"
  me_start :: start_event
  me_events :: "main_event list"

datatype main_result = Fatal string | FatalHost host_error | StillRunning | Exited mount_state

definition adbfs_main :: "'h host \<Rightarrow> 'h \<Rightarrow> main_env \<Rightarrow> adbfs_config \<Rightarrow> main_result go" where
  "adbfs_main os h env config =
     (if ac_DeviceSerial config = '''' then Return (Fatal ''Device serial must be specified. Run with -h.'')
      else if ac_Mountpoint config = '''' then Return (Fatal ''Mountpoint must be specified. Run with -h.'')
      else
        case me_abs env (ac_Mountpoint config) of
          Inl err \<Rightarrow> Return (Fatal err)
        | Inr absoluteMountpoint \<Rightarrow>
            (case checkValidMountpoint os absoluteMountpoint h of
               Some err \<Rightarrow> Return (FatalHost err)
             | None \<Rightarrow>
                 (case me_server_error env of
                    Some err \<Rightarrow> Return (Fatal err)
                  | None \<Rightarrow>
                      (case me_filesystem_error env of
                         Some err \<Rightarrow> Return (Fatal err)
                       | None \<Rightarrow>
                           (case me_mount_error env of
                              Some err \<Rightarrow> Return (Fatal err)
                            | None \<Rightarrow>
                                let s1 = initial_mount_state\<lparr>mn_server := True\<rparr> in
                                (case startServer (me_start env) of
                                   Some err \<Rightarrow> Return (Fatal err)
                                 | None \<Rightarrow>
                                     let s2 = s1\<lparr>mn_mounted := snd (atomic_cas False True (mn_mounted s1))\<rparr> in
                                     (case main_loop (me_events env) of
                                        None \<Rightarrow> Return StillRunning
                                      | Some _ \<Rightarrow> go_bind (unmountServer s2) (\<lambda>s3. Return (Exited s3)))))))))"

lemma main_loop_ends:
  "main_loop es \<noteq> None \<longleftrightarrow>
   ServerFinished \<in> set es \<or> GotSignal Kill \<in> set es \<or> GotSignal Interrupt \<in> set es"
proof (induction es)
  case (Cons e es)
  then show ?case by (cases e) (auto split: if_splits)
qed simp

text \<open>A run that gets as far as mounting unmounts exactly once; no run panics.\<close>

lemma adbfs_main_unmounts:
  "\<exists>r. adbfs_main os h env config = Return r \<and>
     (\<forall>s. r = Exited s \<longrightarrow> mn_unmounts s = 1 \<and> atomic_value (mn_unmounted s))"
  by (auto simp: adbfs_main_def Let_def unmountServer_def initial_mount_state_def atomic_cas_def
      bool_int_def atomic_value_def split: sum.splits option.splits)

end
