(* ===== verification/Handlers.thy ===== *)
theory Handlers
  imports Go_Text
begin

text \<open>
  \<open>internal/cli/handlers.go\<close>: the commands run after a device is mounted and unmounted. The
  words of a command are expanded after it has been split, with \<open>os.Expand\<close> as Go defines it
  since version 1.11. Running a command is not modelled beyond the log message of its result;
  \<open>FireHandlers\<close> gives the goroutines it starts.
\<close>

definition PathHandlerVar :: string where "PathHandlerVar = ''ADBFS_PATH''"
definition SerialHandlerVar :: string where "SerialHandlerVar = ''ADBFS_SERIAL''"
definition ModelHandlerVar :: string where "ModelHandlerVar = ''ADBFS_MODEL''"

text \<open>\<open>describeHandlerVars\<close>: a line for each; \<open>fmt.Fprintln\<close> puts a space between its arguments.\<close>

definition describe_line :: "string \<Rightarrow> string \<Rightarrow> string" where
  "describe_line name what = name @ '' '' @ [CHR 0x09] @ what @ [CHR 0x0A]"

definition describeHandlerVars :: string where
  "describeHandlerVars =
     describe_line PathHandlerVar ''- path of the mountpoint.'' @
     describe_line SerialHandlerVar ''- serial number of the device.'' @
     describe_line ModelHandlerVar ''- model of the device, as reported by adb.''"

subsection \<open>os.Expand\<close>

definition is_name_byte :: "char \<Rightarrow> bool" where
  "is_name_byte c \<longleftrightarrow>
     (let n = of_char c :: nat
      in n = 95 \<or> (48 \<le> n \<and> n \<le> 57) \<or> (97 \<le> n \<and> n \<le> 122) \<or> (65 \<le> n \<and> n \<le> 90))"

text \<open>The bytes that are a variable name on their own: * # $ @ ! ? - and the digits.\<close>

definition is_shell_special :: "char \<Rightarrow> bool" where
  "is_shell_special c \<longleftrightarrow>
     c \<in> {CHR ''*'', CHR ''#'', CHR ''$'', CHR ''@'', CHR ''!'', CHR ''?'', CHR ''-''} \<or>
     (48 \<le> (of_char c :: nat) \<and> (of_char c :: nat) \<le> 57)"

text \<open>\<open>getShellName\<close>: the name after a dollar sign and the number of bytes it takes.\<close>

definition getShellName :: "string \<Rightarrow> string \<times> nat" where
  "getShellName s =
     (case s of
        [] \<Rightarrow> ([], 0)
      | c # cs \<Rightarrow>
          if c = CHR ''{'' then
            (if length cs \<ge> 2 \<and> is_shell_special (hd cs) \<and> cs ! 1 = CHR ''}'' then ([hd cs], 3)
             else
               let name = takeWhile (\<lambda>x. x \<noteq> CHR ''}'') cs in
               if length name = length cs then ([], 1)
               else if name = [] then ([], 2)
               else (name, length name + 2))
          else if is_shell_special c then ([c], 1)
          else (let name = takeWhile is_name_byte s in (name, length name)))"

lemma getShellName_length: "snd (getShellName s) \<le> length s"
proof (cases s)
  case (Cons c cs)
  have "length (takeWhile (\<lambda>x. x \<noteq> CHR ''}'') cs) \<noteq> length cs \<Longrightarrow>
      Suc (length (takeWhile (\<lambda>x. x \<noteq> CHR ''}'') cs)) \<le> length cs"
    using length_takeWhile_le [of "\<lambda>x. x \<noteq> CHR ''}''" cs] by linarith
  then show ?thesis
    using Cons length_takeWhile_le [of is_name_byte s]
    by (cases cs) (auto simp: getShellName_def Let_def split: if_splits)
qed (simp add: getShellName_def)

function os_Expand :: "(string \<Rightarrow> string) \<Rightarrow> string \<Rightarrow> string" where
  "os_Expand mapping [] = []"
| "os_Expand mapping (c # cs) =
     (if c = CHR ''$'' \<and> cs \<noteq> [] then
        (case getShellName cs of
           (name, w) \<Rightarrow>
             (if name = [] then (if w > 0 then [] else [c]) else mapping name) @ os_Expand mapping (drop w cs))
      else c # os_Expand mapping cs)"
  by pat_completeness auto
termination by (relation "measure (\<lambda>(m, s). length s)") auto

subsection \<open>The handlers\<close>

text \<open>\<open>values\<close> is a Go map: a name that is not in it maps to the empty string.\<close>

definition lookup_value :: "(string \<Rightarrow> string option) \<Rightarrow> string \<Rightarrow> string" where
  "lookup_value values name = (case values name of None \<Rightarrow> '''' | Some v \<Rightarrow> v)"

definition expandHandlerVars :: "string list \<Rightarrow> (string \<Rightarrow> string option) \<Rightarrow> string list" where
  "expandHandlerVars strs values = map (os_Expand (lookup_value values)) strs"

text \<open>\<open>appendToEnv\<close>; the pairs come in the order Go iterates over the map.\<close>

definition appendToEnv :: "string list \<Rightarrow> (string \<times> string) list \<Rightarrow> string list" where
  "appendToEnv environ vars = environ @ map (\<lambda>(k, v). k @ ''='' @ v) vars"

record handler_run =
  hr_serial :: string
  hr_command :: "string list"
  hr_env :: "string list"

definition FireHandlers :: "string list \<Rightarrow> string list \<Rightarrow> (string \<times> string) list \<Rightarrow> handler_run list" where
  "FireHandlers environ handlers vars =
     (let values = map_of vars; env = appendToEnv environ vars
      in map (\<lambda>handler.
           \<lparr>hr_serial = lookup_value values SerialHandlerVar,
            hr_command = expandHandlerVars (split_on (CHR '' '') handler) values,
            hr_env = env\<rparr>) handlers)"

text \<open>\<open>strings.TrimSpace\<close>, for ASCII, and the message logged for a handler.\<close>

definition is_space :: "char \<Rightarrow> bool" where
  "is_space c \<longleftrightarrow> (let n = of_char c :: nat in (9 \<le> n \<and> n \<le> 13) \<or> n = 32)"

definition trim_space :: "string \<Rightarrow> string" where
  "trim_space s = rev (dropWhile is_space (rev (dropWhile is_space s)))"

definition createHandlerLogMsg :: "string \<Rightarrow> string \<Rightarrow> string \<Rightarrow> string" where
  "createHandlerLogMsg output commandLine headline =
     (let outputSummary = trim_space (if length output > 255 then take 255 output else output)
      in trim_space
           (headline @ ''command: '' @ commandLine @ [CHR 0x0A] @
            (if outputSummary \<noteq> '''' then ''output: '' @ outputSummary @ [CHR 0x0A] else '''')))"

datatype handler_log = LogWarn string | LogDebug string

text \<open>The result of the command: its output and the text of its error.\<close>

definition executeHandlerIgnoringErrors ::
  "(string list \<Rightarrow> string list \<Rightarrow> string \<times> string option) \<Rightarrow> handler_run \<Rightarrow> handler_log list" where
  "executeHandlerIgnoringErrors run r =
     (if hr_command r = [] then []
      else
        let commandLine = join_with '' '' (hr_command r) in
        LogDebug (''running on mount handler: '' @ commandLine) #
        (case run (hr_command r) (hr_env r) of
           (output, Some err) \<Rightarrow>
             [LogWarn (createHandlerLogMsg output commandLine
               (''handler exited with error for '' @ hr_serial r @ '': '' @ err @ [CHR 0x0A]))]
         | (output, None) \<Rightarrow>
             [LogDebug (createHandlerLogMsg output commandLine
               (''handler completed successfully for '' @ hr_serial r @ [CHR 0x0A]))]))"

subsection \<open>What expansion does\<close>

lemma os_Expand_plain: "CHR ''$'' \<notin> set s \<Longrightarrow> os_Expand m s = s"
  by (induction s) auto

lemma os_Expand_prefix: "CHR ''$'' \<notin> set s \<Longrightarrow> os_Expand m (s @ t) = s @ os_Expand m t"
  by (induction s) auto

text \<open>\<open>$NAME\<close> and \<open>${NAME}\<close> for a name of letters and underscores.\<close>

definition var_name :: "string \<Rightarrow> bool" where
  "var_name n \<longleftrightarrow> n \<noteq> [] \<and> (\<forall>c \<in> set n. is_name_byte c \<and> \<not> is_shell_special c)"

lemma var_name_chars: "var_name n \<Longrightarrow> c \<in> set n \<Longrightarrow> c \<noteq> CHR ''{'' \<and> c \<noteq> CHR ''}'' \<and> c \<noteq> CHR ''$''"
  by (auto simp: var_name_def is_name_byte_def Let_def)

lemma getShellName_var:
  assumes "var_name n" and "t = [] \<or> \<not> is_name_byte (hd t)"
  shows "getShellName (n @ t) = (n, length n)"
proof -
  obtain c cs where n: "n = c # cs" using assms(1) by (cases n) (auto simp: var_name_def)
  have "takeWhile is_name_byte (n @ t) = n"
    using assms by (cases t) (auto simp: var_name_def takeWhile_append)
  moreover have "c \<noteq> CHR ''{''" "\<not> is_shell_special c"
    using assms(1) n var_name_chars [OF assms(1), of c] by (auto simp: var_name_def)
  ultimately show ?thesis by (simp add: getShellName_def n Let_def)
qed

lemma getShellName_braced:
  assumes "var_name n"
  shows "getShellName (CHR ''{'' # n @ CHR ''}'' # t) = (n, length n + 2)"
proof -
  obtain c cs where n: "n = c # cs" using assms by (cases n) (auto simp: var_name_def)
  have "\<forall>c \<in> set n. c \<noteq> CHR ''}''" using var_name_chars [OF assms] by blast
  then have "takeWhile (\<lambda>x. x \<noteq> CHR ''}'') (n @ CHR ''}'' # t) = n"
    by (simp add: takeWhile_append)
  moreover have "\<not> is_shell_special c" using assms n by (simp add: var_name_def)
  ultimately show ?thesis by (simp add: getShellName_def n Let_def)
qed

lemma os_Expand_var:
  assumes "var_name n" and "t = [] \<or> \<not> is_name_byte (hd t)"
  shows "os_Expand m (CHR ''$'' # n @ t) = m n @ os_Expand m t"
proof -
  have "n @ t \<noteq> []" "n \<noteq> []" using assms(1) by (simp_all add: var_name_def)
  then show ?thesis using getShellName_var [OF assms] by simp
qed

lemma os_Expand_braced:
  assumes "var_name n"
  shows "os_Expand m (CHR ''$'' # CHR ''{'' # n @ CHR ''}'' # t) = m n @ os_Expand m t"
proof -
  have "n \<noteq> []" using assms by (simp add: var_name_def)
  then show ?thesis using getShellName_braced [OF assms, of t] by simp
qed

lemma handler_vars [simp]: "var_name PathHandlerVar" "var_name SerialHandlerVar" "var_name ModelHandlerVar"
  by (simp_all add: var_name_def PathHandlerVar_def SerialHandlerVar_def ModelHandlerVar_def
      is_name_byte_def is_shell_special_def)

subsection \<open>Commands written with variables\<close>

text \<open>A word of a command as its author means it: literal text and \<open>${NAME}\<close>.\<close>

datatype segment = Literal string | VarRef string

fun show_segment :: "segment \<Rightarrow> string" where
  "show_segment (Literal s) = s"
| "show_segment (VarRef n) = CHR ''$'' # CHR ''{'' # n @ [CHR ''}'']"

fun segment_value :: "(string \<Rightarrow> string) \<Rightarrow> segment \<Rightarrow> string" where
  "segment_value m (Literal s) = s"
| "segment_value m (VarRef n) = m n"

fun good_segment :: "segment \<Rightarrow> bool" where
  "good_segment (Literal s) \<longleftrightarrow> CHR ''$'' \<notin> set s \<and> CHR '' '' \<notin> set s"
| "good_segment (VarRef n) \<longleftrightarrow> var_name n"

definition show_word :: "segment list \<Rightarrow> string" where
  "show_word segs = concat (map show_segment segs)"

lemma os_Expand_word:
  "list_all good_segment segs \<Longrightarrow> os_Expand m (show_word segs) = concat (map (segment_value m) segs)"
proof (induction segs)
  case (Cons seg segs)
  then have ih: "os_Expand m (show_word segs) = concat (map (segment_value m) segs)" by simp
  show ?case
  proof (cases seg)
    case (Literal s)
    then show ?thesis using Cons.prems ih os_Expand_prefix [of s m "show_word segs"] by (simp add: show_word_def)
  next
    case (VarRef n)
    then have "os_Expand m (CHR ''$'' # CHR ''{'' # n @ CHR ''}'' # show_word segs) = m n @ os_Expand m (show_word segs)"
      using Cons.prems os_Expand_braced [of n m "show_word segs"] by simp
    then show ?thesis using VarRef ih by (simp add: show_word_def)
  qed
qed (simp add: show_word_def)

lemma show_word_no_blank:
  assumes "list_all good_segment segs"
  shows "CHR '' '' \<notin> set (show_word segs)"
proof -
  have "CHR '' '' \<notin> set (show_segment seg)" if "good_segment seg" for seg
  proof (cases seg)
    case (VarRef n)
    have "\<not> is_name_byte (CHR '' '')" by (simp add: is_name_byte_def)
    then show ?thesis using that VarRef by (auto simp: var_name_def)
  qed (use that in simp)
  then show ?thesis using assms by (auto simp: show_word_def list_all_iff)
qed

text \<open>The words of the command are those of the template, with the values in their places.\<close>

lemma FireHandlers_expand:
  assumes "words \<noteq> []" and "\<forall>w \<in> set words. list_all good_segment w"
  shows "map hr_command (FireHandlers environ [join_with '' '' (map show_word words)] vars) =
    [map (\<lambda>w. concat (map (segment_value (lookup_value (map_of vars))) w)) words]"
proof -
  have "split_on (CHR '' '') (join_with '' '' (map show_word words)) = map show_word words"
    by (rule split_join) (use assms show_word_no_blank in auto)
  then show ?thesis
    using assms(2) by (simp add: FireHandlers_def expandHandlerVars_def Let_def os_Expand_word)
qed

text \<open>Values never change the number of words of a command.\<close>

lemma expandHandlerVars_length [simp]: "length (expandHandlerVars ws values) = length ws"
  by (simp add: expandHandlerVars_def)

lemma expandHandlerVars_nth:
  "i < length ws \<Longrightarrow> expandHandlerVars ws values ! i = os_Expand (lookup_value values) (ws ! i)"
  by (simp add: expandHandlerVars_def)

lemma FireHandlers_words:
  "map (length \<circ> hr_command) (FireHandlers environ handlers vars) =
   map (length \<circ> split_on (CHR '' '')) handlers"
  by (simp add: FireHandlers_def Let_def)

text \<open>The log message shows at most 255 bytes of output.\<close>

lemma trim_space_length: "length (trim_space s) \<le> length s"
proof -
  have "length (dropWhile p xs) \<le> length xs" for p and xs :: string
    by (rule length_dropWhile_le)
  then show ?thesis unfolding trim_space_def by (metis le_trans length_rev)
qed

lemma createHandlerLogMsg_bound:
  "length (createHandlerLogMsg output commandLine headline) \<le>
   length headline + length commandLine + 274"
proof -
  define s where "s = trim_space (if length output > 255 then take 255 output else output)"
  have "length s \<le> 255"
    unfolding s_def by (rule le_trans [OF trim_space_length]) simp
  then have "length (headline @ ''command: '' @ commandLine @ [CHR 0x0A] @
      (if s \<noteq> '''' then ''output: '' @ s @ [CHR 0x0A] else '''')) \<le> length headline + length commandLine + 274"
    by simp
  then show ?thesis
    unfolding createHandlerLogMsg_def Let_def s_def [symmetric] by (rule le_trans [OF trim_space_length])
qed

end
