(* ===== verification/Version.thy ===== *)
theory Version
  imports Go_Strconv
begin

text \<open>
  \<open>internal/cli/version.go\<close>: the version line a program prints and the check of another
  program's version. The pattern is compiled as POSIX, where \<open>^\<close> and \<open>$\<close> match at every line,
  so the first line that has the form of a version line is used.
\<close>

definition Version :: string where
  "Version = ''1.0.0''"

definition formatVersion :: "string \<Rightarrow> string \<Rightarrow> string" where
  "formatVersion appName version = appName @ '' v'' @ version"

definition versionString :: "string \<Rightarrow> string" where
  "versionString appName = formatVersion appName Version"

subsection \<open>The pattern\<close>

text \<open>\<open>[-a-z]+\<close>\<close>

definition is_name_char :: "char \<Rightarrow> bool" where
  "is_name_char c \<longleftrightarrow> c = CHR ''-'' \<or> (97 \<le> (of_char c :: nat) \<and> (of_char c :: nat) \<le> 122)"

definition is_app_name :: "string \<Rightarrow> bool" where
  "is_app_name s \<longleftrightarrow> s \<noteq> [] \<and> list_all is_name_char s"

text \<open>Three runs of digits with points between them.\<close>

definition is_version :: "string \<Rightarrow> bool" where
  "is_version s \<longleftrightarrow>
     length (split_on (CHR ''.'') s) = 3 \<and>
     (\<forall>p \<in> set (split_on (CHR ''.'') s). p \<noteq> [] \<and> list_all is_digit p)"

text \<open>
  A matching line is a name, \<open> v\<close> and a version. The name has no blank, so it ends at the
  first one.
\<close>

definition match_line :: "string \<Rightarrow> (string \<times> string) option" where
  "match_line line =
     (let name = takeWhile (\<lambda>c. c \<noteq> CHR '' '') line; rest = drop (length name) line
      in if is_app_name name \<and> has_prefix rest '' v'' \<and> is_version (drop 2 rest)
         then Some (name, drop 2 rest) else None)"

fun first_some :: "('a \<Rightarrow> 'b option) \<Rightarrow> 'a list \<Rightarrow> 'b option" where
  "first_some f [] = None"
| "first_some f (x # xs) = (case f x of None \<Rightarrow> first_some f xs | Some y \<Rightarrow> Some y)"

definition parseVersion :: "string \<Rightarrow> string + string \<times> string" where
  "parseVersion s =
     (case first_some match_line (split_on (CHR 0x0A) s) of
        None \<Rightarrow> Inl (''invalid version string: '' @ s)
      | Some m \<Rightarrow> Inr m)"

subsection \<open>Checking an executable\<close>

text \<open>
  What running \<open>path --version\<close> gave: the output and, if it failed, the text of the error and
  the exit status when the program ran and exited.
\<close>

record run_result =
  rr_output :: string
  rr_error :: "(string \<times> int option) option"

definition hasExitStatus :: "string \<times> int option \<Rightarrow> int \<Rightarrow> bool" where
  "hasExitStatus err exitStatus \<longleftrightarrow> snd err = Some exitStatus"

definition getExecutableVersion :: "(string \<Rightarrow> run_result) \<Rightarrow> string \<Rightarrow> string + string \<times> string" where
  "getExecutableVersion run path =
     (case rr_error (run path) of
        Some err \<Rightarrow>
          if \<not> hasExitStatus err 2
          then Inl (''error accessing '' @ path @ '': '' @ fst err @ [CHR 0x0A] @ rr_output (run path))
          else parseVersion (rr_output (run path))
      | None \<Rightarrow> parseVersion (rr_output (run path)))"

definition CheckExecutableVersionMatches ::
  "(string \<Rightarrow> run_result) \<Rightarrow> string \<Rightarrow> string \<Rightarrow> string \<Rightarrow> string option" where
  "CheckExecutableVersionMatches run path appName version =
     (case getExecutableVersion run path of
        Inl err \<Rightarrow> Some err
      | Inr (checkName, checkVersion) \<Rightarrow>
          if appName \<noteq> checkName then
            Some (''invalid app name: expected '' @ quoted appName @ '', got '' @ quoted checkName)
          else if version \<noteq> '''' \<and> version \<noteq> checkVersion then
            Some (''invalid version: expected '' @ quoted version @ '', got '' @ quoted checkVersion)
          else None)"

subsection \<open>Round trip\<close>

lemma name_char_not_blank: "is_name_char c \<Longrightarrow> c \<noteq> CHR '' '' \<and> c \<noteq> CHR 0x0A"
  by (auto simp: is_name_char_def)

lemma match_line_format:
  assumes "is_app_name name" and "is_version v"
  shows "match_line (formatVersion name v) = Some (name, v)"
proof -
  have "\<forall>c \<in> set name. c \<noteq> CHR '' ''"
    using assms(1) name_char_not_blank by (auto simp: is_app_name_def list_all_iff)
  then have "takeWhile (\<lambda>c. c \<noteq> CHR '' '') (name @ '' v'' @ v) = name"
    by (simp add: takeWhile_append)
  then show ?thesis
    using assms by (simp add: match_line_def formatVersion_def Let_def has_prefix_def)
qed

lemma split_on_absent: "c \<notin> set s \<Longrightarrow> split_on c s = [s]"
  by (induction s) auto

lemma version_no_newline:
  assumes "is_version v"
  shows "CHR 0x0A \<notin> set v"
proof
  assume "CHR 0x0A \<in> set v"
  then have "CHR 0x0A \<in> set (join_with ''.'' (split_on (CHR ''.'') v))" by (simp add: join_split)
  moreover have "set (join_with ''.'' ps) \<subseteq> {CHR ''.''} \<union> \<Union> (set ` set ps)" for ps
    by (induction ps rule: induct_list012) auto
  ultimately obtain p where "p \<in> set (split_on (CHR ''.'') v)" "CHR 0x0A \<in> set p" by fastforce
  then have "is_digit (CHR 0x0A)" using assms by (auto simp: is_version_def list_all_iff)
  then show False by (simp add: is_digit_def)
qed

lemma parse_format:
  assumes "is_app_name name" and "is_version v"
  shows "parseVersion (formatVersion name v) = Inr (name, v)"
    and "parseVersion (formatVersion name v @ [CHR 0x0A]) = Inr (name, v)"
proof -
  have "CHR 0x0A \<notin> set (formatVersion name v)"
    using version_no_newline [OF assms(2)] assms(1) name_char_not_blank
    by (auto simp: formatVersion_def is_app_name_def list_all_iff)
  then show "parseVersion (formatVersion name v) = Inr (name, v)"
    and "parseVersion (formatVersion name v @ [CHR 0x0A]) = Inr (name, v)"
    using match_line_format [OF assms]
    by (simp_all add: parseVersion_def split_on_absent split_on_append)
qed

text \<open>Lines before the version line that do not match are skipped.\<close>

lemma first_some_append:
  "first_some f (xs @ ys) = (case first_some f xs of None \<Rightarrow> first_some f ys | Some y \<Rightarrow> Some y)"
  by (induction xs) (auto split: option.splits)

lemma parse_after_lines:
  assumes "is_app_name name" and "is_version v"
    and "\<forall>l \<in> set (split_on (CHR 0x0A) pre). match_line l = None"
  shows "parseVersion (pre @ CHR 0x0A # formatVersion name v) = Inr (name, v)"
proof -
  have "first_some match_line ls = None" if "\<forall>l \<in> set ls. match_line l = None" for ls
    using that by (induction ls) auto
  moreover have "CHR 0x0A \<notin> set (formatVersion name v)"
    using version_no_newline [OF assms(2)] assms(1) name_char_not_blank
    by (auto simp: formatVersion_def is_app_name_def list_all_iff)
  ultimately show ?thesis
    using match_line_format [OF assms(1,2)] assms(3)
    by (simp add: parseVersion_def split_on_append split_on_absent first_some_append)
qed

lemma is_version_Version: "is_version Version"
  by (simp add: is_version_def Version_def is_digit_def)

text \<open>The check accepts what \<open>versionString\<close> prints, for this version or any.\<close>

lemma check_accepts:
  assumes "rr_error (run path) = None" and "rr_output (run path) = versionString appName @ [CHR 0x0A]"
    and "is_app_name appName" and "version = '''' \<or> version = Version"
  shows "CheckExecutableVersionMatches run path appName version = None"
proof -
  from parse_format(2) [OF assms(3) is_version_Version] show ?thesis
    using assms
    by (auto simp: CheckExecutableVersionMatches_def getExecutableVersion_def versionString_def)
qed

text \<open>What the pattern finds, and what the check accepts, for any output.\<close>

lemma match_line_iff:
  "match_line l = Some (name, v) \<longleftrightarrow> is_app_name name \<and> is_version v \<and> l = formatVersion name v"
proof
  assume m: "match_line l = Some (name, v)"
  let ?n = "takeWhile (\<lambda>c. c \<noteq> CHR '' '') l"
  have n: "name = ?n" "is_app_name ?n" "has_prefix (drop (length ?n) l) '' v''" "v = drop 2 (drop (length ?n) l)"
    "is_version v"
    using m by (auto simp: match_line_def Let_def split: if_splits)
  obtain t where t: "drop (length ?n) l = '' v'' @ t" using n(3) by (auto simp: has_prefix_iff)
  then have "v = t" using n(4) by simp
  moreover have "l = ?n @ drop (length ?n) l"
    by (metis append_take_drop_id takeWhile_eq_take)
  ultimately show "is_app_name name \<and> is_version v \<and> l = formatVersion name v"
    using n(1,2,5) t by (simp add: formatVersion_def)
next
  assume "is_app_name name \<and> is_version v \<and> l = formatVersion name v"
  then show "match_line l = Some (name, v)" using match_line_format by simp
qed

lemma first_some_iff:
  "first_some f xs = Some y \<longleftrightarrow> (\<exists>pre x post. xs = pre @ x # post \<and> f x = Some y \<and> (\<forall>z \<in> set pre. f z = None))"
proof (induction xs)
  case (Cons x xs)
  show ?case
  proof (cases "f x")
    case None
    have "(\<exists>pre z post. x # xs = pre @ z # post \<and> f z = Some y \<and> (\<forall>z \<in> set pre. f z = None)) \<longleftrightarrow>
      (\<exists>pre z post. xs = pre @ z # post \<and> f z = Some y \<and> (\<forall>z \<in> set pre. f z = None))" (is "?l = ?r")
    proof
      assume ?l
      then obtain pre z post where p: "x # xs = pre @ z # post" "f z = Some y" "\<forall>z \<in> set pre. f z = None" by blast
      then obtain pre' where "pre = x # pre'" using None by (cases pre) auto
      then show ?r using p by auto
    next
      assume ?r
      then obtain pre z post where p: "xs = pre @ z # post" "f z = Some y" "\<forall>z \<in> set pre. f z = None" by blast
      then show ?l using None by (intro exI [of _ "x # pre"] exI [of _ z] exI [of _ post]) simp
    qed
    then show ?thesis using Cons.IH None by simp
  next
    case (Some y')
    have "pre = []" if "x # xs = pre @ z # post" "\<forall>z \<in> set pre. f z = None" for pre z post
      using that Some by (cases pre) auto
    then have "(\<exists>pre z post. x # xs = pre @ z # post \<and> f z = Some y \<and> (\<forall>z \<in> set pre. f z = None)) \<longleftrightarrow> f x = Some y"
      by (metis append_Nil empty_iff empty_set list.inject)
    then show ?thesis using Some by simp
  qed
qed simp

definition version_line :: "string \<Rightarrow> bool" where
  "version_line l \<longleftrightarrow> (\<exists>name v. is_app_name name \<and> is_version v \<and> l = formatVersion name v)"

lemma version_line_iff: "version_line l \<longleftrightarrow> match_line l \<noteq> None"
  using match_line_iff [of l] by (auto simp: version_line_def)

lemma parseVersion_iff:
  "parseVersion s = Inr (name, v) \<longleftrightarrow> is_app_name name \<and> is_version v \<and>
    (\<exists>pre post. split_on (CHR 0x0A) s = pre @ formatVersion name v # post \<and> (\<forall>l \<in> set pre. \<not> version_line l))"
proof -
  have "parseVersion s = Inr (name, v) \<longleftrightarrow> first_some match_line (split_on (CHR 0x0A) s) = Some (name, v)"
    by (auto simp: parseVersion_def split: option.splits)
  then show ?thesis unfolding first_some_iff match_line_iff version_line_iff not_not by blast
qed

lemma check_iff:
  "CheckExecutableVersionMatches run path appName version = None \<longleftrightarrow>
    (case rr_error (run path) of None \<Rightarrow> True | Some err \<Rightarrow> snd err = Some 2) \<and>
    (\<exists>v. parseVersion (rr_output (run path)) = Inr (appName, v) \<and> (version = '''' \<or> version = v))"
  by (auto simp: CheckExecutableVersionMatches_def getExecutableVersion_def hasExitStatus_def
      split: sum.splits option.splits if_splits)

text \<open>Whatever is accepted printed a version line of the expected program.\<close>

lemma check_accepted:
  assumes "CheckExecutableVersionMatches run path appName version = None"
  shows "\<exists>v. parseVersion (rr_output (run path)) = Inr (appName, v) \<and> (version = '''' \<or> version = v)"
  using assms
  by (auto simp: CheckExecutableVersionMatches_def getExecutableVersion_def
      split: sum.splits option.splits if_splits)

end
