(* ===== verification/Automount.thy ===== *)
theory Automount
  imports Adbfs_Main Handlers Version
begin

text \<open>
  \<open>cmd/adbfs-automount/main.go\<close>: the loop that starts a mount process for every device that
  comes online, and \<open>mountDevice\<close>, the process itself, as the sequence of what it does to the
  outside. Which processes the tracker accepts is the subject of \<open>Process_Tracker\<close>.
\<close>

record automount_config =
  am_Base :: base_config
  am_MountRoot :: string
  am_PathToAdbfs :: string
  am_AllowAnyAdbfs :: bool
  am_OnMountHandlers :: "string list"
  am_OnUnmountHandlers :: "string list"

text \<open>
  \<open>initializeAdbfs\<close>: the path of adbfs is looked up when it is not given, and its version
  checked; \<^term>\<open>Inl\<close> is a fatal error.
\<close>

definition initializeAdbfs ::
  "(string \<Rightarrow> string + string) \<Rightarrow> (string \<Rightarrow> run_result) \<Rightarrow> automount_config \<Rightarrow> string + automount_config" where
  "initializeAdbfs lookPath run c =
     (case (if am_PathToAdbfs c = '''' then lookPath ''adbfs'' else Inr (am_PathToAdbfs c)) of
        Inl err \<Rightarrow> Inl (''couldn'' @ [CHR 0x27] @ ''t find adbfs executable in PATH:'' @ err)
      | Inr path \<Rightarrow>
          let expectedVersion = (if am_AllowAnyAdbfs c then '''' else Version) in
          (case CheckExecutableVersionMatches run path ''adbfs'' expectedVersion of
             Some err \<Rightarrow> Inl err
           | None \<Rightarrow> Inr (c\<lparr>am_PathToAdbfs := path\<rparr>)))"

lemma initializeAdbfs_checked:
  assumes "initializeAdbfs lookPath run c = Inr c'"
  shows "\<exists>v. parseVersion (rr_output (run (am_PathToAdbfs c'))) = Inr (''adbfs'', v) \<and>
    (am_AllowAnyAdbfs c \<or> v = Version)"
proof -
  obtain path where p: "am_PathToAdbfs c' = path"
    and "CheckExecutableVersionMatches run path ''adbfs'' (if am_AllowAnyAdbfs c then '''' else Version) = None"
    using assms by (auto simp: initializeAdbfs_def Let_def split: sum.splits option.splits)
  from check_accepted [OF this(2)] show ?thesis
    unfolding p by (auto simp: Version_def split: if_splits)
qed

subsection \<open>The event loop\<close>

datatype automount_event = DeviceEvent device_event | WatcherClosed | Signalled os_signal

text \<open>
  The serials for which \<open>processes.Go\<close> is called, in order, and the exit code once the loop
  ends.
\<close>

fun automount_loop :: "automount_event list \<Rightarrow> string list \<times> int option" where
  "automount_loop [] = ([], None)"
| "automount_loop (e # es) =
     (case e of
        WatcherClosed \<Rightarrow> ([], Some 1)
      | DeviceEvent ev \<Rightarrow>
          (case automount_loop es of (started, code) \<Rightarrow>
             (if ev_CameOnline ev then ev_Serial ev # started else started, code))
      | Signalled sig \<Rightarrow>
          if sig = Kill \<or> sig = Interrupt then ([], Some 0) else automount_loop es)"

lemma automount_loop_started:
  assumes "snd (automount_loop es) = None"
  shows "fst (automount_loop es) =
    concat (map (\<lambda>e. case e of DeviceEvent ev \<Rightarrow> if ev_CameOnline ev then [ev_Serial ev] else [] | _ \<Rightarrow> []) es)"
  using assms by (induction es) (auto split: automount_event.splits prod.splits if_splits)

text \<open>\<open>InitializePaths\<close>: the mount root, then the path of adbfs; \<^term>\<open>None\<close> is a fatal error.\<close>

definition InitializePaths ::
  "'h host \<Rightarrow> string option \<Rightarrow> string \<Rightarrow> (string \<Rightarrow> string + string) \<Rightarrow> (string \<Rightarrow> run_result) \<Rightarrow>
   automount_config \<Rightarrow> 'h \<Rightarrow> automount_config option" where
  "InitializePaths os homeDir goos lookPath run c h =
     (case initializeMountRoot os homeDir goos (am_MountRoot c) h of
        None \<Rightarrow> None
      | Some root \<Rightarrow>
          (case initializeAdbfs lookPath run (c\<lparr>am_MountRoot := root\<rparr>) of
             Inl err \<Rightarrow> None
           | Inr c' \<Rightarrow> Some c'))"

text \<open>
  \<open>mainWithExitCode\<close> once the paths are known: the serials given to the tracker, and the exit
  code. The deferred shutdown of the tracker runs before the code is returned, whichever it is.
\<close>

definition mainWithExitCode :: "string option \<Rightarrow> automount_event list \<Rightarrow> string list \<times> int option" where
  "mainWithExitCode serverError events =
     (case serverError of Some err \<Rightarrow> ([], Some 1) | None \<Rightarrow> automount_loop events)"

text \<open>Why it ended: the server or the watcher failed, or there was a signal; no other code.\<close>

lemma automount_loop_code:
  "snd (automount_loop es) = Some code \<Longrightarrow>
   (code = 1 \<and> WatcherClosed \<in> set es) \<or>
   (code = 0 \<and> (Signalled Kill \<in> set es \<or> Signalled Interrupt \<in> set es))"
  by (induction es) (auto split: automount_event.splits prod.splits if_splits)

lemma automount_loop_serials:
  "serial \<in> set (fst (automount_loop es)) \<Longrightarrow>
   \<exists>ev. DeviceEvent ev \<in> set es \<and> ev_CameOnline ev \<and> ev_Serial ev = serial"
  by (induction es) (fastforce split: automount_event.splits prod.splits if_splits)+

lemma InitializePaths_checked:
  assumes "InitializePaths os homeDir goos lookPath run c h = Some c'"
  shows "os_Stat os (am_MountRoot c') h = Inr True \<and>
    (\<exists>v. parseVersion (rr_output (run (am_PathToAdbfs c'))) = Inr (''adbfs'', v) \<and>
      (am_AllowAnyAdbfs c \<or> v = Version))"
proof -
  obtain root where r: "initializeMountRoot os homeDir goos (am_MountRoot c) h = Some root"
    and a: "initializeAdbfs lookPath run (c\<lparr>am_MountRoot := root\<rparr>) = Inr c'"
    using assms by (auto simp: InitializePaths_def split: option.splits sum.splits)
  have "am_MountRoot c' = root"
    using a by (auto simp: initializeAdbfs_def Let_def split: sum.splits option.splits)
  then show ?thesis
    using initializeMountRoot_dir [OF r] initializeAdbfs_checked [OF a] by simp
qed

subsection \<open>One device\<close>

text \<open>\<open>RemoveLoggingError\<close>: the error is logged and dropped.\<close>

definition RemoveLoggingError :: "'h host \<Rightarrow> string \<Rightarrow> 'h \<Rightarrow> host_error option \<times> 'h" where
  "RemoveLoggingError os path h = (case os_Remove os path h of (err, h') \<Rightarrow> (err, h'))"

datatype mount_action =
    MadeDirectory string
  | StartedProcess exec_cmd
  | FiredOnMount "handler_run list"
  | ProcessExited
  | FiredOnUnmount "handler_run list"
  | RemovedDirectory string

text \<open>What the calls of \<open>mountDevice\<close> give: the device information and the error of the start.\<close>

record device_env =
  de_info :: "string + device_info"
  de_start_error :: "exec_cmd \<Rightarrow> string option"
  de_environ :: "string list"

definition mountDevice ::
  "'h host \<Rightarrow> device_env \<Rightarrow> automount_config \<Rightarrow> string \<Rightarrow> 'h \<Rightarrow> mount_action list \<times> 'h" where
  "mountDevice os env config serial h =
     (case de_info env of
        Inl err \<Rightarrow> ([], h)
      | Inr info \<Rightarrow>
          (case NewMountpointForDevice os info (am_MountRoot config) h of
             (mountpoint, Some err, h1) \<Rightarrow> ([], h1)
           | (mountpoint, None, h1) \<Rightarrow>
               let cmd = NewMountProcess (am_PathToAdbfs config)
                     \<lparr>ac_Base = am_Base config, ac_DeviceSerial = serial, ac_Mountpoint = mountpoint\<rparr>;
                   binding = [(PathHandlerVar, mountpoint), (SerialHandlerVar, serial), (ModelHandlerVar, di_Model info)];
                   mounted = (case de_start_error env cmd of
                       Some err \<Rightarrow> []
                     | None \<Rightarrow>
                         [StartedProcess cmd,
                          FiredOnMount (FireHandlers (de_environ env) (am_OnMountHandlers config) binding),
                          ProcessExited,
                          FiredOnUnmount (FireHandlers (de_environ env) (am_OnUnmountHandlers config) binding)])
               in (MadeDirectory mountpoint # mounted @ [RemovedDirectory mountpoint],
                   snd (RemoveLoggingError os mountpoint h1))))"

text \<open>
  Everything a mount process does is for one directory: a fresh child of the mount root, made by
  a \<open>Mkdir\<close> that succeeded, removed last. In between, if the process starts, it is adbfs on that
  directory for this device, and the two sets of handlers run around it with the same variables.
\<close>

definition mount_binding :: "string \<Rightarrow> string \<Rightarrow> device_info \<Rightarrow> (string \<times> string) list" where
  "mount_binding mp serial info =
     [(PathHandlerVar, mp), (SerialHandlerVar, serial), (ModelHandlerVar, di_Model info)]"

definition mounts_on ::
  "device_env \<Rightarrow> automount_config \<Rightarrow> string \<Rightarrow> string \<Rightarrow> mount_action list \<Rightarrow> bool" where
  "mounts_on env config serial mp as \<longleftrightarrow>
     (\<exists>info cmd. de_info env = Inr info \<and> cmd_Path cmd = am_PathToAdbfs config \<and>
       flag_text ''mountpoint'' (process_arguments cmd) = Some mp \<and>
       flag_text ''device'' (process_arguments cmd) = Some serial \<and>
       flag_bool ''readonly'' (process_arguments cmd) = Some (bc_ReadOnly (am_Base config)) \<and>
       as = (if de_start_error env cmd \<noteq> None then []
         else
          [StartedProcess cmd,
           FiredOnMount (FireHandlers (de_environ env) (am_OnMountHandlers config) (mount_binding mp serial info)),
           ProcessExited,
           FiredOnUnmount (FireHandlers (de_environ env) (am_OnUnmountHandlers config) (mount_binding mp serial info))]))"

text \<open>Nothing is done only when the device gave no information or there was no directory.\<close>

definition no_mountpoint :: "'h host \<Rightarrow> device_env \<Rightarrow> automount_config \<Rightarrow> 'h \<Rightarrow> bool" where
  "no_mountpoint os env config h \<longleftrightarrow>
     (\<forall>info. de_info env = Inr info \<longrightarrow> fst (snd (NewMountpointForDevice os info (am_MountRoot config) h)) \<noteq> None)"

lemma mountDevice_trace:
  assumes "list_all normal_elem ms" and "am_MountRoot config = abs_path ms"
    and "mountDevice os env config serial h = (as, h')"
  shows "as = [] \<and> no_mountpoint os env config h \<or>
    (\<exists>n body h1. normal_elem n \<and> os_Mkdir os (abs_path (ms @ [n])) MountpointPerm h = (None, h1) \<and>
      as = MadeDirectory (abs_path (ms @ [n])) # body @ [RemovedDirectory (abs_path (ms @ [n]))] \<and>
      mounts_on env config serial (abs_path (ms @ [n])) body \<and>
      h' = snd (os_Remove os (abs_path (ms @ [n])) h1))"
proof (cases "de_info env")
  case (Inl err)
  then show ?thesis using assms(3) by (simp add: mountDevice_def no_mountpoint_def)
next
  case (Inr info)
  obtain mp err h1 where n: "NewMountpointForDevice os info (am_MountRoot config) h = (mp, err, h1)"
    using prod_cases3 by blast
  let ?n = "buildDirNameForDevice info"
  have mp: "mp = abs_path (ms @ [?n])"
    using mountpoint_child [OF assms(1), of os info h] n assms(2) by simp
  show ?thesis
  proof (cases err)
    case (Some e)
    then show ?thesis using assms(3) Inr n by (simp add: mountDevice_def no_mountpoint_def)
  next
    case None
    have mk: "os_Mkdir os mp MountpointPerm h = (None, h1)"
      using n None by (auto simp: NewMountpointForDevice_def Let_def split: if_splits prod.splits)
    let ?cmd = "NewMountProcess (am_PathToAdbfs config)
        \<lparr>ac_Base = am_Base config, ac_DeviceSerial = serial, ac_Mountpoint = mp\<rparr>"
    define body where "body = (if de_start_error env ?cmd \<noteq> None then [] else
        [StartedProcess ?cmd,
         FiredOnMount (FireHandlers (de_environ env) (am_OnMountHandlers config) (mount_binding mp serial info)),
         ProcessExited,
         FiredOnUnmount (FireHandlers (de_environ env) (am_OnUnmountHandlers config) (mount_binding mp serial info))])"
    have "as = MadeDirectory mp # body @ [RemovedDirectory mp]" "h' = snd (os_Remove os mp h1)"
      using assms(3) Inr n None
      by (cases "de_start_error env ?cmd"; cases "os_Remove os mp h1";
          simp add: mountDevice_def Let_def body_def mount_binding_def RemoveLoggingError_def; fail)+
    moreover have "mounts_on env config serial mp body"
      unfolding mounts_on_def body_def
      using Inr mount_process_other [of "''mountpoint''"] mount_process_other [of "''device''"]
      by (intro exI [of _ info] exI [of _ ?cmd])
        (simp add: adbfs_AsArgs_text mount_process_bool, simp add: NewMountProcess_def)
    ultimately show ?thesis using dir_name_normal [of info] mk unfolding mp by blast
  qed
qed

end
