(* ===== verification/Process_Tracker.thy ===== *)
theory Process_Tracker
  imports Prelude "HOL-Library.Multiset"
begin

text \<open>
  \<open>ProcessTracker\<close> of \<open>internal/cli/process_tracker.go\<close>: at most one goroutine for each key,
  and a shutdown that waits for all of them. \<open>Go\<close> reads the base context before it takes the
  lock, so it is two steps; the rest of it, \<open>sweep\<close> and the end of a process are one step each.
  A process gets a number; its context is done when it was cancelled itself or the base context
  was. The steps of a process end when its function returns; a running function may return at any
  time, and nothing forces it to. The wait group is its counter: that \<open>Add\<close> must not run
  concurrently with \<open>Wait\<close> when the counter is zero, which a late \<open>Go\<close> can do, is not modelled.
\<close>

datatype stage = Running | Sweeping

record tracker =
  tr_done :: bool
  tr_byKey :: "string \<Rightarrow> nat option"
  tr_waiting :: int
  tr_cancelled :: "nat set"
  tr_next :: nat
  tr_callers :: "string multiset"
  tr_procs :: "nat \<Rightarrow> (string \<times> stage) option"

definition NewProcessTracker :: tracker where
  "NewProcessTracker =
     \<lparr>tr_done = False, tr_byKey = Map.empty, tr_waiting = 0, tr_cancelled = {}, tr_next = 0,
      tr_callers = {#}, tr_procs = Map.empty\<rparr>"

text \<open>\<open>isContextAlreadyDone\<close> of the context of process \<open>i\<close>.\<close>

definition context_done :: "nat \<Rightarrow> tracker \<Rightarrow> bool" where
  "context_done i t \<longleftrightarrow> tr_done t \<or> i \<in> tr_cancelled t"

text \<open>\<open>Go\<close>: the check before the lock, and the part under the lock; an error text or the state.\<close>

definition Go_check :: "string \<Rightarrow> tracker \<Rightarrow> string + tracker" where
  "Go_check key t =
     (if tr_done t then Inl ''process tracker has been shutdown''
      else Inr (t\<lparr>tr_callers := add_mset key (tr_callers t)\<rparr>))"

definition Go_locked :: "string \<Rightarrow> tracker \<Rightarrow> (string + nat) \<times> tracker" where
  "Go_locked key t =
     (let t1 = t\<lparr>tr_callers := tr_callers t - {#key#}\<rparr> in
      case tr_byKey t key of
        Some _ \<Rightarrow> (Inl (''process already running for key '' @ key), t1)
      | None \<Rightarrow>
          let i = tr_next t in
          (Inr i, t1\<lparr>tr_byKey := (tr_byKey t)(key \<mapsto> i), tr_waiting := tr_waiting t + 1,
             tr_next := Suc i, tr_procs := (tr_procs t)(i \<mapsto> (key, Running))\<rparr>))"

text \<open>The process function has returned: its context is cancelled, the deferred sweep is next.\<close>

definition process_return :: "nat \<Rightarrow> string \<Rightarrow> tracker \<Rightarrow> tracker" where
  "process_return i key t =
     t\<lparr>tr_cancelled := insert i (tr_cancelled t), tr_procs := (tr_procs t)(i \<mapsto> (key, Sweeping))\<rparr>"

text \<open>\<open>sweep\<close>; a \<open>WaitGroup\<close> panics when its counter goes below 0.\<close>

definition sweep :: "string \<Rightarrow> tracker \<Rightarrow> tracker go" where
  "sweep key t =
     (case tr_byKey t key of
        None \<Rightarrow> Return t
      | Some i \<Rightarrow>
          if \<not> context_done i t then Panic ''trying to sweep process before it is done''
          else if tr_waiting t - 1 < 0 then Panic ''sync: negative WaitGroup counter''
          else Return (t\<lparr>tr_byKey := (tr_byKey t)(key := None), tr_waiting := tr_waiting t - 1\<rparr>))"

text \<open>\<open>Shutdown\<close> cancels the base context, then waits until the counter is 0.\<close>

definition Shutdown_cancel :: "tracker \<Rightarrow> tracker" where
  "Shutdown_cancel t = t\<lparr>tr_done := True\<rparr>"

definition Shutdown_wait :: "tracker \<Rightarrow> tracker go" where
  "Shutdown_wait t = (if tr_waiting t = 0 then Return t else Blocked)"

subsection \<open>Steps\<close>

inductive tracker_step :: "tracker \<Rightarrow> tracker \<Rightarrow> bool" where
  check: "Go_check key t = Inr t' \<Longrightarrow> tracker_step t t'"
| locked: "key \<in># tr_callers t \<Longrightarrow> Go_locked key t = (r, t') \<Longrightarrow> tracker_step t t'"
| returned: "tr_procs t i = Some (key, Running) \<Longrightarrow> tracker_step t (process_return i key t)"
| swept: "tr_procs t i = Some (key, Sweeping) \<Longrightarrow> sweep key t = Return t' \<Longrightarrow>
    tracker_step t (t'\<lparr>tr_procs := (tr_procs t')(i := None)\<rparr>)"
| shutdown: "tracker_step t (Shutdown_cancel t)"

inductive tracker_reachable :: "tracker \<Rightarrow> bool" where
  tracker_init: "tracker_reachable NewProcessTracker"
| tracker_next: "tracker_reachable t \<Longrightarrow> tracker_step t t' \<Longrightarrow> tracker_reachable t'"

subsection \<open>The map, the counter and the goroutines agree\<close>

definition tracked :: "tracker \<Rightarrow> bool" where
  "tracked t \<longleftrightarrow>
     finite (dom (tr_byKey t)) \<and> tr_waiting t = int (card (dom (tr_byKey t))) \<and>
     (\<forall>key i. tr_byKey t key = Some i \<longleftrightarrow> (\<exists>st. tr_procs t i = Some (key, st))) \<and>
     (\<forall>i key. tr_procs t i = Some (key, Sweeping) \<longrightarrow> i \<in> tr_cancelled t) \<and>
     (\<forall>i \<ge> tr_next t. tr_procs t i = None)"

lemma tracked_byKey:
  "tracked t \<Longrightarrow> tr_procs t i = Some (key, st) \<Longrightarrow> tr_byKey t key = Some i"
  by (auto simp: tracked_def)

lemma tracked_card:
  assumes "tracked t" and "tr_byKey t key = Some i"
  shows "0 < tr_waiting t"
  using assms by (auto simp: tracked_def card_gt_0_iff)

text \<open>Sweeping a process whose function has returned never panics, and takes it off the map.\<close>

lemma sweep_Return:
  assumes "tracked t" and "tr_procs t i = Some (key, Sweeping)"
  shows "sweep key t = Return
    (t\<lparr>tr_byKey := (tr_byKey t)(key := None), tr_waiting := tr_waiting t - 1\<rparr>)"
proof -
  have k: "tr_byKey t key = Some i" using assms by (rule tracked_byKey)
  moreover have "i \<in> tr_cancelled t" using assms by (auto simp: tracked_def)
  ultimately show ?thesis
    using tracked_card [OF assms(1) k] by (simp add: sweep_def context_done_def)
qed

lemma tracked_locked:
  assumes "tracked t" and "Go_locked key t = (r, t')"
  shows "tracked t'"
proof (cases "tr_byKey t key")
  case (Some i)
  then show ?thesis using assms by (auto simp: Go_locked_def Let_def tracked_def)
next
  case None
  have t': "t' = t\<lparr>tr_callers := tr_callers t - {#key#}, tr_byKey := (tr_byKey t)(key \<mapsto> tr_next t),
      tr_waiting := tr_waiting t + 1, tr_next := Suc (tr_next t),
      tr_procs := (tr_procs t)(tr_next t \<mapsto> (key, Running))\<rparr>"
    using assms(2) None by (auto simp: Go_locked_def Let_def)
  have f: "finite (dom (tr_byKey t))" and w: "tr_waiting t = int (card (dom (tr_byKey t)))"
    and m: "\<And>k i. tr_byKey t k = Some i \<longleftrightarrow> (\<exists>st. tr_procs t i = Some (k, st))"
    and c: "\<And>i k. tr_procs t i = Some (k, Sweeping) \<Longrightarrow> i \<in> tr_cancelled t"
    and n: "\<And>i. i \<ge> tr_next t \<Longrightarrow> tr_procs t i = None"
    using assms(1) by (auto simp: tracked_def)
  have "key \<notin> dom (tr_byKey t)" using None by auto
  then have w': "tr_waiting t + 1 = int (card (insert key (dom (tr_byKey t))))" using f w by simp
  have "tr_procs t i \<noteq> Some (key, st)" for i st using m [of key i] None by auto
  moreover have "tr_byKey t k \<noteq> Some (tr_next t)" for k using m [of k "tr_next t"] n [of "tr_next t"] by auto
  ultimately show ?thesis
    unfolding tracked_def t' using f w' m n by simp (blast intro: c)
qed

lemma tracked_return:
  assumes "tracked t" and "tr_procs t i = Some (key, Running)"
  shows "tracked (process_return i key t)"
proof -
  have "tr_byKey t key = Some i" using assms by (rule tracked_byKey)
  moreover have "i < tr_next t" using assms by (metis linorder_not_less option.distinct(1) tracked_def)
  ultimately show ?thesis
    using assms by (auto simp: tracked_def process_return_def)
qed

lemma tracked_sweep:
  assumes "tracked t" and "tr_procs t i = Some (key, Sweeping)"
  shows "tracked (t\<lparr>tr_byKey := (tr_byKey t)(key := None), tr_waiting := tr_waiting t - 1,
    tr_procs := (tr_procs t)(i := None)\<rparr>)"
proof -
  have k: "tr_byKey t key = Some i" using assms by (rule tracked_byKey)
  have f: "finite (dom (tr_byKey t))" and w: "tr_waiting t = int (card (dom (tr_byKey t)))"
    and m: "\<And>k i. tr_byKey t k = Some i \<longleftrightarrow> (\<exists>st. tr_procs t i = Some (k, st))"
    using assms(1) by (auto simp: tracked_def)
  have w': "tr_waiting t - 1 = int (card (dom (tr_byKey t) - {key}))"
    using f w k tracked_card [OF assms(1) k] by (auto simp: card_Diff_singleton of_nat_diff domI)
  have 1: "k = key" if "tr_byKey t k = Some i" for k
    using that assms(2) unfolding m by simp
  have 2: "j = i" if "tr_procs t j = Some (key, st)" for j st
  proof -
    have "tr_byKey t key = Some j" unfolding m using that by blast
    then show ?thesis using k by simp
  qed
  have iff: "((tr_byKey t)(key := None)) k = Some j \<longleftrightarrow>
      (\<exists>st. ((tr_procs t)(i := None)) j = Some (k, st))" for k j
  proof (cases "j = i")
    case True
    then show ?thesis using 1 [of k] by auto
  next
    case j: False
    show ?thesis
    proof (cases "k = key")
      case True
      then show ?thesis using 2 [of j] j by auto
    next
      case False
      then show ?thesis using m [of k j] j by simp
    qed
  qed
  show ?thesis
    unfolding tracked_def
  proof (intro conjI allI impI)
    show "finite (dom (tr_byKey (t\<lparr>tr_byKey := (tr_byKey t)(key := None), tr_waiting := tr_waiting t - 1,
        tr_procs := (tr_procs t)(i := None)\<rparr>)))" using f by simp
  next
    show "tr_waiting (t\<lparr>tr_byKey := (tr_byKey t)(key := None), tr_waiting := tr_waiting t - 1,
        tr_procs := (tr_procs t)(i := None)\<rparr>) = int (card (dom (tr_byKey
        (t\<lparr>tr_byKey := (tr_byKey t)(key := None), tr_waiting := tr_waiting t - 1,
          tr_procs := (tr_procs t)(i := None)\<rparr>))))" using w' by simp
  qed (use assms(1) iff in \<open>simp_all add: tracked_def split: if_splits\<close>)
qed

lemma tracked_step: "tracker_step t t' \<Longrightarrow> tracked t \<Longrightarrow> tracked t'"
proof (induction rule: tracker_step.induct)
  case (check key t t')
  then show ?case by (auto simp: Go_check_def tracked_def split: if_splits)
next
  case (locked key t r t')
  then show ?case using tracked_locked by blast
next
  case (returned t i key)
  then show ?case using tracked_return by blast
next
  case (swept t i key t')
  then show ?case using tracked_sweep [of t i key] sweep_Return [of t i key] by auto
next
  case (shutdown t)
  then show ?case by (auto simp: Shutdown_cancel_def tracked_def)
qed

lemma reachable_tracked: "tracker_reachable t \<Longrightarrow> tracked t"
proof (induction rule: tracker_reachable.induct)
  case tracker_init
  then show ?case by (simp add: NewProcessTracker_def tracked_def)
next
  case (tracker_next t t')
  then show ?case using tracked_step by blast
qed

subsection \<open>Shutting down\<close>

text \<open>The wait ends exactly when no process is left.\<close>

lemma Shutdown_wait_iff:
  assumes "tracked t"
  shows "Shutdown_wait t = Return t \<longleftrightarrow> tr_procs t = Map.empty"
proof -
  have "tr_waiting t = 0 \<longleftrightarrow> tr_byKey t = Map.empty"
    using assms by (auto simp: tracked_def)
  also have "\<dots> \<longleftrightarrow> tr_procs t = Map.empty"
  proof
    assume e: "tr_byKey t = Map.empty"
    have "tr_procs t i = None" for i
      using tracked_byKey [OF assms] e by (metis eq_snd_iff not_None_eq option.distinct(1))
    then show "tr_procs t = Map.empty" by (simp add: fun_eq_iff)
  next
    assume "tr_procs t = Map.empty"
    then show "tr_byKey t = Map.empty"
      using assms by (auto simp: tracked_def fun_eq_iff)
  qed
  finally show ?thesis by (simp add: Shutdown_wait_def)
qed

subsection \<open>Shutdown ends\<close>

text \<open>How many steps are left at most: a process that runs has to return and to be swept, a caller
of \<open>Go\<close> that passed the check can still start one.\<close>

definition stage_work :: "(string \<times> stage) option \<Rightarrow> nat" where
  "stage_work p = (case p of None \<Rightarrow> 0 | Some (_, Running) \<Rightarrow> 2 | Some (_, Sweeping) \<Rightarrow> 1)"

definition work_left :: "tracker \<Rightarrow> nat" where
  "work_left t = 3 * size (tr_callers t) + (\<Sum>i < tr_next t. stage_work (tr_procs t i))"

lemma stage_work_simps [simp]:
  "stage_work None = 0" "stage_work (Some (key, Running)) = 2" "stage_work (Some (key, Sweeping)) = 1"
  by (simp_all add: stage_work_def)

lemma sum_one_less:
  fixes f g :: "nat \<Rightarrow> nat"
  assumes "i < n" and "g i < f i" and "\<And>j. j \<noteq> i \<Longrightarrow> g j = f j"
  shows "(\<Sum>j < n. g j) < (\<Sum>j < n. f j)"
proof -
  have "g j \<le> f j" for j using assms(2,3) by (cases "j = i") (auto intro: less_imp_le)
  then show ?thesis using assms(1,2) by (intro sum_strict_mono_ex1) auto
qed

lemma work_left_locked:
  assumes "key \<in># tr_callers t" and "Go_locked key t = (r, t')"
  shows "work_left t' < work_left t"
proof -
  have c: "size (tr_callers t) = Suc (size (tr_callers t - {#key#}))"
    using insert_DiffM [OF assms(1)] size_add_mset [of key "tr_callers t - {#key#}"] by simp
  show ?thesis
  proof (cases "tr_byKey t key")
    case (Some i)
    then show ?thesis using assms(2) c by (auto simp: Go_locked_def work_left_def Let_def)
  next
    case None
    then have t': "tr_callers t' = tr_callers t - {#key#}" "tr_next t' = Suc (tr_next t)"
      "tr_procs t' = (tr_procs t)(tr_next t \<mapsto> (key, Running))"
      using assms(2) by (auto simp: Go_locked_def Let_def)
    show ?thesis by (simp add: work_left_def t' c)
  qed
qed

lemma work_left_stage:
  assumes "tracked t" and "tr_procs t i = Some p" and "stage_work q < stage_work (Some p)"
    and "tr_callers t' = tr_callers t" and "tr_next t' = tr_next t" and "tr_procs t' = (tr_procs t)(i := q)"
  shows "work_left t' < work_left t"
proof -
  have "i < tr_next t" using assms(1,2) by (metis linorder_not_less option.distinct(1) tracked_def)
  then have "(\<Sum>j < tr_next t. stage_work (tr_procs t' j)) < (\<Sum>j < tr_next t. stage_work (tr_procs t j))"
    by (rule sum_one_less [of i]) (use assms in simp_all)
  then show ?thesis by (simp add: work_left_def assms(4,5))
qed

text \<open>After the base context is cancelled every step that changes anything leaves less to do.\<close>

lemma step_after_shutdown:
  assumes "tracker_step t t'" and "tracked t" and "tr_done t"
  shows "t' = t \<or> work_left t' < work_left t"
  using assms
proof (induction rule: tracker_step.induct)
  case (check key t t')
  then show ?case by (simp add: Go_check_def)
next
  case (locked key t r t')
  then show ?case using work_left_locked by blast
next
  case (returned t i key)
  have "work_left (process_return i key t) < work_left t"
    by (rule work_left_stage [OF returned(2,1), of "Some (key, Sweeping)"]) (simp_all add: process_return_def)
  then show ?case ..
next
  case (swept t i key t')
  have "work_left (t'\<lparr>tr_procs := (tr_procs t')(i := None)\<rparr>) < work_left t"
    by (rule work_left_stage [OF swept(3,1), of None])
      (use swept(2) sweep_Return [OF swept(3,1)] in auto)
  then show ?case ..
next
  case (shutdown t)
  then show ?case by (simp add: Shutdown_cancel_def)
qed

text \<open>A state that no step changes has no process left.\<close>

lemma quiet_has_no_process:
  assumes "tracked t" and "\<And>t'. tracker_step t t' \<Longrightarrow> t' = t"
  shows "tr_procs t = Map.empty"
proof (rule ccontr)
  assume "tr_procs t \<noteq> Map.empty"
  then obtain i key st where p: "tr_procs t i = Some (key, st)" by (metis ext old.prod.exhaust option.exhaust)
  show False
  proof (cases st)
    case Running
    then have "process_return i key t = t" using assms(2) returned p by blast
    then have "tr_procs (process_return i key t) i = tr_procs t i" by simp
    then show False using p Running by (simp add: process_return_def)
  next
    case Sweeping
    let ?t' = "t\<lparr>tr_byKey := (tr_byKey t)(key := None), tr_waiting := tr_waiting t - 1\<rparr>"
    have "?t'\<lparr>tr_procs := (tr_procs ?t')(i := None)\<rparr> = t"
      using assms(2) swept [OF p [unfolded Sweeping] sweep_Return [OF assms(1) p [unfolded Sweeping]]] by blast
    then have "tr_procs (?t'\<lparr>tr_procs := (tr_procs ?t')(i := None)\<rparr>) i = tr_procs t i" by simp
    then show False using p by simp
  qed
qed

text \<open>A caller that passed the check before the shutdown starts a process after it has ended.\<close>

lemma started_after_shutdown:
  "\<exists>t t' i. tracker_reachable t \<and> tr_done t \<and> Shutdown_wait t = Return t \<and> tracker_step t t' \<and>
     tr_procs t' i = Some (key, Running)"
proof -
  let ?t1 = "NewProcessTracker\<lparr>tr_callers := {#key#}\<rparr>"
  let ?t2 = "Shutdown_cancel ?t1"
  have 1: "tracker_reachable ?t1"
    by (rule tracker_next [OF tracker_init check [of key]]) (simp add: Go_check_def NewProcessTracker_def)
  have 2: "tracker_reachable ?t2" by (rule tracker_next [OF 1 shutdown])
  have 3: "tr_done ?t2" "Shutdown_wait ?t2 = Return ?t2"
    by (simp_all add: Shutdown_cancel_def Shutdown_wait_def NewProcessTracker_def)
  obtain r t3 where g: "Go_locked key ?t2 = (r, t3)" by fastforce
  have "tracker_step ?t2 t3" by (rule locked [OF _ g]) (simp add: Shutdown_cancel_def)
  moreover have "tr_procs t3 0 = Some (key, Running)"
    using g by (auto simp: Go_locked_def Shutdown_cancel_def NewProcessTracker_def Let_def)
  ultimately show ?thesis using 2 3 by blast
qed

end
