(* ===== verification/Registration.thy ===== *)
theory Registration
  imports Command_Line
begin

text \<open>
  The flags the two programs register with kingpin (\<open>registerBaseFlags\<close> of \<open>base_config.go\<close>,
  \<open>RegisterAdbfsFlags\<close> of \<open>adbfs_config.go\<close>, \<open>RegisterAutomountFlags\<close> of
  \<open>automount_config.go\<close>), in the order of the code, and that the arguments \<open>AsArgs\<close> makes set
  each flag of adbfs once. Help texts and place holders are left out; the port adb uses by
  default is goadb's, an argument.
\<close>

subsection \<open>Registering the flags\<close>

record flag_spec =
  fl_Name :: string
  fl_Short :: "char option"
  fl_Default :: "string option"
  fl_Required :: bool
  fl_Hidden :: bool

definition Flag :: "string \<Rightarrow> flag_spec" where
  "Flag name = \<lparr>fl_Name = name, fl_Short = None, fl_Default = None, fl_Required = False, fl_Hidden = False\<rparr>"

text \<open>The defaults of \<open>base_config.go\<close>; durations are nanoseconds.\<close>

definition DefaultPoolSize :: int where
  "DefaultPoolSize = 2"

definition DefaultCacheTtl :: int where
  "DefaultCacheTtl = 300 * 10 ^ 6"

definition DefaultLogLevel :: string where
  "DefaultLogLevel = ''info''"

definition base_flags :: "int \<Rightarrow> flag_spec list" where
  "base_flags adbPort =
     [(Flag ''port'')\<lparr>fl_Default := Some (itoa adbPort)\<rparr>,
      (Flag ''pool'')\<lparr>fl_Default := Some (itoa DefaultPoolSize)\<rparr>,
      (Flag ''cachettl'')\<lparr>fl_Default := Some (show_duration DefaultCacheTtl)\<rparr>,
      Flag ''debug'',
      (Flag ''device-root'')\<lparr>fl_Default := Some ''/sdcard''\<rparr>,
      (Flag ''readonly'')\<lparr>fl_Short := Some (CHR ''r''), fl_Default := Some ''true''\<rparr>,
      Flag ''adb'',
      (Flag ''log'')\<lparr>fl_Default := Some DefaultLogLevel\<rparr>,
      (Flag ''verbose'')\<lparr>fl_Short := Some (CHR ''v'')\<rparr>]"

definition adbfs_flags :: "int \<Rightarrow> flag_spec list" where
  "adbfs_flags adbPort =
     base_flags adbPort @
     [(Flag ''device'')\<lparr>fl_Short := Some (CHR ''s''), fl_Required := True\<rparr>,
      (Flag ''mountpoint'')\<lparr>fl_Required := True\<rparr>]"

definition automount_flags :: "int \<Rightarrow> flag_spec list" where
  "automount_flags adbPort =
     base_flags adbPort @
     [(Flag ''root'')\<lparr>fl_Short := Some (CHR ''r'')\<rparr>,
      Flag ''adbfs'',
      (Flag ''disable-adbfs-verify'')\<lparr>fl_Hidden := True\<rparr>,
      Flag ''on-mount'',
      Flag ''on-unmount'']"

text \<open>The argument \<open>a\<close> sets the flag \<open>name\<close>.\<close>

definition sets_flag :: "string \<Rightarrow> string \<Rightarrow> bool" where
  "sets_flag name a \<longleftrightarrow>
     a = ''--'' @ name \<or> a = ''--no-'' @ name \<or> has_prefix a (''--'' @ name @ ''='')"

lemma sets_flag_formatFlag: "sets_flag name (formatFlag name v)"
  by (cases v) (auto simp: sets_flag_def formatFlag_def has_prefix_def)

text \<open>No two flags of adbfs have the same short form; two of adbfs-automount do.\<close>

definition short_forms :: "flag_spec list \<Rightarrow> char list" where
  "short_forms = List.map_filter fl_Short"

lemma adbfs_short_forms: "short_forms (adbfs_flags p) = [CHR ''r'', CHR ''v'', CHR ''s'']"
  by (simp add: short_forms_def adbfs_flags_def base_flags_def Flag_def List.map_filter_def)

lemma automount_short_forms: "short_forms (automount_flags p) = [CHR ''r'', CHR ''v'', CHR ''r'']"
  by (simp add: short_forms_def automount_flags_def base_flags_def Flag_def List.map_filter_def)

subsection \<open>One argument for each flag\<close>

text \<open>Names without an equals sign that do not start like a negated flag.\<close>

definition flag_name :: "string \<Rightarrow> bool" where
  "flag_name n \<longleftrightarrow> CHR ''='' \<notin> set n \<and> \<not> has_prefix n ''no-''"

lemma flag_name_eq:
  assumes "flag_name n" and "flag_name m"
  shows "sets_flag n (formatFlag m v) \<longleftrightarrow> n = m"
proof -
  have pre: "takeWhile (\<lambda>x. x \<noteq> CHR ''='') (k @ ''='' @ t) = k" if "flag_name k" for k t
    using that by (simp add: flag_name_def takeWhile_append)
  have eq: "n = m" if "m @ ''='' @ s = n @ ''='' @ t" for s t
    using pre [OF assms(1), of t] pre [OF assms(2), of s] that by simp
  have mem: "CHR ''='' \<notin> set m" "CHR ''='' \<notin> set n" using assms by (simp_all add: flag_name_def)
  have no: "m \<noteq> ''no-'' @ t" "n \<noteq> ''no-'' @ t" for t
    using assms by (auto simp: flag_name_def has_prefix_iff)
  have valued: "sets_flag n (''--'' @ m @ ''='' @ t) \<longleftrightarrow> n = m" for t
  proof
    assume "sets_flag n (''--'' @ m @ ''='' @ t)"
    then consider "m @ ''='' @ t = n" | "m @ ''='' @ t = ''no-'' @ n" | s where "m @ ''='' @ t = n @ ''='' @ s"
      by (auto simp: sets_flag_def has_prefix_iff)
    then show "n = m"
    proof cases
      case 1
      then show ?thesis using mem by auto
    next
      case 2
      have "CHR ''='' \<in> set (''no-'' @ n)" unfolding 2 [symmetric] by simp
      then show ?thesis using mem by simp
    next
      case 3
      then show ?thesis by (rule eq)
    qed
  qed (auto simp: sets_flag_def has_prefix_iff)
  show ?thesis
  proof (cases v)
    case (FlagBool b)
    have "CHR ''='' \<in> set (n @ ''='' @ t)" for t by simp
    then have "''no-'' @ m \<noteq> n @ ''='' @ t" "m \<noteq> n @ ''='' @ t" for t
      using mem by (force dest: arg_cong [where f = set])+
    then show ?thesis using FlagBool no mem by (cases b) (auto simp: formatFlag_def sets_flag_def has_prefix_iff)
  qed (simp_all add: formatFlag_def valued [simplified])
qed

lemma count_list_distinct: "distinct xs \<Longrightarrow> x \<in> set xs \<Longrightarrow> count_list xs x = 1"
  by (induction xs) (auto simp: count_notin)

lemma count_sets_flag:
  assumes "flag_name n" and "list_all (flag_name \<circ> fst) l"
  shows "length (filter (sets_flag n) (map (\<lambda>(m, v). formatFlag m v) l)) = count_list (map fst l) n"
  using assms(2) by (induction l) (auto simp: flag_name_eq [OF assms(1)] split: if_splits)

text \<open>The names and values behind the arguments.\<close>

definition adbfs_args :: "adbfs_config \<Rightarrow> (string \<times> flag_value) list" where
  "adbfs_args c =
     [(''port'', FlagInt (bc_AdbPort (ac_Base c))), (''pool'', FlagInt (bc_ConnectionPoolSize (ac_Base c))),
      (''log'', FlagString (bc_LogLevel (ac_Base c))), (''cachettl'', FlagDuration (bc_CacheTtl (ac_Base c))),
      (''debug'', FlagBool (bc_ServeDebug (ac_Base c))), (''verbose'', FlagBool (bc_Verbose (ac_Base c))),
      (''device-root'', FlagString (bc_DeviceRoot (ac_Base c))), (''readonly'', FlagBool (bc_ReadOnly (ac_Base c))),
      (''adb'', FlagString (bc_PathToAdb (ac_Base c))), (''device'', FlagString (ac_DeviceSerial c)),
      (''mountpoint'', FlagString (ac_Mountpoint c))]"

lemma adbfs_AsArgs_args: "adbfs_AsArgs c = map (\<lambda>(m, v). formatFlag m v) (adbfs_args c)"
  by (simp add: adbfs_AsArgs_def base_AsArgs_def adbfs_args_def)

lemma adbfs_args_names:
  "list_all (flag_name \<circ> fst) (adbfs_args c)" "distinct (map fst (adbfs_args c))"
  "set (map fst (adbfs_args c)) = set (map fl_Name (adbfs_flags p))"
  by (simp_all add: adbfs_args_def flag_name_def has_prefix_def adbfs_flags_def base_flags_def Flag_def insert_commute)

text \<open>Every registered flag of adbfs is set by exactly one of the arguments.\<close>

lemma AsArgs_complete:
  assumes "fl \<in> set (adbfs_flags p)"
  shows "length (filter (sets_flag (fl_Name fl)) (adbfs_AsArgs c)) = 1"
proof -
  have n: "fl_Name fl \<in> set (map fst (adbfs_args c))" using assms adbfs_args_names(3) [of c p] by simp
  then have "flag_name (fl_Name fl)" using adbfs_args_names(1) [of c] by (auto simp: list_all_iff)
  from count_sets_flag [OF this adbfs_args_names(1) [of c]] show ?thesis
    using n adbfs_args_names(2) [of c] by (simp add: adbfs_AsArgs_args count_list_distinct)
qed

lemma AsArgs_length: "length (adbfs_AsArgs c) = length (adbfs_flags p)"
  by (simp add: adbfs_flags_def base_flags_def adbfs_AsArgs_def base_AsArgs_def)

end
