(* ===== verification/Startup.thy ===== *)
theory Startup
  imports Registration Version
begin

text \<open>
  \<open>Initialize\<close> and the debug server of \<open>internal/cli/cli.go\<close> and \<open>createLogger\<close> of
  \<open>base_config.go\<close>, as the sequence of what they do to the outside. Parsing the command line is
  kingpin's: the configuration is given as it is after that. Parsing a level is logrus's and
  listening the operating system's; both are arguments.
\<close>

datatype level = PanicLevel | FatalLevel | ErrorLevel | WarnLevel | InfoLevel | DebugLevel

text \<open>\<open>createLogger\<close>: \<^term>\<open>Inl\<close> is the error that \<open>log.Fatal\<close> ends the process with.\<close>

definition createLogger :: "(string \<Rightarrow> 'e + level) \<Rightarrow> base_config \<Rightarrow> 'e + level" where
  "createLogger parseLevel c =
     (if bc_Verbose c then Inr DebugLevel
      else (case parseLevel (bc_LogLevel c) of Inl err \<Rightarrow> Inl err | Inr l \<Rightarrow> Inr l))"

definition debug_toc :: "(string \<times> string) list" where
  "debug_toc =
     [(''Profiling'', ''/debug/pprof''),
      (''Download a 30-second CPU profile'', ''/debug/pprof/profile''),
      (''Download a trace file (add ?seconds=x to specify sample length)'', ''/debug/pprof/trace''),
      (''Requests'', ''/debug/requests''),
      (''Event log'', ''/debug/events'')]"

datatype 'e init_action =
    SetVersion string
  | SetLogger level
  | LogPrintln string
  | LogListenError 'e
  | HandlePage string "(string \<times> string) list"
  | ServeHttp string
  | LogListening string

text \<open>\<open>initializeDebugServer\<close>: \<open>listen\<close> gives the address of the listener or an error.\<close>

definition initializeDebugServer :: "'e + string \<Rightarrow> 'e init_action list" where
  "initializeDebugServer listen =
     (case listen of
        Inl err \<Rightarrow> [LogListenError err]
      | Inr addr \<Rightarrow>
          [HandlePage ''/debug'' debug_toc, ServeHttp addr,
           LogListening (''debug server listening on http://'' @ addr @ ''/debug'')])"

definition Initialize ::
  "(string \<Rightarrow> 'e + level) \<Rightarrow> 'e + string \<Rightarrow> string \<Rightarrow> base_config \<Rightarrow> ('e init_action list \<times> 'e option) go" where
  "Initialize parseLevel listen appName c =
     (if appName = '''' then Panic ''appName cannot be empty''
      else
        Return (case createLogger parseLevel c of
          Inl err \<Rightarrow> ([SetVersion (versionString appName)], Some err)
        | Inr l \<Rightarrow>
            ([SetVersion (versionString appName), SetLogger l, LogPrintln (versionString appName)] @
             (if bc_ServeDebug c then initializeDebugServer listen else []), None)))"

text \<open>What a started program prints first is what \<open>--version\<close> prints, and other programs check.\<close>

lemma Initialize_version:
  assumes "Initialize parseLevel listen appName c = Return (actions, None)" and "is_app_name appName"
  shows "\<exists>line. LogPrintln line \<in> set actions \<and> SetVersion line \<in> set actions \<and>
    parseVersion line = Inr (appName, Version)"
proof -
  have "parseVersion (versionString appName) = Inr (appName, Version)"
    unfolding versionString_def by (rule parse_format [OF assms(2) is_version_Version])
  then show ?thesis
    using assms(1) by (auto simp: Initialize_def split: if_splits sum.splits)
qed

text \<open>Nothing listens unless the debug flag is set.\<close>

lemma Initialize_quiet:
  assumes "Initialize parseLevel listen appName c = Return (actions, err)" and "\<not> bc_ServeDebug c"
  shows "ServeHttp addr \<notin> set actions"
  using assms by (auto simp: Initialize_def split: if_splits sum.splits)

end
