(* ===== verification/Program.thy ===== *)
theory Program
  imports Read_Only_Session Write_Session Client_Pool Open_Files_Sharing Automount Process_Tracker File_Session Startup
begin

text \<open>
  How \<open>cmd/adbfs/main.go\<close> puts the parts together (\<open>initializeFileSystem\<close>), and the concrete
  device, buffers and sessions the properties are evaluated on.
\<close>

subsection \<open>initializeFileSystem\<close>

definition NewGoadbDeviceClientFactory ::
  "'x goadb \<Rightarrow> ('d, 'x) adb_device \<Rightarrow> ('d \<Rightarrow> 'd) option \<Rightarrow> 'd \<Rightarrow> ('d, 'x) device_client \<times> 'd" where
  "NewGoadbDeviceClientFactory u adb handler d = (goadb_client u adb handler, d)"

definition initializeFileSystem where
  "initializeFileSystem u adb handler cache config mountpoint s =
     NewAdbFileSystem u
       \<lparr>cf_DeviceSerial = ac_DeviceSerial config, cf_Mountpoint = mountpoint,
        cf_DeviceRoot = bc_DeviceRoot (ac_Base config),
        cf_ClientFactory =
          NewCachingDeviceClientFactory u cache (NewGoadbDeviceClientFactory u adb handler),
        cf_ConnectionPoolSize = bc_ConnectionPoolSize (ac_Base config),
        cf_ReadOnly = bc_ReadOnly (ac_Base config)\<rparr> s"

text \<open>Every client the factory makes is the same: a caching client over a goadb client.\<close>

lemma program_factory:
  "NewCachingDeviceClientFactory u cache (NewGoadbDeviceClientFactory u adb handler) s =
     (caching_client u (goadb_client u adb handler) cache, s)"
  by (cases s) (simp add: NewCachingDeviceClientFactory_def NewGoadbDeviceClientFactory_def)

subsection \<open>Concrete inputs\<close>

definition ref_clock :: clock where
  "ref_clock = \<lparr>readings = \<lambda>n. int n + 1, ticks = 0\<rparr>"

lemma good_ref_clock [simp]: "good_clock ref_clock"
  by (auto simp: good_clock_def ref_clock_def mono_def)

definition ref_mem :: mem where
  "ref_mem =
     \<lparr>m_nodes = [''/'' \<mapsto> DirNode [''sdcard''], ''/sdcard'' \<mapsto> DirNode [''f'', ''l''],
        ''/sdcard/f'' \<mapsto> FileNode [1, 2, 3] 0x1A4, ''/sdcard/l'' \<mapsto> LinkNode ''/sdcard/f''],
      m_open = Map.empty, m_next = 0\<rparr>"

lemma ref_mem_simps [simp]:
  "mem_valid ref_mem" "m_nodes ref_mem ''/sdcard/f'' = Some (FileNode [1, 2, 3] 0x1A4)"
  "mem_files ref_mem ''/sdcard/f'' = Some [1, 2, 3]" "mem_writable ref_mem ''/sdcard/f''"
  "mem_writable ref_mem ''/sdcard/g''" "m_nodes ref_mem ''/sdcard/g'' = None"
  by (simp_all add: mem_valid_def ref_mem_def mem_files_def mem_writable_def)

definition ref_world :: "mem world" where
  "ref_world = \<lparr>w_dev = ref_mem, w_clock = ref_clock\<rparr>"

lemma ref_world_simps [simp]: "w_dev ref_world = ref_mem" "w_clock ref_world = ref_clock"
  by (simp_all add: ref_world_def)

definition ref_buffer :: "(mem, ref_error) file_buffer" where
  "ref_buffer = race_buffer ''/sdcard/f'' [1, 2, 3] 0x1A4 1"

lemma ref_buffer_simps [simp]:
  "fb_Client ref_buffer = mem_client" "fb_Path ref_buffer = ''/sdcard/f''"
  "good_slice (fb_buffer ref_buffer)" "fb_Contents ref_buffer = [1, 2, 3]" "\<not> fb_IsDirty ref_buffer"
  "used (fb_buffer ref_buffer) = 3" "gbs_cap (fb_buffer ref_buffer) = 3"
  "backing (fb_buffer ref_buffer) = [1, 2, 3]" "fb_dirty ref_buffer = 0"
  by (simp_all add: ref_buffer_def race_buffer_def new_buffer_def good_slice_def wf_slice_def
      slack_zero_def gbs_cap_def fb_Contents_def gbs_data_def fb_IsDirty_def dirty_new_def dirty_is_set_def)

lemma ref_buffer_spare [simp]: "wf_slice (fb_buffer ref_buffer)" "slack_zero (fb_buffer ref_buffer)"
  using ref_buffer_simps(3) by (simp_all add: good_slice_def)

text \<open>A device whose \<open>stat -f\<close> prints one long word, and one whose streams break after a byte.\<close>

definition ref_long_word :: string where
  "ref_long_word = replicate 65536 (CHR ''x'')"

definition ref_long_client :: "(mem, ref_error) device_client" where
  "ref_long_client = mem_client\<lparr>RunCommand := (\<lambda>cmd args d. (Inr ref_long_word, d))\<rparr>"

lemma ref_long_words: "split_words [] ref_long_word = [ref_long_word]" "65536 \<le> length ref_long_word"
proof -
  have "plain_word ref_long_word" by (simp add: plain_word_def ref_long_word_def)
  then show "split_words [] ref_long_word = [ref_long_word]" by (rule split_words_word)
qed (simp add: ref_long_word_def)

definition ref_broken :: "(mem, ref_error) device_client" where
  "ref_broken = mem_client\<lparr>OpenRead := (\<lambda>p d. (Inr \<lparr>st_data = [7], st_slack = [], st_err = Some (not_found p)\<rparr>, d))\<rparr>"

definition ref_tracker :: tracker where
  "ref_tracker =
     \<lparr>tr_done = False, tr_byKey = [''a'' \<mapsto> 0], tr_waiting = 1, tr_cancelled = {}, tr_next = 1,
      tr_callers = {#}, tr_procs = [0 \<mapsto> (''a'', Running)]\<rparr>"

lemma ref_tracker_reachable: "tracker_reachable ref_tracker"
proof -
  let ?t = "NewProcessTracker\<lparr>tr_callers := {#''a''#}\<rparr>"
  have "tracker_reachable ?t"
    by (rule tracker_next [OF tracker_init check [of "''a''"]]) (simp add: Go_check_def NewProcessTracker_def)
  moreover have "Go_locked ''a'' ?t = (Inr 0, ref_tracker)"
    by (simp add: Go_locked_def NewProcessTracker_def ref_tracker_def)
  ultimately show ?thesis using tracker_next [OF _ locked [of "''a''" ?t]] by simp
qed

definition ref_chain :: "nat \<Rightarrow> string" where
  "ref_chain i = (if i = 0 then ''/sdcard/l'' else ''/sdcard/f'')"

lemma ref_link_chain: "link_chain mem_client ref_chain 1 ref_mem"
proof -
  have n: "m_nodes ref_mem ''/sdcard/l'' = Some (LinkNode ''/sdcard/f'')" by (simp add: ref_mem_def)
  have "trim_suffix (''/sdcard/f'' @ crlf) line_end = ''/sdcard/f''"
    by (simp add: line_end_def crlf_def trim_suffix_def has_suffix_def)
  then have "readLink mem_client ''/sdcard/l'' ref_mem = (Inr ''/sdcard/f'', ref_mem)"
    using n by (simp add: readLink_def mem_RunCommand_def mem_readlink_def Let_def
        ReadlinkInvalidArgument_def ReadlinkPermissionDenied_def)
  then show ?thesis
    using n by (simp add: link_chain_def ref_chain_def mem_Stat_def is_symlink_def mode_defs)
qed

text \<open>Two links that point at each other.\<close>

definition ref_cycle :: "nat \<Rightarrow> string" where
  "ref_cycle i = (if even i then ''/a'' else ''/b'')"

definition ref_cycle_mem :: mem where
  "ref_cycle_mem =
     \<lparr>m_nodes = [''/a'' \<mapsto> LinkNode ''/b'', ''/b'' \<mapsto> LinkNode ''/a''], m_open = Map.empty, m_next = 0\<rparr>"

lemma ref_cycle_chain: "link_chain mem_client ref_cycle 66 ref_cycle_mem"
proof -
  have t: "trim_suffix (p @ crlf) line_end = p" for p
    by (simp add: line_end_def crlf_def trim_suffix_def has_suffix_def)
  have "readLink mem_client (ref_cycle i) ref_cycle_mem = (Inr (ref_cycle (Suc i)), ref_cycle_mem)" for i
    using t [of "''/a''"] t [of "''/b''"]
    by (simp add: readLink_def mem_RunCommand_def mem_readlink_def Let_def ref_cycle_def
        ref_cycle_mem_def ReadlinkInvalidArgument_def ReadlinkPermissionDenied_def)
  moreover have "\<exists>e. Stat mem_client (ref_cycle i) log ref_cycle_mem = (Inr e, log, ref_cycle_mem) \<and>
      is_symlink (de_mode e)" for i log
    by (simp add: ref_cycle_def ref_cycle_mem_def mem_Stat_def is_symlink_def mode_defs)
  ultimately show ?thesis unfolding link_chain_def MaxLinkResolveDepth_def by simp
qed

text \<open>A file system with one client and a device root, a cached listing, a host.\<close>

definition ref_fs :: "string \<Rightarrow> (mem, ref_error) filesystem" where
  "ref_fs root =
     \<lparr>fs_config = \<lparr>cf_DeviceSerial = ''x'', cf_Mountpoint = ''/mnt'', cf_DeviceRoot = root,
        cf_ClientFactory = (\<lambda>d. (mem_client, d)), cf_ConnectionPoolSize = 2, cf_ReadOnly = False\<rparr>,
      fs_pool = [mem_client], fs_openFiles = NewOpenFiles (\<lambda>d. (mem_client, d)) 0\<rparr>"

lemma ref_fs_simps [simp]:
  "pool_ready (ref_fs root)" "pool_client (ref_fs root) = mem_client"
  "cf_DeviceRoot (fs_config (ref_fs root)) = root" "cf_Mountpoint (fs_config (ref_fs root)) = ''/mnt''"
  by (simp_all add: pool_ready_def pool_client_def ref_fs_def)

lemma ref_fs_new:
  "NewAdbFileSystem ref_util (fs_config (ref_fs '''')) ref_mem =
   Return (Inr (ref_fs ''''), StartOperation ''Initialize'' '''', ref_mem)"
  by (simp add: NewAdbFileSystem_def ref_fs_def fs_initialize_def trim_suffix_def has_suffix_def)

definition ref_cached :: "ttl_cache real_cache" where
  "ref_cached =
     \<lparr>rc_cache = \<lparr>tc_items = [''/sdcard'' \<mapsto> (NewCachedDirEntries
        [node_entry ''f'' (FileNode [1, 2, 3] 0x1A4), node_entry ''l'' (LinkNode ''/sdcard/f'')], 9)],
        tc_now = 0\<rparr>, rc_goroutines = []\<rparr>"

lemma ref_cached_indexed: "indexed (\<lambda>c. ttl_items (rc_cache c)) ref_cached"
  by (simp add: indexed_def ref_cached_def ttl_items_def)

definition ref_host :: "unit host" where
  "ref_host =
     \<lparr>os_Stat = (\<lambda>p h. Inr True), os_Mkdir = (\<lambda>p m h. (None, h)), os_Remove = (\<lambda>p h. (None, h))\<rparr>"

definition ref_automount :: automount_config where
  "ref_automount =
     \<lparr>am_Base = \<lparr>bc_AdbPort = 5037, bc_ConnectionPoolSize = 2, bc_LogLevel = ''info'', bc_Verbose = False,
        bc_CacheTtl = 300000000, bc_ServeDebug = False, bc_DeviceRoot = '''', bc_ReadOnly = True,
        bc_PathToAdb = ''''\<rparr>,
      am_MountRoot = ''/mnt'', am_PathToAdbfs = ''adbfs'', am_AllowAnyAdbfs = False,
      am_OnMountHandlers = [], am_OnUnmountHandlers = []\<rparr>"

end
