(* ===== verification/Spec2Isabelle.thy ===== *)
theory Spec2Isabelle
  imports Program
begin

text \<open>
  adbfs, a file system in user space for Android devices (Go, package \<open>fs\<close> in the root of the
  repository, the programs \<open>cmd/adbfs\<close> and \<open>cmd/adbfs-automount\<close>, and their packages
  \<open>internal/util\<close> and \<open>internal/cli\<close>). \<open>adbfs\<close> mounts one device: the kernel's requests come
  through go-fuse to \<open>AdbFileSystem\<close>, which asks the device through a \<open>DeviceClient\<close> (goadb's
  client, under a cache of directory listings) and keeps the content of every open file in a
  \<open>FileBuffer\<close> that all open files of its path share. \<open>adbfs-automount\<close> starts one adbfs process
  for each device that comes online and kills it when it is told to end.

  How the theories follow the code, from the bottom:

  \<^item> \<open>Prelude\<close>: the outcome of a Go call, \<open>Return\<close>, \<open>Panic\<close> or \<open>Blocked\<close>, and the wrap-around of
    64-bit and 32-bit integers.
  \<^item> \<open>internal/util\<close>: \<open>Byte_Buffer\<close> (what a byte buffer promises: the locale \<open>byte_buffer\<close>) and
    \<open>Growable_Slice\<close> (\<open>growable_byte_slice.go\<close>, an interpretation of it), \<open>Dirty_Clock\<close>
    (\<open>clock.go\<close>, \<open>dirty_timestamp.go\<close>, \<open>atomic_bool.go\<close>).
  \<^item> Parts of Go's library that the code calls, by their documented behaviour: \<open>Go_Text\<close>,
    \<open>Go_Strconv\<close>, \<open>Go_Path\<close>.
  \<^item> Errors, logs and attributes: \<open>Errors\<close> (\<open>errors.go\<close>, \<open>error_read_result.go\<close>), \<open>Log_Entry\<close>
    (\<open>log_entry.go\<close>), \<open>Fuse_Attr\<close> and \<open>Wrapping_File\<close> (\<open>util.go\<close>, \<open>wrapping_file.go\<close>),
    \<open>Open_Flags\<close> (\<open>file_open_flags.go\<close>).
  \<^item> The device: \<open>Device_Client\<close> (\<open>device_client.go\<close>), \<open>Dir_Entry_Cache\<close> (\<open>dir_entry_cache.go\<close>),
    \<open>Caching_Client\<close> (\<open>caching_device_client.go\<close>). A method of a client is a function from the
    device's state \<open>'d\<close> to a result and the next state.
  \<^item> Open files: \<open>File_Buffer\<close> and \<open>File_Buffer_Open\<close> (\<open>file_buffer.go\<close>), \<open>Open_Files\<close> and
    \<open>Open_Files_Sharing\<close> (\<open>open_files.go\<close>), \<open>Adb_File\<close> and \<open>File_Session\<close> (\<open>adb_file.go\<close>).
  \<^item> The file system, all from \<open>adb_filesystem.go\<close>: \<open>Link_Resolution\<close>, \<open>Statfs\<close>, \<open>Filesystem\<close>
    (one definition for each handler), \<open>Filesystem_Handlers\<close>, \<open>Client_Pool\<close>; and \<open>Mounted\<close>,
    \<open>Read_Only_Session\<close>, \<open>Write_Session\<close>: sequences of requests.
  \<^item> The programs: \<open>Command_Line\<close>, \<open>Registration\<close>, \<open>Startup\<close> (\<open>internal/cli\<close>: \<open>cli.go\<close> and the three
    configurations), \<open>Mountpoint\<close> (\<open>mountpoint.go\<close>, \<open>paths.go\<close>), \<open>Handlers\<close> (\<open>handlers.go\<close>),
    \<open>Version\<close> (\<open>version.go\<close>), \<open>Process_Tracker\<close> (\<open>process_tracker.go\<close>), \<open>Adbfs_Main\<close> and
    \<open>Automount\<close> (the two \<open>main.go\<close>), \<open>Program\<close> (\<open>initializeFileSystem\<close>, and concrete states).

  A handler takes the arguments of the Go method and the states it reads (file system, device,
  clock) and returns its results, its finished log entry and the new states. A \<open>nil\<close> error is
  \<open>None\<close>, an error is a value of the type \<open>'x err\<close>; every early return, panic and channel operation
  is a branch. Buffers live in a heap, a list that \<open>OpenFiles\<close> points into, because open files share
  them. A section under a mutex is one step; what the code runs concurrently is a step relation
  (\<open>step\<close> in \<open>Open_Files\<close>, \<open>pool_step\<close>, \<open>tracker_step\<close>, \<open>mount_step\<close>) whose reachable states the
  invariants \<open>counted\<close>, \<open>exclusive\<close>, \<open>tracked\<close> and \<open>mount_inv\<close> describe.

  What the code only calls is an argument with its documented laws as a locale: goadb's error
  functions (\<open>goadb_util\<close>), a device that stores what is written to it (\<open>file_device\<close>,
  \<open>perm_device\<close> with the permissions of the files too, \<open>stat_device\<close> with a \<open>Stat\<close> that is up to
  date, so without a stale cached listing in front of it), one whose reads change nothing (\<open>reading_device\<close>), the go-cache package
  (\<open>go_cache\<close>). Locales of the code's own interfaces are \<open>byte_buffer\<close>, \<open>clock_source\<close>,
  \<open>log_discipline\<close>, \<open>dir_cache\<close>, \<open>listing_cache\<close>, \<open>listing_client\<close>, \<open>caching\<close> and
  \<open>caching_reading\<close>. \<open>Reference_Device\<close> has an in-memory device and a cache with expiry that
  satisfy them; the properties are evaluated there.

  Two assumptions are about more than documented behaviour. \<open>file_device\<close> has the bytes of a
  stream end up in an array whose spare bytes are zero (true of \<open>ioutil.ReadAll\<close>, whose contract
  does not say so). And in \<open>Process_Tracker\<close> a running process function may always return, and what
  \<open>sync.WaitGroup\<close> does when \<open>Add\<close> runs concurrently with \<open>Wait\<close> at zero is not modelled.

  Spare bytes. A growable slice that grows in place shows the bytes that stand beyond its length.
  They are zero (\<open>slack_zero\<close>) in a new buffer, after a reallocation, a load or a write, but not after
  a shrink in place, which zeroes the start of the array instead. So \<open>wf_slice\<close> holds of every
  buffer, \<open>slack_zero\<close> is a hypothesis where it is needed, and only there: for a write that leaves
  a gap behind the contents (\<open>padded\<close>, \<open>write_ready\<close>). What the code does without it is stated too:
  \<open>buffer_grows\<close>, \<open>shrink_zeroes_prefix\<close>, \<open>cut_bytes_return\<close>.

  Lemma groups: the \<open>byte_buffer\<close> laws of the growable slice; what each \<open>FileBuffer\<close> method does to
  the abstract bytes and to the device; the refinement of all open files of a path to one sequence
  of bytes (\<open>File_Session\<close>), carried up to kernel requests (\<open>Write_Session\<close>); reference counts and
  sharing in every interleaving; what each handler answers and which device path it asks for; that
  a read-only mount leaves the device alone; the cache's agreement with the device and where it goes
  stale; the round trips of statfs, decimal numbers, paths and version lines; the two programs'
  state machines and command lines.

  Bounds. Buffer sizes are at most \<open>buffer_limit\<close>, below which doubling a capacity does not wrap in
  64 bits; one write is shorter than 2^32 bytes, because its count is returned as a \<open>uint32\<close>. Links
  are followed by recursion up to \<open>MaxLinkResolveDepth\<close> = 64, which is 65 links. Words of the
  device's \<open>stat -f\<close> are below the 65536 bytes of \<open>bufio.MaxScanTokenSize\<close>. The device watcher can
  run for ever, so it has fuel, and the property about it says that no fuel is enough. All other
  loops are structural or have a measure.

  Not modelled: \<open>eventlog.go\<close> and the text of log lines (logrus and x/net/trace calls), help
  texts and the parsing of flags (kingpin), the debug page's HTML template, \<open>String\<close>, \<open>GoString\<close> and
  \<open>InnerFile\<close> (diagnostics), the handlers with empty bodies (\<open>OnMount\<close>, \<open>OnUnmount\<close>, \<open>SetDebug\<close>),
  \<open>getNewClient\<close> (never called), and the packages outside the repository: go-fuse's dispatch and
  node tree, goadb, go-cache, the kernel. The data races of unlocked fields inside one handler are
  not modelled beyond the step relations above.
\<close>

section \<open>The mounted file system\<close>

text \<open>C1: A file system that adbfs sets up read-only never changes the device: after any
sequence of kernel requests (opens for writing, writes, truncations, creations, renames,
removals included) what can be observed of the device is what it was before mounting. The
device only has to keep its own reads, stats, listings and the commands readlink and stat free
of changes.\<close>

theorem read_only_mount:
  assumes "reading_device (goadb_client u adb handler) files"
    and "dir_cache cache stored settle"
    and "bc_ReadOnly (ac_Base config)"
    and "initializeFileSystem u adb handler cache config mountpoint s0 = Return (Inr fs, r, s1)"
    and "serve_all u requests
      \<lparr>mt_fs = fs, mt_files = [], mt_world = \<lparr>w_dev = s1, w_clock = k\<rparr>\<rparr> = Return s2"
  shows "files (fst (w_dev (mt_world s2))) = files (fst s0)"
proof -
  have cr: "caching_reading (goadb_client u adb handler) files cache stored settle"
    using assms(1,2) by (rule caching_reading.intro)
  note rd = caching_reading.caching_reading_device [OF cr, of u]
  have "reading_device.quiet (caching_client u (goadb_client u adb handler) cache) (files \<circ> fst)
      \<lparr>mt_fs = fs, mt_files = [], mt_world = \<lparr>w_dev = s1, w_clock = k\<rparr>\<rparr> \<and>
    (files \<circ> fst) s1 = (files \<circ> fst) s0"
    by (rule reading_device.NewAdbFileSystem_quiet [OF rd assms(4) [unfolded initializeFileSystem_def]])
      (simp_all add: assms(3) program_factory)
  with reading_device.serve_all_quiet [OF rd assms(5)] show ?thesis by simp
qed

definition ref_config :: adbfs_config where
  "ref_config =
     \<lparr>ac_Base = \<lparr>bc_AdbPort = 5037, bc_ConnectionPoolSize = 2, bc_LogLevel = ''info'', bc_Verbose = False,
        bc_CacheTtl = 300000000, bc_ServeDebug = False, bc_DeviceRoot = '''', bc_ReadOnly = True,
        bc_PathToAdb = ''''\<rparr>,
      ac_DeviceSerial = ''x'', ac_Mountpoint = ''/mnt''\<rparr>"

theorem read_only_mount_witness:
  "\<exists>fs r s1 s2.
    initializeFileSystem ref_util mem_adb None (real_dir_cache (ttl_kv 2)) ref_config ''/mnt''
      (ref_mem, \<lparr>rc_cache = \<lparr>tc_items = Map.empty, tc_now = 0\<rparr>, rc_goroutines = []\<rparr>) = Return (Inr fs, r, s1) \<and>
    serve_all ref_util [CreateReq ''sdcard/f'' 0 0, MkdirReq ''d'', UnlinkReq ''sdcard/f'']
      \<lparr>mt_fs = fs, mt_files = [], mt_world = \<lparr>w_dev = s1, w_clock = ref_clock\<rparr>\<rparr> = Return s2 \<and>
    mem_files (fst (w_dev (mt_world s2))) = mem_files ref_mem"
proof -
  let ?cache = "real_dir_cache (ttl_kv 2)"
  let ?s0 = "(ref_mem, \<lparr>rc_cache = \<lparr>tc_items = Map.empty, tc_now = 0\<rparr>, rc_goroutines = []\<rparr>)"
  obtain fs where i: "initializeFileSystem ref_util mem_adb None ?cache ref_config ''/mnt'' ?s0 =
      Return (Inr fs, StartOperation ''Initialize'' '''', ?s0)" and ro: "cf_ReadOnly (fs_config fs)"
    by (simp add: initializeFileSystem_def NewAdbFileSystem_def ref_config_def program_factory
        fs_initialize_def trim_suffix_def has_suffix_def)
  let ?s1 = "\<lparr>mt_fs = fs, mt_files = [], mt_world = \<lparr>w_dev = ?s0, w_clock = ref_clock\<rparr>\<rparr>"
  have "serve_all ref_util [CreateReq ''sdcard/f'' 0 0, MkdirReq ''d'', UnlinkReq ''sdcard/f''] ?s1 = Return ?s1"
    using ro by (simp add: fs_Create_def fs_open_with_refused after_open_def fs_Mkdir_def fs_Unlink_def
        modifying_refused after_device_def Let_def)
  from i this read_only_mount [OF mem_reading.reading_device_axioms [unfolded mem_client_def] ttl.real.dir_cache_axioms
      _ i this]
  show ?thesis by (simp add: ref_config_def)
qed

text \<open>C2: Refinement of the whole file system: mounted for writing on a device that stores files, it
behaves like a map from paths to bytes with open handles. After any sequence of opens, creations,
reads, writes, truncations, flushes, syncs and closes (see \<open>allowed_session\<close>), none of which
panics or blocks, every open handle reads the bytes of that map, the device has them for every
path that is closed, and for an open one unless it is among the unsaved paths.\<close>

theorem session_refines_store:
  assumes "stat_device c valid files writable receiving closed u"
    and "NewAdbFileSystem u config d0 = Return (Inr fs, r, d)"
    and "cf_ClientFactory config = (\<lambda>d. (c, d))" and "\<not> cf_ReadOnly config"
    and "valid d" and "good_clock k" and "\<forall>p \<in> paths. writable d p"
    and "st0 = \<lparr>st_files = files d, st_unsaved = {}, st_handles = []\<rparr>"
    and "allowed_session (convertClientPathToDevicePath fs) paths requests st0"
    and "st = spec_requests (convertClientPathToDevicePath fs) requests st0"
  shows "\<exists>s. serve_all u requests \<lparr>mt_fs = fs, mt_files = [], mt_world = \<lparr>w_dev = d, w_clock = k\<rparr>\<rparr> = Return s \<and>
    (\<forall>p. uses p st = 0 \<longrightarrow> files (w_dev (mt_world s)) p = st_files st p) \<and>
    (\<forall>h p flags. handle h st = Some (p, flags) \<longrightarrow>
      (\<exists>f bytes. mt_files s ! h = Some f \<and> st_files st p = Some bytes \<and>
        (p \<notin> st_unsaved st \<longrightarrow> files (w_dev (mt_world s)) p = Some bytes) \<and>
        (\<forall>buf off. CanRead flags \<and> 0 \<le> off \<longrightarrow>
          (\<exists>r. af_Read u (af_Flags f) buf off (mt_buffer s f) =
            Return (ReadResultData (take (length buf) (drop (nat off) bytes)), fuseStatus OK, r)))))"
proof -
  let ?s0 = "\<lparr>mt_fs = fs, mt_files = [], mt_world = \<lparr>w_dev = d, w_clock = k\<rparr>\<rparr>"
  have "represents c valid files writable paths ?s0 st0"
    unfolding assms(8) by (rule mounted_represents)
      (use NewAdbFileSystem_ready(2,4) [OF assms(2)] assms(3-7) in simp_all)
  then obtain s where s: "serve_all u requests ?s0 = Return s" "represents c valid files writable paths s st"
    using stat_device.session_refines [OF assms(1), of paths ?s0 st0 requests] assms(9,10) by auto
  show ?thesis
  proof (intro exI [of _ s] conjI allI impI)
    show "serve_all u requests ?s0 = Return s" by (rule s(1))
    show "files (w_dev (mt_world s)) p = st_files st p" if "uses p st = 0" for p
      by (rule stat_device.represents_device [OF assms(1) s(2) that])
    fix h p flags assume "handle h st = Some (p, flags)"
    with stat_device.represents_handle [OF assms(1) s(2)] obtain f bytes where f: "mt_files s ! h = Some f"
      "af_Flags f = flags" "st_files st p = Some bytes" "fb_Contents (mt_buffer s f) = bytes"
      "wf_slice (fb_buffer (mt_buffer s f))" "p \<notin> st_unsaved st \<longrightarrow> files (device s) p = Some bytes"
      by blast
    show "\<exists>f bytes. mt_files s ! h = Some f \<and> st_files st p = Some bytes \<and>
        (p \<notin> st_unsaved st \<longrightarrow> files (w_dev (mt_world s)) p = Some bytes) \<and>
        (\<forall>buf off. CanRead flags \<and> 0 \<le> off \<longrightarrow>
          (\<exists>r. af_Read u (af_Flags f) buf off (mt_buffer s f) =
            Return (ReadResultData (take (length buf) (drop (nat off) bytes)), fuseStatus OK, r)))"
      using f af_Read_bytes [OF _ f(5)] by (intro exI [of _ f] exI [of _ bytes]) auto
  qed
qed

theorem session_refines_store_witness:
  "\<exists>s f r. serve_all ref_util
      [CreateReq ''sdcard/g'' 0 0x180, WriteReq 0 [7, 8] 1, FlushReq 0, ReleaseReq 0, OpenReq ''sdcard/g'' O_RDONLY]
      \<lparr>mt_fs = ref_fs '''', mt_files = [], mt_world = ref_world\<rparr> = Return s \<and>
    mem_files (w_dev (mt_world s)) ''/sdcard/g'' = Some [0, 7, 8] \<and> mt_files s ! 1 = Some f \<and>
    af_Read ref_util (af_Flags f) [0, 0, 0, 0] 1 (mt_buffer s f) = Return (ReadResultData [7, 8], fuseStatus OK, r)"
proof -
  let ?rs = "[CreateReq ''sdcard/g'' 0 0x180, WriteReq 0 [7, 8] 1, FlushReq 0, ReleaseReq 0, OpenReq ''sdcard/g'' O_RDONLY]"
  let ?st0 = "\<lparr>st_files = mem_files ref_mem, st_unsaved = {}, st_handles = []\<rparr>"
  let ?resolve = "convertClientPathToDevicePath (ref_fs '''')"
  have p: "?resolve ''sdcard/g'' = ''/sdcard/g''"
    by (simp add: convertClientPathToDevicePath_def path_join_def path_clean_def Let_def)
  have g: "mem_files ref_mem ''/sdcard/g'' = None" by (simp add: mem_files_def)
  have fl: "\<not> Contains O_RDONLY O_CREATE" "\<not> flag_requires_write O_RDONLY" "CanRead O_RDONLY" "\<not> Contains O_RDONLY O_TRUNC"
    by (simp_all add: flag_requires_write_def CanRead_def Contains_def flag_defs)
  have o: "overwrite [] (Suc 0) [7, 8 :: byte] = [0, 7, 8]" by (simp add: overwrite_def eval_nat_numeral)
  note spec = p g o fl spec_open_def open_refused_def opened_bytes_def allowed_open_def uses_def handle_def
    spec_file_request_def allowed_file_request_def spec_file_def buffer_limit_def
  have ok: "allowed_session ?resolve {''/sdcard/g''} ?rs ?st0" by (simp add: spec)
  define st where "st = spec_requests ?resolve ?rs ?st0"
  have st: "handle 1 st = Some (''/sdcard/g'', O_RDONLY)" "st_files st ''/sdcard/g'' = Some [0, 7, 8]"
    "''/sdcard/g'' \<notin> st_unsaved st"
    by (simp_all add: st_def spec)
  have cf: "cf_ClientFactory (fs_config (ref_fs '''')) = (\<lambda>d. (mem_client, d))" "\<not> cf_ReadOnly (fs_config (ref_fs ''''))"
    by (simp_all add: ref_fs_def)
  have w: "\<forall>p \<in> {''/sdcard/g''}. mem_writable ref_mem p" by simp
  from session_refines_store [OF mem_stat.stat_device_axioms ref_fs_new cf _ good_ref_clock w refl ok st_def]
  obtain s where s: "serve_all ref_util ?rs \<lparr>mt_fs = ref_fs '''', mt_files = [], mt_world = ref_world\<rparr> = Return s"
    and h: "\<forall>h p flags. handle h st = Some (p, flags) \<longrightarrow>
      (\<exists>f bytes. mt_files s ! h = Some f \<and> st_files st p = Some bytes \<and>
        (p \<notin> st_unsaved st \<longrightarrow> mem_files (w_dev (mt_world s)) p = Some bytes) \<and>
        (\<forall>buf off. CanRead flags \<and> 0 \<le> off \<longrightarrow>
          (\<exists>r. af_Read ref_util (af_Flags f) buf off (mt_buffer s f) =
            Return (ReadResultData (take (length buf) (drop (nat off) bytes)), fuseStatus OK, r))))"
    unfolding ref_world_def by fastforce
  from h [rule_format, OF st(1)] st(2,3) fl(3) obtain f where f: "mt_files s ! 1 = Some f"
    "mem_files (w_dev (mt_world s)) ''/sdcard/g'' = Some [0, 7, 8]"
    "\<forall>buf off. 0 \<le> off \<longrightarrow> (\<exists>r. af_Read ref_util (af_Flags f) buf off (mt_buffer s f) =
      Return (ReadResultData (take (length buf) (drop (nat off) [0, 7, 8])), fuseStatus OK, r))" by auto
  have "take (length [0, 0, 0, 0 :: byte]) (drop (nat 1) [0, 7, 8]) = [7, 8 :: byte]" by (simp add: eval_nat_numeral)
  then show ?thesis using s(1) f(1,2) f(3) [rule_format, of 1 "[0, 0, 0, 0]"] by auto
qed

text \<open>C3: All open files of a path share one buffer, in every interleaving of opens, uses and
closes in which an open waits for the releases of its path that are still pending.\<close>

theorem open_files_share_buffer:
  assumes "reachable u True s"
    and "a \<in># ms_handles s" and "b \<in># ms_handles s"
    and "fb_Path (ms_buffer s a) = fb_Path (ms_buffer s b)"
  shows "a = b"
  using exclusiveD(1) [OF reachable_exclusive [OF assms(1)]] assms(2-4) by (metis option.inject)

theorem open_files_share_buffer_witness:
  "\<exists>s :: (mem, ref_error) machine. reachable ref_util True s \<and> size (ms_handles s) = 2 \<and>
    (\<forall>b. b \<in># ms_handles s \<longrightarrow> b = 0)"
proof -
  let ?s = "mem_state [''/sdcard/f'' \<mapsto> 0] [race_buffer ''/sdcard/f'' [1, 2, 3] 0x1A4 2] {#0, 0#} {#}"
  have r: "reachable ref_util True ?s" by (rule shared_trace)
  have "b = 0" if "b \<in># ms_handles ?s" for b
    by (rule open_files_share_buffer [OF r that]) (use that in simp_all)
  then show ?thesis using r by (intro exI [of _ ?s]) simp
qed

text \<open>C4: In every interleaving the reference count of a buffer is the number of its open
files, so closing an open file never panics.\<close>

theorem refcount_exact:
  assumes "reachable u waits s" and "a \<in># ms_handles s"
  shows "fb_RefCount (ms_buffer s a) = int (count (ms_handles s) a) \<and>
    go_ok (fb_DecRefCount (ms_buffer s a))"
  using reachable_counted [OF assms(1)] decrement_Return [OF _ assms(2)]
    countedD(1) [OF _ counted_valid(1) [OF _ assms(2)]]
  by (simp add: fb_RefCount_def)

theorem refcount_exact_witness:
  "fb_RefCount (race_buffer ''/sdcard/f'' [1, 2, 3] 0x1A4 2) = 2"
  using refcount_exact [OF shared_trace [of False "''/sdcard/f''" "[1, 2, 3]" "0x1A4"], of 0] by simp

text \<open>C5: In every interleaving, when no release is pending, every entry of the map of open files is
of a buffer with an open file, under the buffer's path: no closed buffer is leaked. If opens wait
for the releases of their path, every buffer with an open file has its entry too, so the map has
exactly those buffers; without the waiting that is not so (C6).\<close>

theorem no_leaked_buffer:
  assumes "reachable u waits s" and "ms_pending s = {#}"
  shows "(ms_paths s p = Some a \<longrightarrow> a \<in># ms_handles s \<and> fb_Path (ms_buffer s a) = p) \<and>
    (waits \<and> a \<in># ms_handles s \<longrightarrow> ms_paths s (fb_Path (ms_buffer s a)) = Some a)"
proof (intro conjI impI)
  show "a \<in># ms_handles s" "fb_Path (ms_buffer s a) = p" if "ms_paths s p = Some a"
    using reachable_counted [OF assms(1)] assms(2) that by (auto simp: mapped_def)
  show "ms_paths s (fb_Path (ms_buffer s a)) = Some a" if "waits \<and> a \<in># ms_handles s"
    using exclusiveD(1) [OF reachable_exclusive] assms(1) that by auto
qed

theorem no_leaked_buffer_witness:
  "(0 :: nat) \<in># {#0, 0#} \<and> fb_Path (race_buffer ''/sdcard/f'' [1, 2, 3] 0x1A4 2) = ''/sdcard/f'' \<and>
   [''/sdcard/f'' \<mapsto> 0] (fb_Path (race_buffer ''/sdcard/f'' [1, 2, 3] 0x1A4 2)) = Some (0 :: nat)"
  using no_leaked_buffer [OF shared_trace [of True "''/sdcard/f''" "[1, 2, 3]" "0x1A4"], of "''/sdcard/f''" 0]
  by simp

text \<open>C6: The code does not make an open wait, and then a release that runs late removes the map
entry of a newer buffer: two open files of one path have different buffers, with nothing
pending.\<close>

theorem late_release_splits_file:
  "\<exists>(s :: (mem, ref_error) machine) a b. reachable ref_util False s \<and> ms_pending s = {#} \<and>
     a \<noteq> b \<and> a \<in># ms_handles s \<and> b \<in># ms_handles s \<and>
     fb_Path (ms_buffer s a) = fb_Path (ms_buffer s b)"
  using race_trace [of "''/sdcard/f''" "[1]" "0x1A4"]
  by (intro exI [of _ "mem_state [''/sdcard/f'' \<mapsto> 2]
      [race_buffer ''/sdcard/f'' [1] 0x1A4 0, race_buffer ''/sdcard/f'' [1] 0x1A4 1,
       race_buffer ''/sdcard/f'' [1] 0x1A4 1] {#2, 1#} {#}"] exI [of _ 2] exI [of _ 1])
    (simp add: race_buffer_count)

section \<open>File contents\<close>

text \<open>C7: Refinement: all the open files of one path behave like one shared sequence of bytes with
the permissions of each file's flags. Any sequence of reads, writes, truncations, flushes and
syncs through any of them (sizes within the bounds, no truncation that shrinks to a size other
than 0) gives the replies and the contents of that abstract file, and whenever the buffer is
clean the device holds the same bytes.\<close>

theorem open_files_refine_bytes:
  assumes "file_device c valid files writable receiving closed"
    and "holds_bytes c valid files writable f w bytes" and "allowed_ops ops bytes"
  shows "\<exists>f' w'. run_ops u ops f w = Return (fst (spec_ops ops bytes), f', w') \<and>
    fb_Contents f' = snd (spec_ops ops bytes) \<and>
    (\<not> fb_IsDirty f' \<longrightarrow> files (w_dev w') (fb_Path f) = Some (snd (spec_ops ops bytes)))"
proof -
  obtain f' w' where r: "run_ops u ops f w = Return (fst (spec_ops ops bytes), f', w')"
    "holds_bytes c valid files writable f' w' (snd (spec_ops ops bytes))" "same_file f f'"
    using file_device.run_ops_refines [OF assms, of u] by blast
  then show ?thesis using same_file_fields(1) [OF r(3)] by (auto simp: holds_bytes_def)
qed

theorem open_files_refine_bytes_witness:
  "\<exists>f' w'. run_ops ref_util
      [(O_WRONLY, WriteOp [9] 4), (O_RDONLY, ReadOp 10 1), (O_RDONLY, WriteOp [7] 0), (O_RDWR, TruncateOp 6),
       (O_RDWR, FlushOp)] ref_buffer ref_world =
    Return ([WriteReply 1 (fuseStatus OK), ReadReply (ReadResultData [2, 3, 0, 9]) (fuseStatus OK),
      WriteReply 0 (fuseStatus EPERM), StatusReply (fuseStatus OK), StatusReply (fuseStatus OK)], f', w') \<and>
    fb_Contents f' = [1, 2, 3, 0, 9, 0]"
proof -
  let ?ops = "[(O_WRONLY, WriteOp [9] 4), (O_RDONLY, ReadOp 10 1), (O_RDONLY, WriteOp [7] 0), (O_RDWR, TruncateOp 6),
       (O_RDWR, FlushOp)]"
  have o: "overwrite [1, 2, 3] 4 [9 :: byte] = [1, 2, 3, 0, 9]" by (simp add: overwrite_def eval_nat_numeral)
  have s: "spec_ops ?ops [1, 2, 3] =
    ([WriteReply 1 (fuseStatus OK), ReadReply (ReadResultData [2, 3, 0, 9]) (fuseStatus OK),
      WriteReply 0 (fuseStatus EPERM), StatusReply (fuseStatus OK), StatusReply (fuseStatus OK)], [1, 2, 3, 0, 9, 0])"
    by (simp add: o)
  have "allowed_ops ?ops [1, 2, 3]" by (simp add: o buffer_limit_def)
  moreover have "holds_bytes mem_client mem_valid mem_files mem_writable ref_buffer ref_world [1, 2, 3]"
    by (simp add: holds_bytes_def)
  ultimately obtain f' w' where "run_ops ref_util ?ops ref_buffer ref_world = Return (fst (spec_ops ?ops [1, 2, 3]), f', w')"
    "fb_Contents f' = snd (spec_ops ?ops [1, 2, 3])"
    using open_files_refine_bytes [OF mem.file_device_axioms, of ref_buffer ref_world "[1, 2, 3]" ?ops ref_util]
    by blast
  then show ?thesis unfolding s fst_conv snd_conv by blast
qed

text \<open>C8: Round trip through the device: what one buffer saves, another buffer of the same path
loads; no other file changes and the saved buffer is clean.\<close>

theorem save_then_load:
  assumes "file_device c valid files writable receiving closed"
    and "fb_Client f = c" and "fb_Client g = c" and "fb_Path g = fb_Path f"
    and "valid (w_dev w)" and "writable (w_dev w) (fb_Path f)" and "wf_slice (fb_buffer f)"
  shows "\<exists>f' w1 g' w2.
    saveToDevice u f w = Return (None, f', w1) \<and> loadFromDevice u g w1 = Return (None, g', w2) \<and>
    fb_Contents g' = fb_Contents f \<and> \<not> fb_IsDirty f' \<and>
    files (w_dev w2) = (files (w_dev w))(fb_Path f \<mapsto> fb_Contents f)"
proof -
  obtain d1 where s: "saveToDevice u f w = Return (None, f\<lparr>fb_dirty := dirty_new\<rparr>, w\<lparr>w_dev := d1\<rparr>)"
    "valid d1" "files d1 = (files (w_dev w))(fb_Path f \<mapsto> fb_Contents f)"
    using file_device.saveToDevice_store [OF assms(1,2,5-7), of u] by blast
  have "files (w_dev (w\<lparr>w_dev := d1\<rparr>)) (fb_Path g) = Some (fb_Contents f)"
    using s(3) assms(4) by simp
  then obtain b d2 where "loadFromDevice u g (w\<lparr>w_dev := d1\<rparr>) =
      Return (None, g\<lparr>fb_buffer := b\<rparr>, w\<lparr>w_dev := d1, w_dev := d2\<rparr>)"
    "gbs_data b = fb_Contents f" "files d2 = files d1"
    using file_device.loadFromDevice_fetch [OF assms(1,3), of "w\<lparr>w_dev := d1\<rparr>" "fb_Contents f" u] s(2)
    by auto
  then show ?thesis using s by (auto simp: fb_IsDirty_def fb_Contents_def)
qed

theorem save_then_load_witness:
  "\<exists>f' w1 g' w2. saveToDevice ref_util ref_buffer ref_world = Return (None, f', w1) \<and>
    loadFromDevice ref_util (new_buffer ''/sdcard/f'' mem_client 0 0 False) w1 = Return (None, g', w2) \<and>
    fb_Contents g' = [1, 2, 3]"
  using save_then_load [OF mem.file_device_axioms, of ref_buffer "new_buffer ''/sdcard/f'' mem_client 0 0 False"
      ref_world ref_util]
  by (auto simp: new_buffer_def)

text \<open>C9: A write through an open file followed by a flush succeeds, and then the file on the
device is the old contents overwritten at the offset, padded with zeros up to it; the buffer is
clean and holds the same. This is so for every write that starts inside the contents or at their
end. A write past the end also needs the buffer's spare bytes to be zero, as they are unless the
buffer was shrunk in place before (C17). The write ends below \<open>buffer_limit\<close> and is shorter than 2^32
bytes, the device can write the path, and the clock is right.\<close>

theorem write_flush_durable:
  assumes "file_device c valid files writable receiving closed"
    and "CanWrite flags" and "wf_slice (fb_buffer f)"
    and "off \<le> fb_Size f \<or> slack_zero (fb_buffer f)" and "good_clock (w_clock w)"
    and "0 \<le> off" and "off + int (length data) \<le> buffer_limit" and "length data < 2 ^ 32"
    and "fb_Client f = c" and "valid (w_dev w)" and "writable (w_dev w) (fb_Path f)"
  shows "\<exists>r1 f1 w1 r2 f2 w2.
    af_Write u flags data off f w = Return ((int (length data), fuseStatus OK), r1, f1, w1) \<and>
    af_Flush u flags f1 w1 = Return (fuseStatus OK, r2, f2, w2) \<and>
    files (w_dev w2) (fb_Path f) = Some (overwrite (fb_Contents f) (nat off) data) \<and>
    fb_Contents f2 = overwrite (fb_Contents f) (nat off) data \<and> \<not> fb_IsDirty f2"
proof -
  have "write_ready f off" using assms(3,4) by (auto simp: write_ready_def)
  from file_device.af_Write_Flush [OF assms(1,2) this assms(5-11)] show ?thesis .
qed

theorem write_flush_durable_witness:
  "\<exists>r1 f1 w1 r2 f2 w2.
    af_Write ref_util O_RDWR [9, 8] 5 ref_buffer ref_world = Return ((2, fuseStatus OK), r1, f1, w1) \<and>
    af_Flush ref_util O_RDWR f1 w1 = Return (fuseStatus OK, r2, f2, w2) \<and>
    mem_files (w_dev w2) ''/sdcard/f'' = Some [1, 2, 3, 0, 0, 9, 8]"
proof -
  have "overwrite [1, 2, 3] 5 [9, 8] = [1, 2, 3, 0, 0, 9, 8]"
    by (simp add: overwrite_def eval_nat_numeral)
  then show ?thesis
    using write_flush_durable [OF mem.file_device_axioms, of O_RDWR ref_buffer 5 ref_world "[9, 8]" ref_util]
      ref_buffer_simps(3) by (auto simp: buffer_limit_def good_slice_def)
qed

text \<open>C10: Opening an existing file without truncating it gives a clean buffer with the bytes the
device has and no reference yet; the permissions are the ones asked for or else the file's own,
and no file changes.\<close>

theorem open_existing_file:
  assumes "file_device c valid files writable receiving closed"
    and "flag_requires_write flags \<longrightarrow> CanWrite flags" and "\<not> Contains flags O_TRUNC"
    and "Stat c p log (w_dev w) = (Inr e, log', d)" and "valid d" and "files d p = Some b"
  shows "\<exists>f w'. NewFileBuffer u flags p c t perms h log w = Return (Inr f, log', w') \<and>
    fb_Contents f = b \<and> good_slice (fb_buffer f) \<and> \<not> fb_IsDirty f \<and> fb_refCount f = 0 \<and>
    fb_Path f = p \<and> fb_Perms f = effective_perms perms (Perm (de_mode e)) \<and>
    valid (w_dev w') \<and> files (w_dev w') = files d \<and> w_clock w' = w_clock w"
  using file_device.NewFileBuffer_open_existing [OF assms, of u t perms h] by blast

theorem open_existing_file_witness:
  "\<exists>f w'. NewFileBuffer ref_util O_RDONLY ''/sdcard/f'' mem_client 0 0 True
      (StartOperation ''Open'' ''/sdcard/f'') ref_world =
      Return (Inr f, StartOperation ''Open'' ''/sdcard/f'', w') \<and> fb_Contents f = [1, 2, 3]"
  using open_existing_file [OF mem.file_device_axioms, of O_RDONLY "''/sdcard/f''"
      "StartOperation ''Open'' ''/sdcard/f''" ref_world _ _ ref_mem "[1, 2, 3]" ref_util 0 0 True]
  by (auto simp: mem_Stat_def flag_requires_write_def Contains_def flag_defs)

text \<open>C11: Opening a file that, as \<open>Stat\<close> says, does not exist with \<open>O_CREATE\<close> creates it, empty, on
the device at once; the buffer is clean, empty and has the permissions asked for, or the default
ones when the open asks for none. If the device had no file at the path (\<open>Stat\<close> may answer from a
stale listing), the file on the device has these permissions too.\<close>

theorem open_creates:
  assumes "perm_device c valid files writable receiving closed file_perms opened_as"
    and "CanWrite flags" and "Contains flags O_CREATE"
    and "Stat c p log (w_dev w) = (Inl e, log', d)"
    and "WrapErrf u e ''error reading file permissions'' = Return e'"
    and "HasErrCode u e' FileNoExistError" and "valid d" and "writable d p"
    and "good_clock (w_clock w)"
  shows "\<exists>f w'. NewFileBuffer u flags p c t perms h log w = Return (Inr f, log', w') \<and>
    fb_Contents f = [] \<and> \<not> fb_IsDirty f \<and>
    fb_Perms f = (if perms = DontSetPerms then DefaultFilePermissions else perms) \<and>
    files (w_dev w') = (files d)(p \<mapsto> []) \<and>
    (files d p = None \<longrightarrow>
      file_perms (w_dev w') p = Some (if perms = DontSetPerms then DefaultFilePermissions else perms))"
proof -
  have fd: "file_device c valid files writable receiving closed"
    using assms(1) by (rule perm_device.axioms(1))
  obtain f w' where n: "NewFileBuffer u flags p c t perms h log w = Return (Inr f, log', w')"
    "fb_Contents f = []" "\<not> fb_IsDirty f" "fb_Perms f = effective_perms perms DefaultFilePermissions"
    "files (w_dev w') = (files d)(p \<mapsto> [])"
    using file_device.NewFileBuffer_create [OF fd assms(2-9), of t perms h] by blast
  then show ?thesis
    using perm_device.NewFileBuffer_create_perms [OF assms n(1)]
    by (intro exI [of _ f] exI [of _ w']) (simp add: effective_perms_def)
qed

theorem open_creates_witness:
  "\<exists>f w'. NewFileBuffer ref_util (create_flags 0) ''/sdcard/g'' mem_client 0 0x180 True
      (StartOperation ''Create'' ''/sdcard/g'') ref_world =
      Return (Inr f, StartOperation ''Create'' ''/sdcard/g'', w') \<and>
    mem_files (w_dev w') ''/sdcard/g'' = Some [] \<and> mem_perms (w_dev w') ''/sdcard/g'' = Some 0x180"
proof -
  have "mem_files ref_mem ''/sdcard/g'' = None" by (simp add: mem_files_def)
  then show ?thesis
    using open_creates [OF mem_perm.perm_device_axioms, of "create_flags 0" "''/sdcard/g''"
        "StartOperation ''Create'' ''/sdcard/g''" ref_world "not_found ''/sdcard/g''" _ ref_mem ref_util
        "Foreign (Wrapping (Coded FileNoExistError ''/sdcard/g'') ''error reading file permissions'')" 0 "0x180" True]
    by (auto simp: mem_Stat_def ref_util_def not_found_def DontSetPerms_def)
qed

text \<open>C12: When the first load of a buffer fails, the open succeeds all the same: the buffer has the
bytes that were read before the stream broke, none when the stream could not be opened.\<close>

theorem open_hides_load_error:
  assumes "flag_requires_write flags \<longrightarrow> CanWrite flags" and "\<not> Contains flags O_TRUNC"
    and "Stat c p log (w_dev w) = (Inr e, log', d)"
    and "loadFromDevice u (new_buffer p c t (effective_perms perms (Perm (de_mode e))) h) (w\<lparr>w_dev := d\<rparr>)
      = Return (Some x, f, w')"
  shows "NewFileBuffer u flags p c t perms h log w = Return (Inr f, log', w') \<and>
    fb_Contents f = (case OpenRead c p d of (Inl err, _) \<Rightarrow> [] | (Inr stream, _) \<Rightarrow> st_data stream)"
  using assms by (rule NewFileBuffer_load_error)

theorem open_hides_load_error_witness:
  "\<exists>f w'. NewFileBuffer ref_util O_RDONLY ''/sdcard/f'' ref_broken 0 0 True
     (StartOperation ''Open'' ''/sdcard/f'') ref_world =
   Return (Inr f, StartOperation ''Open'' ''/sdcard/f'', w') \<and> fb_Contents f = [7]"
proof -
  have st: "Stat ref_broken ''/sdcard/f'' (StartOperation ''Open'' ''/sdcard/f'') (w_dev ref_world) =
      (Inr (node_entry ''/sdcard/f'' (FileNode [1, 2, 3] 0x1A4)), StartOperation ''Open'' ''/sdcard/f'', ref_mem)"
    by (simp add: ref_broken_def mem_Stat_def)
  obtain x f w' where l: "loadFromDevice ref_util (new_buffer ''/sdcard/f'' ref_broken 0 (effective_perms 0
      (Perm (de_mode (node_entry ''/sdcard/f'' (FileNode [1, 2, 3] 0x1A4))))) True) (ref_world\<lparr>w_dev := ref_mem\<rparr>)
      = Return (Some x, f, w')"
    by (simp add: loadFromDevice_def ref_broken_def new_buffer_def gbs_read_from_def ref_util_def not_found_def Let_def)
  have "OpenRead ref_broken ''/sdcard/f'' ref_mem =
      (Inr \<lparr>st_data = [7], st_slack = [], st_err = Some (not_found ''/sdcard/f'')\<rparr>, ref_mem)"
    by (simp add: ref_broken_def)
  moreover have "flag_requires_write O_RDONLY \<longrightarrow> CanWrite O_RDONLY" "\<not> Contains O_RDONLY O_TRUNC"
    by (simp_all add: flag_requires_write_def Contains_def flag_defs)
  from open_hides_load_error [OF this st l] calculation show ?thesis by auto
qed

text \<open>C13: Creating a file at a path that is still open truncates nothing and sets no permissions: the
request succeeds with the buffer that is there, and neither the device nor the clock is used.\<close>

theorem create_shares_open_file:
  assumes "of_buffersByPath (fs_openFiles fs) (convertClientPathToDevicePath fs name) = Some a"
    and "a < length (of_heap (fs_openFiles fs))" and "\<not> cf_ReadOnly (fs_config fs)"
  shows "\<exists>r ofs. fs_Create u name raw perms fs w =
      Return ((Some (NewAdbFile (create_flags raw) a), fuseStatus OK), r, fs\<lparr>fs_openFiles := ofs\<rparr>, w) \<and>
    fb_Contents (of_heap ofs ! a) = fb_Contents (of_heap (fs_openFiles fs) ! a) \<and>
    fb_Perms (of_heap ofs ! a) = fb_Perms (of_heap (fs_openFiles fs) ! a)"
proof -
  let ?p = "convertClientPathToDevicePath fs name"
  have "GetOrLoad u ?p (create_flags raw) perms (StartOperation ''Create'' ?p) (fs_openFiles fs) w =
      Return (Inr a, StartOperation ''Create'' ?p, of_inc a (fs_openFiles fs), w)"
    by (rule GetOrLoad_open [OF assms(1)])
  from fs_open_with_opened [OF this same_report_refl assms(3) refl] obtain r where
    "fs_Create u name raw perms fs w = Return ((Some (NewAdbFile (create_flags raw) a), fuseStatus OK), r,
      fs\<lparr>fs_openFiles := of_inc a (fs_openFiles fs)\<rparr>, w)"
    by (auto simp: fs_Create_def)
  then show ?thesis using assms(2)
    by (intro exI [of _ r] exI [of _ "of_inc a (fs_openFiles fs)"])
      (simp add: fb_IncRefCount_def fb_Contents_def Let_def)
qed

theorem create_shares_open_file_witness:
  "\<exists>r ofs. fs_Create ref_util ''sdcard/f'' 0 0x180 ((ref_fs '''')\<lparr>fs_openFiles := mem_open_files [''/sdcard/f'' \<mapsto> 0] [ref_buffer]\<rparr>)
      ref_world = Return ((Some (NewAdbFile (create_flags 0) 0), fuseStatus OK), r,
        (ref_fs '''')\<lparr>fs_openFiles := ofs\<rparr>, ref_world) \<and>
    fb_Contents (of_heap ofs ! 0) = [1, 2, 3]"
proof -
  let ?fs = "(ref_fs '''')\<lparr>fs_openFiles := mem_open_files [''/sdcard/f'' \<mapsto> 0] [ref_buffer]\<rparr>"
  have "convertClientPathToDevicePath ?fs ''sdcard/f'' = ''/sdcard/f''"
    by (simp add: convertClientPathToDevicePath_def path_join_def path_clean_def Let_def)
  then have "of_buffersByPath (fs_openFiles ?fs) (convertClientPathToDevicePath ?fs ''sdcard/f'') = Some 0" by simp
  from create_shares_open_file [OF this, of ref_util 0 "0x180" ref_world] show ?thesis
    by (auto simp: ref_fs_def)
qed

section \<open>The byte buffer\<close>

text \<open>C14: A run of writes to the growable buffer gives exactly the bytes of overwriting a sequence,
one write after the other, whether the array grows or not: for any buffer when no write leaves a
gap behind the bytes before it; and with gaps, which read as zeros, when the buffer's spare bytes
are zero, as they are in a new buffer and after a reallocation, and stay under writes. (Shrinking
in place makes them something else, see C17.)\<close>

theorem buffer_writes:
  assumes "wf_slice s" and "int (length (gbs_data s)) \<le> buffer_limit"
    and "list_all (\<lambda>(d, off). 0 \<le> off \<and> off + int (length d) \<le> buffer_limit) ws"
    and "slack_zero s \<or> gapless (length (gbs_data s)) ws"
  shows "\<exists>s'. byte_buffer.write_all gbs_write_at ws s = Return s' \<and> wf_slice s' \<and>
    (slack_zero s \<longrightarrow> slack_zero s') \<and>
    gbs_data s' = foldl (\<lambda>c (d, off). overwrite c (nat off) d) (gbs_data s) ws"
  using slice.write_all_contents [OF assms(1,2), of ws] assms(3,4) by (simp add: case_prod_unfold)

theorem buffer_writes_witness:
  "\<exists>s'. byte_buffer.write_all gbs_write_at [([1, 2], 0), ([3], 4), ([9], 1)] empty_slice = Return s' \<and>
    gbs_data s' = [1, 9, 0, 0, 3]"
proof -
  have "foldl (\<lambda>c (d, off). overwrite c (nat off) d) (gbs_data empty_slice)
      [([1, 2], 0), ([3], 4), ([9], 1)] = [1, 9, 0, 0, 3]"
    by (simp add: gbs_data_def empty_slice_def overwrite_def eval_nat_numeral)
  moreover have "length (gbs_data empty_slice) = 0" by (simp add: gbs_data_def empty_slice_def)
  ultimately show ?thesis
    using buffer_writes [of empty_slice "[([1, 2], 0), ([3], 4), ([9], 1)]"] good_empty_slice
    by (auto simp: buffer_limit_def good_slice_def)
qed

text \<open>C15: Growing a buffer keeps its bytes. In a new array the bytes added are zeros; when the array
is big enough they are the bytes that stand there beyond the length, which are zeros in a buffer
whose spare bytes are, and then the spare bytes stay so.\<close>

theorem buffer_grows:
  assumes "wf_slice s" and "int (used s) \<le> n" and "n \<le> buffer_limit"
  shows "\<exists>s'. gbs_resize n s = Return s' \<and> wf_slice s' \<and>
    gbs_data s' = gbs_data s @
      (if n \<le> int (gbs_cap s) then take (nat n - used s) (drop (used s) (backing s))
       else replicate (nat n - used s) 0) \<and>
    (slack_zero s \<longrightarrow> slack_zero s' \<and> gbs_data s' = gbs_data s @ replicate (nat n - used s) 0)"
proof -
  have "2 * n \<le> max_alloc" using assms(3) by (simp add: buffer_limit_def max_alloc_def)
  from resize_grow_exact [OF assms(1,2) this] grown_zero [OF assms(1), of n] show ?thesis
    by (auto simp: grown_def)
qed

theorem buffer_grows_witness:
  "\<exists>s'. gbs_resize 5 (fb_buffer ref_buffer) = Return s' \<and> gbs_data s' = [1, 2, 3, 0, 0]"
proof -
  have "gbs_data (fb_buffer ref_buffer) = [1, 2, 3]" by (simp flip: fb_Contents_def)
  moreover have "used (fb_buffer ref_buffer) = 3" by simp
  ultimately show ?thesis
    using buffer_grows [of "fb_buffer ref_buffer" 5] good_slice_wf [OF ref_buffer_simps(3)]
      ref_buffer_simps(3) by (auto simp: buffer_limit_def good_slice_def eval_nat_numeral)
qed

text \<open>C16: Shrinking a buffer in place (it is at least a third full) loses data: the zeros go to
the start of the part that is kept, so that part is not the prefix of the old contents.\<close>

theorem shrink_zeroes_prefix:
  assumes "wf_slice s" and "0 \<le> n" and "n < int (used s)" and "gbs_cap s div 3 \<le> used s"
  shows "\<exists>s'. gbs_resize n s = Return s' \<and>
    gbs_data s' = (let k = min (nat n) (used s - nat n) in replicate k 0 @ drop k (take (nat n) (gbs_data s)))"
proof -
  have "take m (replicate r (0::byte) @ drop r xs) = replicate (min m r) 0 @ drop (min m r) (take m xs)"
    for m r and xs :: "byte list"
    by (cases "m \<le> r") (simp_all add: min_def drop_take)
  note z = this [of "nat n" "used s - nat n" "backing s"]
  have "take (nat n) (gbs_data s) = take (nat n) (backing s)"
    using assms(3) by (simp add: gbs_data_def)
  with z show ?thesis
    using resize_shrink_in_place [OF assms] by (simp add: gbs_data_def Let_def)
qed

theorem shrink_zeroes_prefix_witness:
  "\<exists>s'. gbs_resize 2 (fb_buffer ref_buffer) = Return s' \<and> gbs_data s' = [0, 2]"
proof -
  have "gbs_data (fb_buffer ref_buffer) = [1, 2, 3]" by (simp flip: fb_Contents_def)
  with shrink_zeroes_prefix [OF good_slice_wf [OF ref_buffer_simps(3)], of 2]
  show ?thesis by simp
qed

text \<open>C17: What a truncation cut off comes back: shrinking a buffer in place and growing it to the
old length again gives zeros in front and the old bytes after them, so the last bytes are those
that were cut off, where the comments of the code promise zeros.\<close>

theorem cut_bytes_return:
  assumes "wf_slice s" and "0 \<le> n" and "n < int (used s)" and "gbs_cap s div 3 \<le> used s"
  shows "\<exists>s'. go_bind (gbs_resize n s) (gbs_resize (int (used s))) = Return s' \<and>
    gbs_data s' = replicate (used s - nat n) 0 @ drop (used s - nat n) (gbs_data s)"
  using assms by (rule resize_shrink_grow)

theorem cut_bytes_return_witness:
  "\<exists>s'. go_bind (gbs_resize 5 \<lparr>backing = [1, 2, 3, 4, 5, 6], used = 6\<rparr>) (gbs_resize 6) = Return s' \<and>
    gbs_data s' = [0, 2, 3, 4, 5, 6]"
  using cut_bytes_return [of "\<lparr>backing = [1, 2, 3, 4, 5, 6], used = 6\<rparr>" 5]
  by (simp add: wf_slice_def gbs_cap_def gbs_data_def)

text \<open>C18: The write-back policy: a write to a dirty buffer is saved at once when the buffer was
first dirtied longer ago than the timeout, and otherwise touches only the buffer, which keeps
the time it was first dirtied.\<close>

theorem write_back_policy:
  assumes "file_device c valid files writable receiving closed"
    and "CanWrite flags" and "wf_slice (fb_buffer f)"
    and "off \<le> fb_Size f \<or> slack_zero (fb_buffer f)" and "good_clock (w_clock w)"
    and "0 \<le> off" and "off + int (length data) \<le> buffer_limit" and "length data < 2 ^ 32"
    and "fb_Client f = c" and "valid (w_dev w)" and "writable (w_dev w) (fb_Path f)"
    and "fb_IsDirty f" and "clock_now (w_clock w) = (now, k)"
  shows "\<exists>r f' w'. af_Write u flags data off f w = Return ((int (length data), fuseStatus OK), r, f', w') \<and>
    (if fb_dirty f + fb_DirtyTimeout f < now
     then \<not> fb_IsDirty f' \<and> files (w_dev w') (fb_Path f) = Some (overwrite (fb_Contents f) (nat off) data)
     else fb_dirty f' = fb_dirty f \<and> w_dev w' = w_dev w)"
proof -
  have "write_ready f off" using assms(3,4) by (auto simp: write_ready_def)
  from file_device.af_Write_policy [OF assms(1,2) this assms(5-13)] show ?thesis .
qed

text \<open>Dirtied at time 1, the buffer is written 400 seconds later.\<close>

theorem write_back_policy_witness:
  "\<exists>r f' w'. af_Write ref_util O_RDWR [9] 0 (ref_buffer\<lparr>fb_dirty := 1\<rparr>)
      (ref_world\<lparr>w_clock := \<lparr>readings = \<lambda>n. int n + 400 * 10 ^ 9, ticks = 0\<rparr>\<rparr>) = Return ((1, fuseStatus OK), r, f', w') \<and>
    mem_files (w_dev w') ''/sdcard/f'' = Some [9, 2, 3]"
proof -
  let ?w = "ref_world\<lparr>w_clock := \<lparr>readings = \<lambda>n. int n + 400 * 10 ^ 9, ticks = 0\<rparr>\<rparr>"
  have "overwrite [1, 2, 3] 0 [9] = [9, 2, 3]" "fb_DirtyTimeout ref_buffer = DefaultDirtyTimeout"
    by (simp_all add: overwrite_def ref_buffer_def race_buffer_def new_buffer_def)
  then show ?thesis
    using write_back_policy [OF mem.file_device_axioms, of O_RDWR "ref_buffer\<lparr>fb_dirty := 1\<rparr>" 0 ?w "[9]"
      "400 * 10 ^ 9" "(w_clock ?w)\<lparr>ticks := 1\<rparr>" ref_util]
    by (auto simp: buffer_limit_def good_clock_def mono_def fb_IsDirty_def dirty_is_set_def clock_now_def
        fb_Contents_def DefaultDirtyTimeout_def simp flip: ref_buffer_simps(4))
qed

text \<open>C19: After a successful \<open>fsync\<close> the buffer and the file on the device agree and the buffer is
clean: a dirty buffer has been saved, a clean one has been read again.\<close>

theorem fsync_agrees:
  assumes "file_device c valid files writable receiving closed"
    and "fb_Client f = c" and "valid (w_dev w)" and "wf_slice (fb_buffer f)"
    and "if fb_IsDirty f then writable (w_dev w) (fb_Path f) else files (w_dev w) (fb_Path f) \<noteq> None"
  shows "\<exists>r f' w'. af_Fsync u n f w = Return (fuseStatus OK, r, f', w') \<and> \<not> fb_IsDirty f' \<and>
    files (w_dev w') (fb_Path f) = Some (fb_Contents f') \<and>
    (if fb_IsDirty f then fb_Contents f' = fb_Contents f else files (w_dev w') = files (w_dev w))"
proof -
  obtain f' w' where s: "fb_Sync u f w = Return (None, f', w')" "\<not> fb_IsDirty f'"
    "files (w_dev w') (fb_Path f) = Some (fb_Contents f')"
    "fb_IsDirty f \<longrightarrow> fb_buffer f' = fb_buffer f" "\<not> fb_IsDirty f \<longrightarrow> files (w_dev w') = files (w_dev w)"
    using file_device.fb_Sync_agree [OF assms, of u] by blast
  then show ?thesis by (auto simp: af_Fsync_def Let_def fb_Contents_def)
qed

theorem fsync_agrees_witness:
  "\<exists>r f' w'. af_Fsync ref_util 0 ref_buffer ref_world = Return (fuseStatus OK, r, f', w') \<and>
    fb_Contents f' = [1, 2, 3]"
  using fsync_agrees [OF mem.file_device_axioms, of ref_buffer ref_world ref_util 0] by auto

text \<open>C20: An open file refuses what its flags do not allow, with EPERM and no effect; a flush of a
file that cannot be written succeeds and does nothing.\<close>

theorem open_file_permissions:
  "(\<not> CanRead flags \<longrightarrow> (\<exists>r. af_Read u flags buf off f = Return (ErrorReadResult (fuseStatus EPERM), fuseStatus EPERM, r))) \<and>
   (\<not> CanWrite flags \<longrightarrow>
      (\<exists>r. af_Write u flags data off f w = Return ((0, fuseStatus EPERM), r, f, w)) \<and>
      (\<exists>r. af_Truncate u flags n f w = Return (fuseStatus EPERM, r, f, w)) \<and>
      (\<exists>r. af_Flush u flags f w = Return (fuseStatus OK, r, f, w)))"
  by (simp add: af_refused af_Flush_readonly)

theorem open_file_permissions_witness:
  "(\<exists>r. af_Read ref_util O_WRONLY [0] 0 ref_buffer = Return (ErrorReadResult (fuseStatus EPERM), fuseStatus EPERM, r)) \<and>
   (\<exists>r. af_Write ref_util O_RDONLY [7] 0 ref_buffer ref_world = Return ((0, fuseStatus EPERM), r, ref_buffer, ref_world))"
  using open_file_permissions [of O_WRONLY ref_util "[0]" 0 ref_buffer "[7]" ref_world 0]
    open_file_permissions [of O_RDONLY ref_util "[0]" 0 ref_buffer "[7]" ref_world 0]
  by simp

section \<open>Looking at the device\<close>

text \<open>C21: \<open>GetAttr\<close> always answers: with the status of the device's answer and, when there is an
entry, its attributes; the client goes back to the pool, which is as it was.\<close>

theorem getattr_answers:
  assumes "log_discipline c" and "pool_ready fs" and "pool_client fs = c"
    and "Stat c (convertClientPathToDevicePath fs name)
      (StartOperation ''GetAttr'' (convertClientPathToDevicePath fs name)) d = (res, r, d')"
  shows "\<exists>r'. fs_GetAttr u name fs d = Return
    ((((case res of Inl _ \<Rightarrow> zero_attr | Inr e \<Rightarrow> asFuseAttr e),
       fuseStatus (toErrno u (case res of Inl e \<Rightarrow> Some e | Inr _ \<Rightarrow> None))), r', d'), fs)"
  using log_discipline.fs_GetAttr_total [OF assms, of u] by blast

theorem getattr_answers_witness:
  "\<exists>r. fs_GetAttr ref_util ''sdcard/f'' (ref_fs '''') ref_mem =
     Return (((asFuseAttr (node_entry ''/sdcard/f'' (FileNode [1, 2, 3] 0x1A4)), fuseStatus OK), r, ref_mem), ref_fs '''')"
proof -
  have p: "convertClientPathToDevicePath (ref_fs '''') ''sdcard/f'' = ''/sdcard/f''"
    by (simp add: convertClientPathToDevicePath_def path_join_def path_clean_def)
  have "log_discipline mem_client" unfolding mem_client_def by (rule goadb_log)
  then show ?thesis
    using getattr_answers [of mem_client "ref_fs ''''" "''sdcard/f''" ref_mem
        "Inr (node_entry ''/sdcard/f'' (FileNode [1, 2, 3] 0x1A4))" _ ref_mem ref_util]
    by (simp add: p mem_Stat_def)
qed

text \<open>C22: Every client path becomes a canonical absolute path on the device, and a path without
\<open>..\<close> stays below the device root, whatever else it contains.\<close>

theorem client_paths_confined:
  "(\<exists>cs. list_all normal_elem cs \<and> convertClientPathToDevicePath fs name = abs_path cs) \<and>
   (''..'' \<notin> set (split_on (CHR ''/'') name) \<longrightarrow>
     (\<exists>cs. list_all normal_elem cs \<and> convertClientPathToDevicePath fs name =
        abs_path (clean_elems True [] (split_on (CHR ''/'') (cf_DeviceRoot (fs_config fs))) @ cs)))"
  using convert_canonical [of fs name] convert_no_dotdot [of name fs] kept_elems_normal [of name] by blast

theorem client_paths_confined_witness:
  "\<exists>cs. list_all normal_elem cs \<and> convertClientPathToDevicePath (ref_fs ''/sdcard'') ''a//b/.'' =
     abs_path (''sdcard'' # cs)"
  using client_paths_confined [of "ref_fs ''/sdcard''" "''a//b/.''"] by simp

text \<open>C23: Following links ends: a chain of at most 65 links gives its target, which is no link, and
a longer chain, a cycle included, is the error \<open>ErrLinkTooDeep\<close>. The bound is one more than
the constant 64 says.\<close>

theorem links_followed:
  assumes "link_chain dev p n d"
  shows "\<exists>e. readLinkRecursively u dev (p 0) log d =
    Return (if n \<le> 65 then Inr (p n, e) else Inl ErrLinkTooDeep, log, d)"
  using readLinkRecursively_chain [OF assms, of u log] by (simp add: MaxLinkResolveDepth_def)

theorem links_followed_witness:
  "(\<exists>e. readLinkRecursively ref_util mem_client ''/sdcard/l'' (StartOperation ''Access'' '''') ref_mem =
     Return (Inr (''/sdcard/f'', e), StartOperation ''Access'' '''', ref_mem)) \<and>
   readLinkRecursively ref_util mem_client ''/a'' (StartOperation ''Access'' '''') ref_cycle_mem =
     Return (Inl ErrLinkTooDeep, StartOperation ''Access'' '''', ref_cycle_mem)"
  using links_followed [OF ref_link_chain, of ref_util "StartOperation ''Access'' ''''"] links_followed [OF ref_cycle_chain, of ref_util "StartOperation ''Access'' ''''"]
  by (simp add: ref_chain_def ref_cycle_def)

text \<open>C24: File modes are converted kind by kind: the type bits of the FUSE mode say what the entry
is (nothing for sockets and devices, which are not converted), and the permission bits are
kept.\<close>

theorem modes_converted:
  "osFileModeToFuseFileMode m AND ModePerm = Perm m \<and>
   (m AND ModeType = 0 \<longrightarrow> osFileModeToFuseFileMode m AND S_IFMT = S_IFREG) \<and>
   (m AND ModeType = ModeDir \<longrightarrow> osFileModeToFuseFileMode m AND S_IFMT = S_IFDIR) \<and>
   (m AND ModeType = ModeSymlink \<longrightarrow> osFileModeToFuseFileMode m AND S_IFMT = S_IFLNK) \<and>
   (m AND ModeType = ModeNamedPipe \<longrightarrow> osFileModeToFuseFileMode m AND S_IFMT = S_IFIFO) \<and>
   (m AND ModeType \<in> {ModeSocket, ModeDevice} \<longrightarrow> osFileModeToFuseFileMode m AND S_IFMT = 0)"
  using fuse_mode_perm [of m] fuse_mode_type [of m] fuse_type_bits_kinds [of m] by auto

theorem modes_converted_witness:
  "osFileModeToFuseFileMode (ModeDir OR 0x1ED) AND S_IFMT = S_IFDIR \<and>
   osFileModeToFuseFileMode (ModeSymlink OR 0x1FF) AND S_IFMT = S_IFLNK"
proof -
  have "(ModeDir OR 0x1ED) AND ModeType = ModeDir" "(ModeSymlink OR 0x1FF) AND ModeType = ModeSymlink"
    by (simp_all add: mode_defs)
  then show ?thesis
    using modes_converted [of "ModeDir OR 0x1ED"] modes_converted [of "ModeSymlink OR 0x1FF"] by blast
qed



text \<open>C26: When the output of \<open>stat -f\<close> has a word of 65536 bytes or more, \<open>StatFs\<close> panics, unless the
words before it have an invalid number, which is reported first: the error of the scanner is lost
(the nil variable \<open>err\<close> is returned instead) and the nil result dereferenced.\<close>

theorem statfs_panics:
  assumes "pool_ready fs"
    and "readLinkRecursively u (pool_client fs) (convertClientPathToDevicePath fs name)
      (StartOperation ''StatFs'' (convertClientPathToDevicePath fs name)) d = Return (Inr (target, e), r, d1)"
    and "RunCommand (pool_client fs) ''stat'' [''-f'', target] d1 = (Inr output, d2)"
    and "\<exists>w \<in> set (split_words [] output). 65536 \<le> length w"
  shows "fs_StatFs u name fs d = Panic ''nil pointer dereference'' \<longleftrightarrow>
    (\<exists>st. parse_tokens zero_statfs '''' ''''
      (takeWhile (\<lambda>w. length w < 65536) (split_words [] output)) = Inr st)"
  using fs_StatFs_too_long [OF assms(1-3)] assms(4) by (simp add: MaxScanTokenSize_def)

theorem statfs_panics_witness:
  "fs_StatFs ref_util ''sdcard/f'' ((ref_fs '''')\<lparr>fs_pool := [ref_long_client]\<rparr>) ref_mem =
   Panic ''nil pointer dereference''"
proof -
  let ?fs = "(ref_fs '''')\<lparr>fs_pool := [ref_long_client]\<rparr>"
  let ?log = "StartOperation ''StatFs'' ''/sdcard/f'' :: ref_error log_entry"
  have p: "convertClientPathToDevicePath ?fs ''sdcard/f'' = ''/sdcard/f''"
    by (simp add: convertClientPathToDevicePath_def path_join_def path_clean_def ref_fs_def)
  have c: "pool_client ?fs = ref_long_client" "pool_ready ?fs"
    by (simp_all add: pool_client_def pool_ready_def ref_fs_def)
  have "readLinkRecursively ref_util ref_long_client ''/sdcard/f'' ?log ref_mem =
      Return (Inr (''/sdcard/f'', node_entry ''/sdcard/f'' (FileNode [1, 2, 3] 0x1A4)), ?log, ref_mem)"
    by (simp add: ref_long_client_def readLinkRecursively_def follow_links.simps mem_Stat_def is_symlink_def mode_defs)
  then have l: "readLinkRecursively ref_util (pool_client ?fs) (convertClientPathToDevicePath ?fs ''sdcard/f'')
      (StartOperation ''StatFs'' (convertClientPathToDevicePath ?fs ''sdcard/f'')) ref_mem =
      Return (Inr (''/sdcard/f'', node_entry ''/sdcard/f'' (FileNode [1, 2, 3] 0x1A4)), ?log, ref_mem)"
    unfolding c(1) p .
  have r: "RunCommand (pool_client ?fs) ''stat'' [''-f'', ''/sdcard/f''] ref_mem = (Inr ref_long_word, ref_mem)"
    unfolding c(1) by (simp add: ref_long_client_def)
  have "\<exists>w \<in> set (split_words [] ref_long_word). 65536 \<le> length w" using ref_long_words by simp
  from statfs_panics [OF c(2) l r this] show ?thesis using ref_long_words by simp
qed

section \<open>The listing cache\<close>

text \<open>C27: A lookup agrees with the listing: while the cache holds the listing of a directory, \<open>Stat\<close>
of a path in it gives the entry of that name in the listing, and reports that the file does not
exist when there is none; the device is not asked.\<close>

theorem cached_stat_agrees:
  assumes "dir_cache cache stored settle" and "indexed stored k"
    and "ListDirEntries (caching_client u inner cache) dir log (d, k) = (Inr es, log', (d', k'))"
    and "dc_Get cache dir k' = (Some entries, k2)"
    and "path_dir name = dir" and "path_base name \<noteq> dir" and "distinct (map de_name es)"
  shows "Stat (caching_client u inner cache) name log2 (d', k') =
    ((case List.find (\<lambda>e. de_name e = path_base name) es of
        Some e \<Rightarrow> Inr e
      | None \<Rightarrow> Inl (Errorf u FileNoExistError
          (''name '' @ quoted (path_base name) @ '' does not exist in cached directory listing''))),
     log_CacheUsed True log2, (d', k2))"
  using listing_client.Stat_after_listing [OF listing_client.intro [OF assms(1)] _ assms(2,5,6,7,4), of inner log d log' d' u log2]
    assms(3) by (simp add: caching_client_def)

theorem cached_stat_agrees_witness:
  "\<exists>s log'. ListDirEntries (ref_client 5) ''/sdcard'' (StartOperation ''OpenDir'' ''/sdcard'') (ref_mem, ref_cached) =
      (Inr [node_entry ''f'' (FileNode [1, 2, 3] 0x1A4), node_entry ''l'' (LinkNode ''/sdcard/f'')], log', s) \<and>
    fst (Stat (ref_client 5) ''/sdcard/f'' (StartOperation ''GetAttr'' ''/sdcard/f'') s) =
      Inr (node_entry ''f'' (FileNode [1, 2, 3] 0x1A4))"
proof -
  let ?es = "[node_entry ''f'' (FileNode [1, 2, 3] 0x1A4), node_entry ''l'' (LinkNode ''/sdcard/f'')]"
  let ?log = "StartOperation ''OpenDir'' ''/sdcard'' :: ref_error log_entry"
  define k where "k n = ref_cached\<lparr>rc_cache := (rc_cache ref_cached)\<lparr>tc_now := n\<rparr>\<rparr>" for n
  have g: "dc_Get (real_dir_cache (ttl_kv 5)) ''/sdcard'' (k n) = (Some (NewCachedDirEntries ?es), k (Suc n))"
    if "n < 9" for n
    using that by (simp add: real_dir_cache_def rdc_Get_def ttl_kv_def k_def ref_cached_def ttl_items_def)
  have "k 0 = ref_cached" by (simp add: k_def ref_cached_def)
  then have l: "ListDirEntries (ref_client 5) ''/sdcard'' ?log (ref_mem, ref_cached) =
      (Inr ?es, log_CacheUsed True ?log, (ref_mem, k 1))"
    using g [of 0]
    by (simp add: ref_client_def caching_client_def caching_ListDirEntries_def real_dir_cache_def rdc_GetOrLoad_def)
  have p: "path_dir ''/sdcard/f'' = ''/sdcard''" "path_base ''/sdcard/f'' = ''f''"
    by (simp_all add: path_dir_def path_base_def path_clean_def Let_def)
  have "fst (Stat (ref_client 5) ''/sdcard/f'' (StartOperation ''GetAttr'' ''/sdcard/f'') (ref_mem, k 1)) =
      Inr (node_entry ''f'' (FileNode [1, 2, 3] 0x1A4))"
    using cached_stat_agrees [OF ttl.real.dir_cache_axioms ref_cached_indexed l [unfolded ref_client_def] g [of 1] p(1),
        of "StartOperation ''GetAttr'' ''/sdcard/f''"]
    by (simp add: p ref_client_def)
  with l show ?thesis by blast
qed

text \<open>C28: Closing a writer of the caching client invalidates the listing of the file's directory:
once the goroutine it starts has run, the cache has no listing for it.\<close>

theorem close_invalidates_listing:
  assumes "dir_cache cache stored settle"
    and "OpenWrite (caching_client u inner cache) name perms mtime s = (Inr w, s1)"
    and "w_Close w s2 = (err, s3)"
  shows "stored (settle (snd s3)) (path_dir name) = None"
  using listing_client.close_drops_listing [OF listing_client.intro [OF assms(1)] _ assms(3), of inner name perms mtime s s1]
    assms(2) by (simp add: caching_client_def)

theorem close_invalidates_listing_witness:
  "\<exists>w s1. OpenWrite (ref_client 5) ''/sdcard/g'' 0 MtimeOfClose (ref_mem, ref_cached) = (Inr w, s1) \<and>
    ttl_items (rc_cache (rdc_settle (ttl_kv 5) (snd (snd (w_Close w s1))))) ''/sdcard'' = None"
proof -
  obtain w s1 where w: "OpenWrite (ref_client 5) ''/sdcard/g'' 0 MtimeOfClose (ref_mem, ref_cached) = (Inr w, s1)"
    by (simp add: ref_client_def caching_client_def caching_OpenWrite_def mem_OpenWrite_def)
  have "path_dir ''/sdcard/g'' = ''/sdcard''" by (simp add: path_dir_def path_clean_def Let_def)
  then show ?thesis
    using close_invalidates_listing [OF ttl.real.dir_cache_axioms w [unfolded ref_client_def] prod.collapse [symmetric], of s1] w
    by auto
qed

text \<open>C29: Removing a file does not touch the cache: while the listing of its directory is cached,
\<open>Stat\<close> still finds the file that \<open>rm\<close> has removed.\<close>

theorem stale_after_unlink:
  assumes "dc_Get cache (path_dir name) k = (Some entries, k2)" and "ByName entries (path_base name) = Some e"
    and "path_dir name \<noteq> path_base name"
    and "fs_unlink (caching_client u inner cache) name (d, k) = (err, (d', k'))"
  shows "Stat (caching_client u inner cache) name log (d', k') = (Inr e, log_CacheUsed True log, (d', k2))"
proof -
  have "k' = k"
    using assms(4) by (auto simp: fs_unlink_def quiet_command_def caching_client_def split: prod.splits sum.splits)
  then show ?thesis using caching_Stat_hit [OF assms(3,1)] assms(2) by (simp add: caching_client_def)
qed

theorem stale_after_unlink_witness:
  "\<exists>d' k'. fs_unlink (ref_client 5) ''/sdcard/f'' (ref_mem, ref_cached) = (None, (d', k')) \<and>
    mem_files d' ''/sdcard/f'' = None \<and>
    fst (Stat (ref_client 5) ''/sdcard/f'' (StartOperation ''GetAttr'' ''/sdcard/f'') (d', k')) =
      Inr (node_entry ''f'' (FileNode [1, 2, 3] 0x1A4))"
proof -
  let ?d = "ref_mem\<lparr>m_nodes := (m_nodes ref_mem)(''/sdcard/f'' := None)\<rparr>"
  have u: "fs_unlink (ref_client 5) ''/sdcard/f'' (ref_mem, ref_cached) = (None, (?d, ref_cached))"
    by (simp add: fs_unlink_def quiet_command_def ref_client_def caching_client_def mem_RunCommand_def)
  have p: "path_dir ''/sdcard/f'' = ''/sdcard''" "path_base ''/sdcard/f'' = ''f''"
    by (simp_all add: path_dir_def path_base_def path_clean_def Let_def)
  obtain k2 where "dc_Get (real_dir_cache (ttl_kv 5) :: (_, ref_error log_entry \<times> mem, ref_error) DirEntryCache) (path_dir ''/sdcard/f'') ref_cached = (Some (NewCachedDirEntries
      [node_entry ''f'' (FileNode [1, 2, 3] 0x1A4), node_entry ''l'' (LinkNode ''/sdcard/f'')]), k2)"
    by (simp add: p real_dir_cache_def rdc_Get_def ttl_kv_def ref_cached_def ttl_items_def)
  from stale_after_unlink [OF this _ _ u [unfolded ref_client_def], of "node_entry ''f'' (FileNode [1, 2, 3] 0x1A4)"
      "StartOperation ''GetAttr'' ''/sdcard/f''"]
  show ?thesis using u by (simp add: p NewCachedDirEntries_def ref_client_def mem_files_def)
qed

section \<open>Requests\<close>

text \<open>C30: Whatever the pool size, at most one request at a time has a device client, and while one
has it every other waits; putting it back never blocks.\<close>

theorem pool_one_client:
  assumes "NewAdbFileSystem u config d = Return (Inr fs0, r, d')" and "pool_reachable fs0 (fs, held)"
  shows "length held \<le> 1 \<and>
    (held \<noteq> [] \<longrightarrow> getQuickUseClient fs = Blocked \<and> (\<forall>c. go_ok (recycleQuickUseClient c fs)))"
  using pool_single [OF NewAdbFileSystem_ready(1) [OF assms(1)] assms(2)]
    pool_put_Return [OF NewAdbFileSystem_ready(1) [OF assms(1)] assms(2)] by auto

theorem pool_one_client_witness:
  "getQuickUseClient ((ref_fs '''')\<lparr>fs_pool := []\<rparr>) = Blocked"
proof -
  have r: "pool_reachable (ref_fs '''') ((ref_fs '''')\<lparr>fs_pool := []\<rparr>, [mem_client])"
    by (rule pool_next [OF pool_init take_client]) (simp add: getQuickUseClient_def ref_fs_def)
  show ?thesis using pool_one_client [OF ref_fs_new r] by simp
qed

section \<open>The two programs\<close>

text \<open>C31: In every interleaving of starts, ends and shutdowns of mount processes, a key has at most
one process, the counter of the wait group is their number, the end of a process never panics,
and the wait of a shutdown ends exactly when no process is left.\<close>

theorem processes_tracked:
  assumes "tracker_reachable t"
  shows "tr_waiting t = int (card {key. \<exists>i st. tr_procs t i = Some (key, st)}) \<and>
    (\<forall>i j key st st'. tr_procs t i = Some (key, st) \<and> tr_procs t j = Some (key, st') \<longrightarrow> i = j) \<and>
    (\<forall>i key. tr_procs t i = Some (key, Sweeping) \<longrightarrow> go_ok (sweep key t)) \<and>
    (Shutdown_wait t = Return t \<longleftrightarrow> tr_procs t = Map.empty)"
proof -
  have t: "tracked t" using assms by (rule reachable_tracked)
  have "dom (tr_byKey t) = {key. \<exists>i st. tr_procs t i = Some (key, st)}"
    using t by (auto simp: tracked_def dom_def)
  then have w: "tr_waiting t = int (card {key. \<exists>i st. tr_procs t i = Some (key, st)})"
    using t by (simp add: tracked_def)
  have one: "i = j" if "tr_procs t i = Some (key, st)" "tr_procs t j = Some (key, st')" for i j key st st'
    using tracked_byKey [OF t that(1)] tracked_byKey [OF t that(2)] by simp
  show ?thesis using w one sweep_Return [OF t] Shutdown_wait_iff [OF t] by auto
qed

theorem processes_tracked_witness:
  "tr_waiting ref_tracker = 1 \<and> Shutdown_wait ref_tracker \<noteq> Return ref_tracker"
proof -
  have "{key. \<exists>i st. tr_procs ref_tracker i = Some (key, st)} = {''a''}"
    by (auto simp: ref_tracker_def split: if_splits)
  moreover have "tr_procs ref_tracker \<noteq> Map.empty" by (simp add: ref_tracker_def)
  moreover note p = processes_tracked [OF ref_tracker_reachable]
  ultimately show ?thesis using conjunct1 [OF p] conjunct2 [OF conjunct2 [OF conjunct2 [OF p]]] by simp
qed

text \<open>C32: A process can start after the shutdown has finished: a caller of \<open>Go\<close> that checked the
base context before the shutdown takes the lock after it.\<close>

theorem shutdown_overtaken:
  "\<exists>t t' i. tracker_reachable t \<and> tr_done t \<and> Shutdown_wait t = Return t \<and> tracker_step t t' \<and>
     tr_procs t' i = Some (key, Running)"
  by (rule started_after_shutdown)

text \<open>C33: Liveness of the shutdown: once the base context is cancelled, every step of any goroutine
that changes anything lowers the work that is left, and when no step changes anything the wait of
the shutdown returns. So under every schedule the shutdown ends after finitely many steps.\<close>

theorem shutdown_ends:
  assumes "tracker_reachable t" and "tr_done t"
  shows "(\<forall>t'. tracker_step t t' \<longrightarrow> t' = t \<or> work_left t' < work_left t) \<and>
    ((\<forall>t'. tracker_step t t' \<longrightarrow> t' = t) \<longrightarrow> Shutdown_wait t = Return t)"
proof -
  have t: "tracked t" using assms(1) by (rule reachable_tracked)
  show ?thesis
    using step_after_shutdown [OF _ t assms(2)] quiet_has_no_process [OF t] Shutdown_wait_iff [OF t] by blast
qed

theorem shutdown_ends_witness:
  "\<exists>t'. tracker_step (Shutdown_cancel ref_tracker) t' \<and> work_left t' < 2"
proof -
  have r: "tracker_reachable (Shutdown_cancel ref_tracker)"
    by (rule tracker_next [OF ref_tracker_reachable shutdown])
  have "work_left (Shutdown_cancel ref_tracker) = 2" "tr_done (Shutdown_cancel ref_tracker)"
    "Shutdown_wait (Shutdown_cancel ref_tracker) \<noteq> Return (Shutdown_cancel ref_tracker)"
    by (simp_all add: work_left_def Shutdown_cancel_def Shutdown_wait_def ref_tracker_def)
  then show ?thesis using shutdown_ends [OF r] by auto
qed

text \<open>C34: The file system is unmounted at most once, in every interleaving of \<open>main\<close>, the device
watcher and the device clients, and no unmount that one of them is about to make panics.\<close>

theorem unmounted_once:
  assumes "mount_reachable (s, n)"
  shows "mn_unmounts s \<le> 1 \<and> (0 < n \<longrightarrow> go_ok (unmountServer s))"
proof -
  have i: "mount_inv (s, n)" using assms by (rule mount_reachable_inv)
  then show ?thesis using unmount_Return [of s "n - 1"] by (auto simp: mount_inv_def)
qed

theorem unmounted_once_witness: "go_ok (unmountServer \<lparr>mn_server = True, mn_mounted = 1, mn_unmounted = 0, mn_unmounts = 0\<rparr>)"
proof -
  have "mount_reachable (initial_mount_state\<lparr>mn_server := True\<rparr>, 0)"
    by (rule mount_next [OF mount_init create_server])
  from mount_next [OF this set_mounted]
  have "mount_reachable (\<lparr>mn_server = True, mn_mounted = 1, mn_unmounted = 0, mn_unmounts = 0\<rparr>, 1)"
    by (simp add: initial_mount_state_def atomic_cas_def bool_int_def)
  from unmounted_once [OF this] show ?thesis by simp
qed

text \<open>C35: The device watcher of a mounted file system never returns, whatever events come and for
any number of rounds: after the channel is closed it goes round for ever.\<close>

theorem watcher_never_returns:
  assumes "mn_mounted s = 1" and "mn_server s"
  shows "watchForDeviceDisconnected fuel serial events s = None"
  using assms by (rule watch_never_returns)

theorem watcher_never_returns_witness:
  "watchForDeviceDisconnected 1000 ''x'' [\<lparr>ev_Serial = ''x'', ev_CameOnline = False, ev_WentOffline = True\<rparr>]
     \<lparr>mn_server = True, mn_mounted = 1, mn_unmounted = 0, mn_unmounts = 0\<rparr> = None"
  by (rule watcher_never_returns) simp_all

text \<open>C36: Everything the mount process of a device does is for one directory: a child of the mount
root, whatever the model and serial of the device contain, that a successful \<open>mkdir\<close> has just made
and that is removed last. If adbfs can be started, it is started on that directory, for that
device and read-only exactly when configured so, and the mount handlers run before and the unmount
handlers after its exit, both with that directory, serial and model. Nothing at all happens only
when the device gives no information or the directory cannot be made.\<close>

theorem mount_directory:
  assumes "list_all normal_elem ms" and "am_MountRoot config = abs_path ms"
    and "mountDevice os env config serial h = (as, h')"
  shows "as = [] \<and> no_mountpoint os env config h \<or>
    (\<exists>n body h1. normal_elem n \<and> os_Mkdir os (abs_path (ms @ [n])) MountpointPerm h = (None, h1) \<and>
      as = MadeDirectory (abs_path (ms @ [n])) # body @ [RemovedDirectory (abs_path (ms @ [n]))] \<and>
      mounts_on env config serial (abs_path (ms @ [n])) body \<and>
      h' = snd (os_Remove os (abs_path (ms @ [n])) h1))"
  using assms by (rule mountDevice_trace)

theorem mount_directory_witness:
  "\<exists>n body. fst (mountDevice ref_host
      \<lparr>de_info = Inr \<lparr>di_Serial = ''../x'', di_Model = ''A/B''\<rparr>, de_start_error = (\<lambda>cmd. None), de_environ = []\<rparr>
      ref_automount ''../x'' ()) =
      MadeDirectory (abs_path [''mnt'', n]) # body @ [RemovedDirectory (abs_path [''mnt'', n])] \<and>
    normal_elem n \<and> length body = 4"
proof -
  let ?env = "\<lparr>de_info = Inr \<lparr>di_Serial = ''../x'', di_Model = ''A/B''\<rparr>, de_start_error = (\<lambda>cmd. None), de_environ = []\<rparr>"
  obtain as h' where m: "mountDevice ref_host ?env ref_automount ''../x'' () = (as, h')"
    by (rule prod.exhaust)
  have "as \<noteq> []"
    using m by (auto simp: mountDevice_def NewMountpointForDevice_def doesFileExist_def ref_host_def Let_def
        split: prod.splits)
  moreover have "list_all normal_elem [''mnt'']" "am_MountRoot ref_automount = abs_path [''mnt'']"
    by (simp_all add: normal_elem_def ref_automount_def abs_path_def)
  from mount_directory [OF this m] obtain n body where "as = [] \<or> normal_elem n \<and>
      as = MadeDirectory (abs_path [''mnt'', n]) # body @ [RemovedDirectory (abs_path [''mnt'', n])] \<and>
      mounts_on ?env ref_automount ''../x'' (abs_path [''mnt'', n]) body" by auto
  ultimately show ?thesis using m by (auto simp: mounts_on_def)
qed

text \<open>C37: The words of a mount handler's command are expanded one by one after splitting: a command
written with \<open>${NAME}\<close> runs with exactly its words, each variable replaced by its value, whatever
blanks or dollar signs the values (the serial and model of a device) contain.\<close>

theorem handler_words_exact:
  assumes "words \<noteq> []" and "\<forall>w \<in> set words. list_all good_segment w"
  shows "map hr_command (FireHandlers environ [join_with '' '' (map show_word words)] vars) =
    [map (\<lambda>w. concat (map (segment_value (lookup_value (map_of vars))) w)) words]"
  using assms by (rule FireHandlers_expand)

theorem handler_words_exact_witness:
  "map hr_command (FireHandlers [] [''open --at=${ADBFS_PATH}''] [(''ADBFS_PATH'', ''/mnt/$HOME x'')]) =
   [[''open'', ''--at=/mnt/$HOME x'']]"
  using handler_words_exact [of "[[Literal ''open''], [Literal ''--at='', VarRef PathHandlerVar]]" "[]"
      "[(''ADBFS_PATH'', ''/mnt/$HOME x'')]"] handler_vars(1)
  by (simp add: show_word_def lookup_value_def PathHandlerVar_def)

text \<open>C38: The arguments of a mount process are complete: every flag that adbfs registers is set by
exactly one of them, and there are no others.\<close>

theorem arguments_complete:
  "length (adbfs_AsArgs c) = length (adbfs_flags p) \<and>
   (\<forall>fl \<in> set (adbfs_flags p). length (filter (sets_flag (fl_Name fl)) (adbfs_AsArgs c)) = 1)"
  using AsArgs_length [of c p] AsArgs_complete [of _ p c] by blast

theorem arguments_complete_witness:
  "length (filter (sets_flag ''readonly'')
     (adbfs_AsArgs \<lparr>ac_Base = am_Base ref_automount, ac_DeviceSerial = ''x'', ac_Mountpoint = ''/mnt''\<rparr>)) = 1"
  using arguments_complete
    [of "\<lparr>ac_Base = am_Base ref_automount, ac_DeviceSerial = ''x'', ac_Mountpoint = ''/mnt''\<rparr>" 5037]
  by (simp add: adbfs_flags_def base_flags_def Flag_def)

text \<open>C39: The started adbfs sees every setting of its configuration but one: the first argument takes
the place of the program's name, so the port of the adb server is lost.\<close>

theorem port_lost:
  "(let args = process_arguments (NewMountProcess path c); b = ac_Base c in
    flag_text ''port'' args = None \<and>
    flag_text ''pool'' args = Some (itoa (bc_ConnectionPoolSize b)) \<and>
    flag_text ''log'' args = Some (bc_LogLevel b) \<and>
    flag_text ''cachettl'' args = Some (show_duration (bc_CacheTtl b)) \<and>
    flag_bool ''debug'' args = Some (bc_ServeDebug b) \<and>
    flag_bool ''verbose'' args = Some (bc_Verbose b) \<and>
    flag_text ''device-root'' args = Some (bc_DeviceRoot b) \<and>
    flag_bool ''readonly'' args = Some (bc_ReadOnly b) \<and>
    flag_text ''adb'' args = Some (bc_PathToAdb b) \<and>
    flag_text ''device'' args = Some (ac_DeviceSerial c) \<and>
    flag_text ''mountpoint'' args = Some (ac_Mountpoint c)) \<and>
   flag_text ''port'' (adbfs_AsArgs c) = Some (itoa (bc_AdbPort (ac_Base c)))"
  using mount_process_port [of path c]
  by (simp add: Let_def mount_process_other mount_process_bool adbfs_AsArgs_text)

text \<open>C40: Whatever a program prints and however it exits, the version check accepts it exactly when
it ran and exited with status 0 or 2 and the first line of its output that has the form of a
version line names the expected program with the expected version, or with any version when none
is expected. (Nothing but this number is compared, so two builds of one version pass.)\<close>

theorem version_checked:
  "CheckExecutableVersionMatches run path appName version = None \<longleftrightarrow>
    (case rr_error (run path) of None \<Rightarrow> True | Some err \<Rightarrow> snd err = Some 2) \<and>
    (\<exists>v pre post. split_on (CHR 0x0A) (rr_output (run path)) = pre @ formatVersion appName v # post \<and>
      is_app_name appName \<and> is_version v \<and> (version = '''' \<or> version = v) \<and>
      (\<forall>l \<in> set pre. \<not> version_line l))"
  unfolding check_iff parseVersion_iff by blast

theorem version_checked_witness:
  "CheckExecutableVersionMatches (\<lambda>path. \<lparr>rr_output = ''usage'' @ [CHR 0x0A] @ ''adbfs v1.0.0'',
     rr_error = Some (''exit status 2'', Some 2)\<rparr>) ''/usr/bin/adbfs'' ''adbfs'' ''1.0.0'' = None"
proof -
  let ?run = "\<lambda>path :: string. \<lparr>rr_output = ''usage'' @ [CHR 0x0A] @ ''adbfs v1.0.0'',
     rr_error = Some (''exit status 2'', Some (2 :: int))\<rparr>"
  have l: "split_on (CHR 0x0A) (rr_output (?run ''/usr/bin/adbfs'')) = [''usage''] @ formatVersion ''adbfs'' Version # []"
    by (simp add: formatVersion_def Version_def)
  have n: "is_app_name ''adbfs''" "\<not> version_line ''usage''"
    by (simp_all add: is_app_name_def is_name_char_def version_line_iff match_line_def has_prefix_def)
  have "CheckExecutableVersionMatches ?run ''/usr/bin/adbfs'' ''adbfs'' Version = None"
    by (rule version_checked [THEN iffD2], intro conjI, simp, intro exI conjI, rule l)
      (simp_all add: n is_version_Version)
  then show ?thesis by (simp add: Version_def)
qed

end
